(* ===== verification/Print_Prelude.thy ===== *)
theory Print_Prelude
  imports Main "HOL-Library.AList" "HOL-Library.Char_ord" "HOL-Library.Sublist"
begin

text \<open>
  Shared ground of the development: the collections the component theories add their facts
  to, C's 32-bit \<open>int\<close>, the decimal numerals the program prints with \<open>%d\<close> and
  \<open>%03u\<close> and reads with \<open>atoi\<close> and \<open>strtoul\<close>, and the association lists that stand for
  GLib's hash table.
\<close>

named_theorems world_ext \<open>an operation only appends events of a harmless kind\<close>
named_theorems table_defs \<open>the literal keyword tables\<close>
named_theorems handler_defs \<open>the method handlers\<close>

section \<open>C integers\<close>

text \<open>
  A value of C type \<open>int\<close> is an \<open>int\<close> in \<open>int_range\<close>; \<open>int32\<close> is the two's complement
  conversion gcc documents for out-of-range values, and the wrap-around of its arithmetic.
\<close>

definition int_range :: "int \<Rightarrow> bool" where
  "int_range x \<longleftrightarrow> - (2 ^ 31) \<le> x \<and> x < 2 ^ 31"

definition int32 :: "int \<Rightarrow> int" where
  "int32 x = (x + 2 ^ 31) mod 2 ^ 32 - 2 ^ 31"

lemma int32_id [simp]: "int_range x \<Longrightarrow> int32 x = x"
  by (simp add: int32_def int_range_def)

lemma int32_range [simp]: "int_range (int32 x)"
  using pos_mod_bound [of "2 ^ 32" "x + 2 ^ 31"] by (simp add: int32_def int_range_def)

lemma int32_idem [simp]: "int32 (int32 x) = int32 x"
  by simp

text \<open>C division truncates towards zero.\<close>

definition c_div :: "int \<Rightarrow> int \<Rightarrow> int" where
  "c_div a b = sgn a * sgn b * (\<bar>a\<bar> div \<bar>b\<bar>)"

section \<open>Decimal numerals\<close>

definition digit_char :: "nat \<Rightarrow> char" where
  "digit_char d = char_of (48 + d)"

definition char_digit :: "char \<Rightarrow> nat" where
  "char_digit c = of_char c - 48"

definition is_digit :: "char \<Rightarrow> bool" where
  "is_digit c \<longleftrightarrow> 48 \<le> (of_char c :: nat) \<and> (of_char c :: nat) \<le> 57"

fun show_nat :: "nat \<Rightarrow> string" where
  "show_nat n = (if n < 10 then [digit_char n] else show_nat (n div 10) @ [digit_char (n mod 10)])"

declare show_nat.simps [simp del]

definition show_int :: "int \<Rightarrow> string" where
  "show_int i = (if i < 0 then CHR ''-'' # show_nat (nat (- i)) else show_nat (nat i))"

text \<open>\<open>%03u\<close>: at least three digits, filled up with zeros on the left.\<close>

definition show_pad3 :: "nat \<Rightarrow> string" where
  "show_pad3 n = (let s = show_nat n in replicate (3 - length s) (CHR ''0'') @ s)"

definition read_nat :: "string \<Rightarrow> nat" where
  "read_nat s = foldl (\<lambda>a c. 10 * a + char_digit c) 0 s"

lemma of_digit_char: "d < 10 \<Longrightarrow> (of_char (digit_char d) :: nat) = 48 + d"
  by (simp add: digit_char_def)

lemma char_digit_digit_char [simp]: "d < 10 \<Longrightarrow> char_digit (digit_char d) = d"
  by (simp add: char_digit_def of_digit_char)

lemma is_digit_digit_char [simp]: "d < 10 \<Longrightarrow> is_digit (digit_char d)"
  by (simp add: is_digit_def of_digit_char)

lemma read_nat_append [simp]: "read_nat (s @ [c]) = 10 * read_nat s + char_digit c"
  by (simp add: read_nat_def)

lemma read_show_nat [simp]: "read_nat (show_nat n) = n"
proof (induction n rule: show_nat.induct)
  case (1 n)
  show ?case
  proof (cases "n < 10")
    case True
    then show ?thesis by (subst show_nat.simps) (simp add: read_nat_def)
  next
    case False
    then show ?thesis by (subst show_nat.simps) (simp add: 1)
  qed
qed

lemma read_nat_zeros [simp]: "read_nat (replicate k (CHR ''0'') @ s) = read_nat s"
  by (induction k) (simp_all add: read_nat_def char_digit_def)

lemma read_show_pad3 [simp]: "read_nat (show_pad3 n) = n"
  by (simp add: show_pad3_def Let_def)

lemma show_nat_digits: "c \<in> set (show_nat n) \<Longrightarrow> is_digit c"
proof (induction n rule: show_nat.induct)
  case (1 n)
  then show ?case
    by (subst (asm) (2) show_nat.simps) (auto split: if_splits)
qed

lemma show_pad3_digits: "c \<in> set (show_pad3 n) \<Longrightarrow> is_digit c"
  by (auto simp: show_pad3_def Let_def is_digit_def dest: show_nat_digits)

lemma show_nat_nonempty [simp]: "show_nat n \<noteq> []"
  by (subst show_nat.simps) simp

text \<open>Two numerals before the same non-digit separator are equal only for equal numbers.\<close>

lemma digits_split_unique:
  assumes "\<And>c. c \<in> set a \<Longrightarrow> is_digit c" "\<And>c. c \<in> set b \<Longrightarrow> is_digit c"
    and "\<not> is_digit d" and "a @ d # x = b @ d # y"
  shows "a = b"
  using assms
proof (induction a arbitrary: b)
  case Nil
  then show ?case by (cases b) auto
next
  case (Cons c a)
  then show ?case by (cases b) auto
qed

section \<open>Reading numerals: strtol and its kin\<close>

definition is_space :: "char \<Rightarrow> bool" where
  "is_space c \<longleftrightarrow> c \<in> {CHR '' '', CHR 0x09, CHR 0x0A, CHR 0x0B, CHR 0x0C, CHR 0x0D}"

text \<open>
  The integer at the head of a C string: leading white space, an optional sign, then as many
  digits as there are; no digits read as 0.
\<close>

definition scan_int :: "string \<Rightarrow> int" where
  "scan_int s = (let t = dropWhile is_space s in
     case t of [] \<Rightarrow> 0
     | c # r \<Rightarrow>
         if c = CHR ''-'' then - int (read_nat (takeWhile is_digit r))
         else if c = CHR ''+'' then int (read_nat (takeWhile is_digit r))
         else int (read_nat (takeWhile is_digit t)))"

text \<open>\<open>atoi\<close> is \<open>(int) strtol(s, NULL, 10)\<close>: saturation at the ends of \<open>long\<close>, then conversion.\<close>

definition c_atoi :: "string \<Rightarrow> int" where
  "c_atoi s = int32 (max (- (2 ^ 63)) (min (2 ^ 63 - 1) (scan_int s)))"

text \<open>\<open>(unsigned) strtoul(s, NULL, 10)\<close>: saturation at ULONG_MAX, negation modulo \<open>2 ^ 64\<close>.\<close>

definition c_strtoul_unsigned :: "string \<Rightarrow> nat" where
  "c_strtoul_unsigned s = (let v = scan_int s in
     nat ((if \<bar>v\<bar> > 2 ^ 64 - 1 then 2 ^ 64 - 1 else v) mod 2 ^ 32))"

lemma takeWhile_show_nat [simp]: "takeWhile is_digit (show_nat n) = show_nat n"
  by (simp add: takeWhile_eq_all_conv show_nat_digits)

lemma digit_not_space: "is_digit c \<Longrightarrow> \<not> is_space c"
  by (auto simp: is_digit_def is_space_def)

lemma hd_show_nat: "show_nat n = c # r \<Longrightarrow> is_digit c"
  by (metis list.set_intros(1) show_nat_digits)

lemma sign_not_digit [simp]: "\<not> is_digit (CHR ''-'')" "\<not> is_digit (CHR ''+'')" "\<not> is_digit (CHR ''.'')"
  by (simp_all add: is_digit_def)

text \<open>What \<open>%d\<close> prints, \<open>strtol\<close> reads back.\<close>

lemma scan_show_int: "scan_int (show_int i) = i"
proof (cases "i < 0")
  case True
  then show ?thesis
    by (simp add: scan_int_def show_int_def is_space_def)
next
  case False
  obtain c r where cr: "show_nat (nat i) = c # r"
    by (cases "show_nat (nat i)") simp_all
  then have c: "is_digit c" by (rule hd_show_nat)
  then have "c \<noteq> CHR ''-''" "c \<noteq> CHR ''+''" by auto
  moreover have "read_nat (takeWhile is_digit (c # r)) = nat i"
    by (metis cr takeWhile_show_nat read_show_nat)
  ultimately show ?thesis
    using False c by (simp add: scan_int_def show_int_def cr digit_not_space del: takeWhile.simps)
qed

section \<open>Association lists as hash tables\<close>

lemma map_of_update [simp]: "map_of (AList.update k v al) x = (if x = k then Some v else map_of al x)"
  by (simp add: update_conv)

lemma map_of_delete [simp]: "map_of (AList.delete k al) x = (if x = k then None else map_of al x)"
  by (simp add: delete_conv)

lemma map_of_keys: "map_of al k = Some v \<Longrightarrow> k \<in> fst ` set al"
  by (metis map_of_SomeD fst_conv image_eqI)

lemma fst3E:
  assumes "fst p = a"
  obtains b c where "p = (a, b, c)"
  using assms by (cases p) auto

lemma fst2E:
  assumes "fst p = a"
  obtains b where "p = (a, b)"
  using assms by (cases p) auto

end
