(* ===== verification/Param_Map.thy ===== *)
theory Param_Map
  imports Print_Prelude
begin

text \<open>
  Model of \<open>src/param_map.c\<close>: the keyword tables between the webOS printing vocabulary and
  IPP/PWG, the scans over them, and the folding of job states and printer state reasons. A
  \<open>const char *\<close> that may be NULL is a \<open>string option\<close>; the sentinel row \<open>{ NULL, NULL }\<close> of a
  table is the end of the list. The locale \<open>keyword_map\<close> states what the rest of the program
  relies on in a table, and is interpreted on each of them.
\<close>

section \<open>Tables and the scans over them\<close>

datatype kv = Kv (kv_webos: string) (kv_ipp: "string option")

fun scan_fwd :: "kv list \<Rightarrow> string \<Rightarrow> string option" where
  "scan_fwd [] k = None"
| "scan_fwd (e # t) k = (if kv_webos e = k then kv_ipp e else scan_fwd t k)"

fun scan_rev :: "kv list \<Rightarrow> string \<Rightarrow> string option" where
  "scan_rev [] k = None"
| "scan_rev (e # t) k = (if kv_ipp e = Some k then Some (kv_webos e) else scan_rev t k)"

fun scan_in :: "kv list \<Rightarrow> string \<Rightarrow> bool" where
  "scan_in [] k = False"
| "scan_in (e # t) k = (if kv_webos e = k then True else scan_in t k)"

definition lookup_fwd :: "kv list \<Rightarrow> string option \<Rightarrow> string option" where
  "lookup_fwd t k = (case k of None \<Rightarrow> None | Some s \<Rightarrow> scan_fwd t s)"

definition lookup_rev :: "kv list \<Rightarrow> string option \<Rightarrow> string option" where
  "lookup_rev t k = (case k of None \<Rightarrow> None | Some s \<Rightarrow> scan_rev t s)"

definition in_table :: "kv list \<Rightarrow> string option \<Rightarrow> bool" where
  "in_table t k = (case k of None \<Rightarrow> False | Some s \<Rightarrow> scan_in t s)"

definition media_table :: "kv list" where
  "media_table =
    [Kv ''US_Letter'' (Some ''na_letter_8.5x11in''),
     Kv ''US_Legal'' (Some ''na_legal_8.5x14in''),
     Kv ''B_Tabloid'' (Some ''na_ledger_11x17in''),
     Kv ''Super B'' (Some ''na_super-b_13x19in''),
     Kv ''ISO_A3'' (Some ''iso_a3_297x420mm''),
     Kv ''ISO_A4'' (Some ''iso_a4_210x297mm''),
     Kv ''ISO_A6'' (Some ''iso_a6_105x148mm''),
     Kv ''HAGAKI'' (Some ''jpn_hagaki_100x148mm''),
     Kv ''Photo_L'' (Some ''oe_photo-l_3.5x5in''),
     Kv ''Photo_4x6'' (Some ''na_index-4x6_4x6in''),
     Kv ''Photo_5x7'' (Some ''na_5x7_5x7in''),
     Kv ''Photo_5x7_MainTray'' (Some ''na_5x7_5x7in''),
     Kv ''Photo_8x10'' (Some ''na_govt-letter_8x10in''),
     Kv ''Photo_10x15'' (Some ''om_photo-10x15_100x150mm''),
     Kv ''Photo_11x14'' None,
     Kv ''Photo_4x8'' None,
     Kv ''Photo_4X12'' None,
     Kv ''Printable CD 3.5 inch'' None,
     Kv ''Printable CD 5 inch'' None,
     Kv ''None'' None]"

definition pm_media_webos_to_pwg :: "string option \<Rightarrow> string option" where
  "pm_media_webos_to_pwg webos = lookup_fwd media_table webos"

definition pm_media_pwg_to_webos :: "string option \<Rightarrow> string option" where
  "pm_media_pwg_to_webos ipp = lookup_rev media_table ipp"

definition pm_media_is_valid :: "string option \<Rightarrow> bool" where
  "pm_media_is_valid webos = in_table media_table webos"

definition mediatype_table :: "kv list" where
  "mediatype_table =
    [Kv ''Plain'' (Some ''stationery''),
     Kv ''Special'' (Some ''stationery-fine''),
     Kv ''Photo'' (Some ''photographic''),
     Kv ''Transparency'' (Some ''transparency''),
     Kv ''Iron-On'' (Some ''iron-on''),
     Kv ''Iron-On Mirror'' (Some ''iron-on-mirror''),
     Kv ''Advanced Photo'' (Some ''photographic-high-gloss''),
     Kv ''Fast Transparency'' (Some ''transparency''),
     Kv ''Brochure Glossy'' (Some ''stationery-coated''),
     Kv ''Brochure Matte'' (Some ''stationery-heavyweight''),
     Kv ''Photo Glossy'' (Some ''photographic-glossy''),
     Kv ''Photo Matte'' (Some ''photographic-matte''),
     Kv ''Premium Photo'' (Some ''photographic-high-gloss''),
     Kv ''Other Photo'' (Some ''photographic''),
     Kv ''PrintableCD'' None,
     Kv ''Premium Presentation'' (Some ''stationery-heavyweight-coated''),
     Kv ''None'' None]"

definition pm_mediatype_webos_to_ipp :: "string option \<Rightarrow> string option" where
  "pm_mediatype_webos_to_ipp webos = lookup_fwd mediatype_table webos"

definition pm_mediatype_ipp_to_webos :: "string option \<Rightarrow> string option" where
  "pm_mediatype_ipp_to_webos ipp = lookup_rev mediatype_table ipp"

definition pm_mediatype_is_valid :: "string option \<Rightarrow> bool" where
  "pm_mediatype_is_valid webos = in_table mediatype_table webos"

text \<open>print-quality: three IPP enum values for five keywords; 0 leaves the attribute out.\<close>

definition pm_quality_webos_to_ipp :: "string option \<Rightarrow> int" where
  "pm_quality_webos_to_ipp webos =
     (case webos of None \<Rightarrow> 0
      | Some w \<Rightarrow>
          if w = ''Fast'' then 3
          else if w = ''Normal'' then 4
          else if w = ''Best'' then 5
          else if w = ''MaxDpi'' then 5
          else if w = ''Auto'' then 0
          else 0)"

definition pm_quality_ipp_to_webos :: "int \<Rightarrow> string" where
  "pm_quality_ipp_to_webos ipp =
     (if ipp = 3 then ''Fast''
      else if ipp = 4 then ''Normal''
      else if ipp = 5 then ''Best''
      else ''Auto'')"

definition pm_quality_is_valid :: "string option \<Rightarrow> bool" where
  "pm_quality_is_valid webos =
     in_table [Kv ''Fast'' None, Kv ''Normal'' None, Kv ''Best'' None,
               Kv ''MaxDpi'' None, Kv ''Auto'' None] webos"

definition duplex_table :: "kv list" where
  "duplex_table =
    [Kv ''None'' (Some ''one-sided''),
     Kv ''Book'' (Some ''two-sided-long-edge''),
     Kv ''Tablet'' (Some ''two-sided-short-edge'')]"

definition pm_duplex_webos_to_ipp :: "string option \<Rightarrow> string option" where
  "pm_duplex_webos_to_ipp webos = lookup_fwd duplex_table webos"

definition pm_duplex_ipp_to_webos :: "string option \<Rightarrow> string option" where
  "pm_duplex_ipp_to_webos ipp = lookup_rev duplex_table ipp"

definition pm_duplex_is_valid :: "string option \<Rightarrow> bool" where
  "pm_duplex_is_valid webos = in_table duplex_table webos"

definition color_table :: "kv list" where
  "color_table =
    [Kv ''Mono'' (Some ''monochrome''),
     Kv ''Color'' (Some ''color'')]"

definition pm_color_webos_to_ipp :: "string option \<Rightarrow> string option" where
  "pm_color_webos_to_ipp webos = lookup_fwd color_table webos"

definition pm_color_ipp_to_webos :: "string option \<Rightarrow> string option" where
  "pm_color_ipp_to_webos ipp = lookup_rev color_table ipp"

definition pm_color_is_valid :: "string option \<Rightarrow> bool" where
  "pm_color_is_valid webos = in_table color_table webos"

definition tray_table :: "kv list" where
  "tray_table =
    [Kv ''Unspecified'' None,
     Kv ''Auto'' (Some ''auto''),
     Kv ''Tray1'' (Some ''tray-1''),
     Kv ''Tray1'' (Some ''main''),
     Kv ''Tray2'' (Some ''tray-2''),
     Kv ''Photo'' (Some ''photo''),
     Kv ''Manual'' (Some ''manual''),
     Kv ''Manual'' (Some ''by-pass-tray''),
     Kv ''Manual Env'' (Some ''envelope-manual''),
     Kv ''Manual CD'' None,
     Kv ''Optional'' (Some ''tray-3''),
     Kv ''Continuous'' (Some ''continuous''),
     Kv ''Preload'' (Some ''pre-printed'')]"

definition pm_tray_webos_to_ipp :: "string option \<Rightarrow> string option" where
  "pm_tray_webos_to_ipp webos = lookup_fwd tray_table webos"

definition pm_tray_ipp_to_webos :: "string option \<Rightarrow> string option" where
  "pm_tray_ipp_to_webos ipp = lookup_rev tray_table ipp"

definition pm_tray_is_valid :: "string option \<Rightarrow> bool" where
  "pm_tray_is_valid webos = in_table tray_table webos"

definition pm_drytime_is_valid :: "string option \<Rightarrow> bool" where
  "pm_drytime_is_valid webos =
     in_table [Kv ''Normal'' None, Kv ''Lower'' None, Kv ''Minimum'' None] webos"

section \<open>Job states\<close>

text \<open>The pair of printerState and jobStatus; the latter is NULL unless the job is over.\<close>

definition pm_jobstate_ipp_to_webos :: "int \<Rightarrow> string \<times> string option" where
  "pm_jobstate_ipp_to_webos job_state =
     (if job_state = 3 \<or> job_state = 4 then (''QUEUED'', None)
      else if job_state = 5 then (''RUNNING'', None)
      else if job_state = 6 then (''BLOCKED'', None)
      else if job_state = 7 then (''DONE'', Some ''Cancelled'')
      else if job_state = 8 then (''DONE'', Some ''Error'')
      else if job_state = 9 then (''DONE'', Some ''Success'')
      else (''QUEUED'', None))"

section \<open>Printer state reasons\<close>

text \<open>
  The macro STEM_IS: \<open>strncmp(reason, s, strlen(s))\<close> is zero, and the reason ends there or goes
  on with a dash.
\<close>

definition stem_is :: "string \<Rightarrow> string \<Rightarrow> bool" where
  "stem_is s reason \<longleftrightarrow>
     take (length s) reason = s \<and>
     (length reason = length s \<or> reason ! length s = CHR ''-'')"

definition pm_reason_ipp_to_webos :: "string option \<Rightarrow> bool \<Rightarrow> string option" where
  "pm_reason_ipp_to_webos reason is_toner =
     (case reason of None \<Rightarrow> None
      | Some r \<Rightarrow>
          if stem_is ''media-empty'' r \<or> stem_is ''media-needed'' r \<or>
             stem_is ''input-media-supply-empty'' r then Some ''Out_Of_Paper''
          else if stem_is ''media-jam'' r \<or> stem_is ''jam'' r then Some ''Jammed''
          else if stem_is ''door-open'' r \<or> stem_is ''cover-open'' r \<or>
             stem_is ''interlock-open'' r then Some ''Door_Open''
          else if stem_is ''marker-supply-empty'' r \<or> stem_is ''toner-empty'' r
            then Some (if is_toner then ''Out_Of_Toner'' else ''Out_Of_Ink'')
          else if stem_is ''marker-supply-low'' r \<or> stem_is ''toner-low'' r
            then Some (if is_toner then ''Low_On_Toner'' else ''Low_On_Ink'')
          else if stem_is ''service-request'' r \<or> stem_is ''moving-to-paused'' r \<or>
             stem_is ''paused'' r then Some ''Service_Request''
          else if stem_is ''offline'' r \<or> stem_is ''shutdown'' r \<or>
             stem_is ''connecting-to-device'' r \<or> stem_is ''timed-out'' r
            then Some ''Unable_To_Connect''
          else None)"

section \<open>The scans, for any table\<close>

lemma lookup_None [simp]:
  "lookup_fwd t None = None" "lookup_rev t None = None" "\<not> in_table t None"
  by (simp_all add: lookup_fwd_def lookup_rev_def in_table_def)

lemma scan_fwd_mem: "scan_fwd t k = Some p \<Longrightarrow> Kv k (Some p) \<in> set t"
  by (induction t) (auto split: if_splits simp: kv.expand)

lemma scan_rev_mem: "scan_rev t k = Some w \<Longrightarrow> Kv w (Some k) \<in> set t"
  by (induction t) (auto split: if_splits simp: kv.expand)

lemma scan_in_iff: "scan_in t k \<longleftrightarrow> (\<exists>p. Kv k p \<in> set t)"
proof (induction t)
  case (Cons e t)
  show ?case
    by (cases e) (auto simp: Cons)
qed simp

lemma lookup_fwd_SomeE:
  assumes "lookup_fwd t k = Some p"
  obtains w where "k = Some w" "Kv w (Some p) \<in> set t"
  using assms by (auto simp: lookup_fwd_def split: option.splits dest: scan_fwd_mem)

lemma lookup_rev_SomeE:
  assumes "lookup_rev t k = Some w"
  obtains p where "k = Some p" "Kv w (Some p) \<in> set t"
  using assms by (auto simp: lookup_rev_def split: option.splits dest: scan_rev_mem)

lemma in_table_iff: "in_table t k \<longleftrightarrow> (\<exists>w p. k = Some w \<and> Kv w p \<in> set t)"
  by (auto simp: in_table_def scan_in_iff split: option.splits)

section \<open>What the program relies on in a keyword table\<close>

text \<open>
  The request handlers validate with \<open>valid\<close>, the submission translates with \<open>fwd\<close>, and the
  capability reply translates back with \<open>rev\<close>. What fits these three together: a keyword that
  is offered is accepted and has an IPP name, and translating forth and back settles on one
  canonical keyword for the same IPP name.
\<close>

locale keyword_map =
  fixes fwd :: "string option \<Rightarrow> string option"
    and rev :: "string option \<Rightarrow> string option"
    and valid :: "string option \<Rightarrow> bool"
  assumes null: "fwd None = None" "rev None = None" "\<not> valid None"
    and fwd_valid: "fwd (Some w) = Some p \<Longrightarrow> valid (Some w)"
    and rev_fwd_some: "rev (Some p) = Some w \<Longrightarrow> \<exists>q. fwd (Some w) = Some q"
    and fwd_rev_fwd: "fwd (Some w) = Some p \<Longrightarrow> \<exists>v. rev (Some p) = Some v \<and> fwd (Some v) = Some p"
begin

lemma offered_usable:
  assumes "rev p = Some w"
  shows "valid (Some w) \<and> fwd (Some w) \<noteq> None"
proof -
  obtain p' where "p = Some p'" using assms null by (cases p) auto
  then show ?thesis using assms rev_fwd_some fwd_valid by blast
qed

lemma fwd_image_offered: "fwd w = Some p \<Longrightarrow> rev (Some p) \<noteq> None"
  using fwd_rev_fwd null by (cases w) fastforce+

lemma canonical_idem:
  assumes "fwd w = Some p" "rev (Some p) = Some v"
  shows "fwd (Some v) = Some p"
  using assms fwd_rev_fwd null by (cases w) fastforce+

end

text \<open>Where every IPP name has one row only, the translation is a bijection onto the offered keywords.\<close>

locale keyword_section = keyword_map +
  assumes rev_fwd: "rev (Some p) = Some w \<Longrightarrow> fwd (Some w) = Some p"
begin

lemma rev_inj: "rev (Some p) = Some w \<Longrightarrow> rev (Some q) = Some w \<Longrightarrow> p = q"
  using rev_fwd [of p w] rev_fwd [of q w] by simp

lemma roundtrip_iff: "rev (Some p) = Some w \<Longrightarrow> rev (fwd (Some w)) = Some w"
  using rev_fwd by simp

end

text \<open>Both laws are finite checks of the rows.\<close>

definition rows_settle :: "kv list \<Rightarrow> bool" where
  "rows_settle t = list_all (\<lambda>e. case kv_ipp e of None \<Rightarrow> True
     | Some p \<Rightarrow> (case scan_fwd t (kv_webos e) of None \<Rightarrow> False
        | Some q \<Rightarrow> (case scan_rev t q of None \<Rightarrow> False | Some v \<Rightarrow> scan_fwd t v = Some q))) t"

definition rows_section :: "kv list \<Rightarrow> bool" where
  "rows_section t = list_all (\<lambda>e. case kv_ipp e of None \<Rightarrow> True
     | Some p \<Rightarrow> (case scan_rev t p of None \<Rightarrow> False | Some v \<Rightarrow> scan_fwd t v = Some p)) t"

lemma rows_settleD:
  assumes "rows_settle t" "Kv w (Some p) \<in> set t"
  obtains q v where "scan_fwd t w = Some q" "scan_rev t q = Some v" "scan_fwd t v = Some q"
  using bspec [OF assms(1) [unfolded rows_settle_def list_all_iff] assms(2)] that
  by (auto split: option.splits)

lemma rows_sectionD:
  assumes "rows_section t" "Kv w (Some p) \<in> set t"
  obtains v where "scan_rev t p = Some v" "scan_fwd t v = Some p"
  using bspec [OF assms(1) [unfolded rows_section_def list_all_iff] assms(2)] that
  by (auto split: option.splits)

lemma keyword_mapI:
  assumes "rows_settle t"
  shows "keyword_map (lookup_fwd t) (lookup_rev t) (in_table t)"
proof
  fix w p
  assume "lookup_fwd t (Some w) = Some p"
  then show "in_table t (Some w)"
    by (auto elim!: lookup_fwd_SomeE simp: in_table_iff)
next
  fix p w
  assume "lookup_rev t (Some p) = Some w"
  then have "Kv w (Some p) \<in> set t" by (auto elim: lookup_rev_SomeE)
  then show "\<exists>q. lookup_fwd t (Some w) = Some q"
    using rows_settleD [OF assms] by (metis lookup_fwd_def option.simps(5))
next
  fix w p
  assume *: "lookup_fwd t (Some w) = Some p"
  then have "Kv w (Some p) \<in> set t" by (auto elim: lookup_fwd_SomeE)
  then show "\<exists>v. lookup_rev t (Some p) = Some v \<and> lookup_fwd t (Some v) = Some p"
    using rows_settleD [OF assms] * by (metis lookup_fwd_def lookup_rev_def option.simps(5))
qed simp_all

lemma keyword_sectionI:
  assumes "rows_settle t" "rows_section t"
  shows "keyword_section (lookup_fwd t) (lookup_rev t) (in_table t)"
proof (rule keyword_section.intro [OF keyword_mapI [OF assms(1)]], unfold_locales)
  fix p w
  assume "lookup_rev t (Some p) = Some w"
  then show "lookup_fwd t (Some w) = Some p"
    using rows_sectionD [OF assms(2)] scan_rev_mem [of t p w]
    by (metis lookup_fwd_def lookup_rev_def option.inject option.simps(5))
qed

lemma rows_settle_tables:
  "rows_settle media_table" "rows_settle mediatype_table" "rows_settle duplex_table"
  "rows_settle color_table" "rows_settle tray_table"
  by code_simp+

lemma rows_section_tables:
  "rows_section media_table" "rows_section mediatype_table" "rows_section duplex_table"
  "rows_section color_table"
  by code_simp+

lemma pm_functions [table_defs]:
  "pm_media_webos_to_pwg = lookup_fwd media_table"
  "pm_media_pwg_to_webos = lookup_rev media_table"
  "pm_media_is_valid = in_table media_table"
  "pm_mediatype_webos_to_ipp = lookup_fwd mediatype_table"
  "pm_mediatype_ipp_to_webos = lookup_rev mediatype_table"
  "pm_mediatype_is_valid = in_table mediatype_table"
  "pm_duplex_webos_to_ipp = lookup_fwd duplex_table"
  "pm_duplex_ipp_to_webos = lookup_rev duplex_table"
  "pm_duplex_is_valid = in_table duplex_table"
  "pm_color_webos_to_ipp = lookup_fwd color_table"
  "pm_color_ipp_to_webos = lookup_rev color_table"
  "pm_color_is_valid = in_table color_table"
  "pm_tray_webos_to_ipp = lookup_fwd tray_table"
  "pm_tray_ipp_to_webos = lookup_rev tray_table"
  "pm_tray_is_valid = in_table tray_table"
  by (auto simp: fun_eq_iff pm_media_webos_to_pwg_def pm_media_pwg_to_webos_def
      pm_media_is_valid_def pm_mediatype_webos_to_ipp_def pm_mediatype_ipp_to_webos_def
      pm_mediatype_is_valid_def pm_duplex_webos_to_ipp_def pm_duplex_ipp_to_webos_def
      pm_duplex_is_valid_def pm_color_webos_to_ipp_def pm_color_ipp_to_webos_def
      pm_color_is_valid_def pm_tray_webos_to_ipp_def pm_tray_ipp_to_webos_def pm_tray_is_valid_def)

interpretation media: keyword_section pm_media_webos_to_pwg pm_media_pwg_to_webos pm_media_is_valid
  unfolding table_defs by (intro keyword_sectionI rows_settle_tables rows_section_tables)

interpretation mediatype: keyword_section
  pm_mediatype_webos_to_ipp pm_mediatype_ipp_to_webos pm_mediatype_is_valid
  unfolding table_defs by (intro keyword_sectionI rows_settle_tables rows_section_tables)

interpretation duplex: keyword_section
  pm_duplex_webos_to_ipp pm_duplex_ipp_to_webos pm_duplex_is_valid
  unfolding table_defs by (intro keyword_sectionI rows_settle_tables rows_section_tables)

interpretation color: keyword_section
  pm_color_webos_to_ipp pm_color_ipp_to_webos pm_color_is_valid
  unfolding table_defs by (intro keyword_sectionI rows_settle_tables rows_section_tables)

text \<open>The trays have aliases (\<open>main\<close>, \<open>by-pass-tray\<close>), so only the weaker contract holds.\<close>

interpretation tray: keyword_map pm_tray_webos_to_ipp pm_tray_ipp_to_webos pm_tray_is_valid
  unfolding table_defs by (intro keyword_mapI rows_settle_tables)

section \<open>Print quality\<close>

lemma pm_quality_range: "pm_quality_webos_to_ipp w \<in> {0, 3, 4, 5}"
  by (simp add: pm_quality_webos_to_ipp_def split: option.split)

lemma pm_quality_back:
  "pm_quality_is_valid (Some (pm_quality_ipp_to_webos q))"
  "q \<in> {3, 4, 5} \<Longrightarrow> pm_quality_webos_to_ipp (Some (pm_quality_ipp_to_webos q)) = q"
  by (auto simp: pm_quality_ipp_to_webos_def pm_quality_is_valid_def in_table_def
      pm_quality_webos_to_ipp_def)

section \<open>Reasons: the stem relation\<close>

lemma stem_is_iff: "stem_is s r \<longleftrightarrow> r = s \<or> (\<exists>x. r = s @ CHR ''-'' # x)"
proof
  assume *: "stem_is s r"
  then have r: "r = s @ drop (length s) r"
    unfolding stem_is_def by (metis append_take_drop_id)
  show "r = s \<or> (\<exists>x. r = s @ CHR ''-'' # x)"
  proof (cases "drop (length s) r")
    case Nil
    then show ?thesis using r by simp
  next
    case (Cons c x)
    have len: "length s < length r"
      using Cons by (metis drop_eq_Nil linorder_not_le list.distinct(1))
    then have "r ! length s = c"
      using Cons by (simp add: Cons_nth_drop_Suc [symmetric])
    then have "c = CHR ''-''" using * len by (simp add: stem_is_def)
    then show ?thesis using r Cons by auto
  qed
next
  assume "r = s \<or> (\<exists>x. r = s @ CHR ''-'' # x)"
  then show "stem_is s r" by (auto simp: stem_is_def)
qed

lemma stem_is_refl [simp]: "stem_is s s"
  by (simp add: stem_is_iff)

lemma stem_is_extend: "stem_is s r \<Longrightarrow> stem_is s (r @ CHR ''-'' # x)"
  by (auto simp: stem_is_iff)

text \<open>If an extended reason has a stem the reason itself has not, that stem extends the reason.\<close>

lemma stem_is_extendD:
  assumes "stem_is s (r @ CHR ''-'' # x)" and "stem_is t r"
  shows "stem_is s r \<or> stem_is t s"
proof -
  have "s = r @ CHR ''-'' # x \<or> (\<exists>y. s @ CHR ''-'' # y = r @ CHR ''-'' # x)"
    using assms(1) by (auto simp: stem_is_iff)
  then show ?thesis
  proof
    assume "s = r @ CHR ''-'' # x"
    then show ?thesis using assms(2) by (auto simp: stem_is_iff)
  next
    assume "\<exists>y. s @ CHR ''-'' # y = r @ CHR ''-'' # x"
    then show ?thesis using assms(2)
      by (auto simp: stem_is_iff append_eq_append_conv2 Cons_eq_append_conv append_eq_Cons_conv)
  qed
qed

text \<open>Two reasons with the same stem among the given ones are told apart by no other of them.\<close>

definition reason_stems :: "string list" where
  "reason_stems =
    [''media-empty'', ''media-needed'', ''input-media-supply-empty'', ''media-jam'', ''jam'',
     ''door-open'', ''cover-open'', ''interlock-open'', ''marker-supply-empty'', ''toner-empty'',
     ''marker-supply-low'', ''toner-low'', ''service-request'', ''moving-to-paused'', ''paused'',
     ''offline'', ''shutdown'', ''connecting-to-device'', ''timed-out'']"

lemma reason_stems_apart: "\<forall>s \<in> set reason_stems. \<forall>t \<in> set reason_stems. stem_is t s \<longrightarrow> s = t"
  unfolding list_all_iff [symmetric] by code_simp

lemma reason_stem_extend:
  assumes "s \<in> set reason_stems" "t \<in> set reason_stems" "stem_is t r"
  shows "stem_is s (r @ CHR ''-'' # x) \<longleftrightarrow> stem_is s r"
  using assms stem_is_extend stem_is_extendD reason_stems_apart by metis

lemma reason_stems_mem:
  "''media-empty'' \<in> set reason_stems"
  "''media-needed'' \<in> set reason_stems"
  "''input-media-supply-empty'' \<in> set reason_stems"
  "''media-jam'' \<in> set reason_stems"
  "''jam'' \<in> set reason_stems"
  "''door-open'' \<in> set reason_stems"
  "''cover-open'' \<in> set reason_stems"
  "''interlock-open'' \<in> set reason_stems"
  "''marker-supply-empty'' \<in> set reason_stems"
  "''toner-empty'' \<in> set reason_stems"
  "''marker-supply-low'' \<in> set reason_stems"
  "''toner-low'' \<in> set reason_stems"
  "''service-request'' \<in> set reason_stems"
  "''moving-to-paused'' \<in> set reason_stems"
  "''paused'' \<in> set reason_stems"
  "''offline'' \<in> set reason_stems"
  "''shutdown'' \<in> set reason_stems"
  "''connecting-to-device'' \<in> set reason_stems"
  "''timed-out'' \<in> set reason_stems"
  by (simp_all add: reason_stems_def)

lemma pm_reason_cong:
  assumes "\<And>s. s \<in> set reason_stems \<Longrightarrow> stem_is s r = stem_is s r'"
  shows "pm_reason_ipp_to_webos (Some r) toner = pm_reason_ipp_to_webos (Some r') toner"
  by (simp only: pm_reason_ipp_to_webos_def option.case reason_stems_mem [THEN assms])

lemma pm_reason_stem:
  assumes "pm_reason_ipp_to_webos (Some r) toner = Some b"
  obtains t where "t \<in> set reason_stems" "stem_is t r"
proof -
  have "\<exists>t \<in> set reason_stems. stem_is t r"
  proof (rule ccontr)
    assume "\<not> ?thesis"
    then have none: "stem_is s r = False" if "s \<in> set reason_stems" for s
      using that by blast
    have "pm_reason_ipp_to_webos (Some r) toner = None"
      by (simp add: pm_reason_ipp_to_webos_def reason_stems_mem [THEN none])
    then show False using assms by simp
  qed
  then show ?thesis using that by blast
qed

lemma pm_reason_suffix:
  assumes "pm_reason_ipp_to_webos (Some r) toner = Some b"
  shows "pm_reason_ipp_to_webos (Some (r @ CHR ''-'' # x)) toner = Some b"
proof -
  obtain t where t: "t \<in> set reason_stems" "stem_is t r"
    using assms by (rule pm_reason_stem)
  have ext: "stem_is s (r @ CHR ''-'' # x) = stem_is s r" if "s \<in> set reason_stems" for s
    using that t by (rule reason_stem_extend)
  show ?thesis
    using assms pm_reason_cong [of "r @ CHR ''-'' # x" r toner, OF ext] by simp
qed

section \<open>Properties\<close>

text \<open>
  C24: Every keyword the capability reply can offer for a media size, a media type or a tray, and
  every duplex and colour keyword an IPP name maps to, is one the service accepts back, and has an
  IPP name to submit.
\<close>

theorem offered_keywords_usable:
  "(pm_media_pwg_to_webos p = Some w \<longrightarrow> pm_media_is_valid (Some w) \<and> pm_media_webos_to_pwg (Some w) \<noteq> None)
   \<and> (pm_mediatype_ipp_to_webos p = Some w \<longrightarrow> pm_mediatype_is_valid (Some w) \<and> pm_mediatype_webos_to_ipp (Some w) \<noteq> None)
   \<and> (pm_tray_ipp_to_webos p = Some w \<longrightarrow> pm_tray_is_valid (Some w) \<and> pm_tray_webos_to_ipp (Some w) \<noteq> None)
   \<and> (pm_duplex_ipp_to_webos p = Some w \<longrightarrow> pm_duplex_is_valid (Some w) \<and> pm_duplex_webos_to_ipp (Some w) \<noteq> None)
   \<and> (pm_color_ipp_to_webos p = Some w \<longrightarrow> pm_color_is_valid (Some w) \<and> pm_color_webos_to_ipp (Some w) \<noteq> None)"
  using media.offered_usable mediatype.offered_usable tray.offered_usable duplex.offered_usable
    color.offered_usable by blast

theorem offered_keywords_usable_witness:
  "pm_tray_is_valid (Some ''Tray1'') \<and> pm_tray_webos_to_ipp (Some ''Tray1'') \<noteq> None"
proof -
  have "pm_tray_ipp_to_webos (Some ''main'') = Some ''Tray1''" by code_simp
  then show ?thesis using offered_keywords_usable [of "Some ''main''" "''Tray1''"] by blast
qed

text \<open>
  C23: Translating an IPP name to a webOS keyword and back gives the same IPP name for media sizes,
  media types, duplex and colour modes. Trays have several IPP names for one keyword; there the
  translation settles: forth, back and forth again is the same as forth.
\<close>

theorem keyword_round_trip:
  assumes "pm_media_pwg_to_webos (Some p1) = Some w1" "pm_mediatype_ipp_to_webos (Some p2) = Some w2"
    and "pm_duplex_ipp_to_webos (Some p3) = Some w3" "pm_color_ipp_to_webos (Some p4) = Some w4"
    and "pm_tray_webos_to_ipp w5 = Some p5" "pm_tray_ipp_to_webos (Some p5) = Some v5"
  shows "pm_media_webos_to_pwg (Some w1) = Some p1 \<and> pm_mediatype_webos_to_ipp (Some w2) = Some p2 \<and>
    pm_duplex_webos_to_ipp (Some w3) = Some p3 \<and> pm_color_webos_to_ipp (Some w4) = Some p4 \<and>
    pm_tray_webos_to_ipp (Some v5) = Some p5"
  using media.rev_fwd [OF assms(1)] mediatype.rev_fwd [OF assms(2)] duplex.rev_fwd [OF assms(3)]
    color.rev_fwd [OF assms(4)] tray.canonical_idem [OF assms(5,6)] by blast

lemma keyword_samples:
  "pm_media_pwg_to_webos (Some ''na_5x7_5x7in'') = Some ''Photo_5x7''"
  "pm_mediatype_ipp_to_webos (Some ''stationery'') = Some ''Plain''"
  "pm_duplex_ipp_to_webos (Some ''one-sided'') = Some ''None''"
  "pm_color_ipp_to_webos (Some ''color'') = Some ''Color''"
  "pm_tray_webos_to_ipp (Some ''Manual'') = Some ''manual''"
  "pm_tray_ipp_to_webos (Some ''manual'') = Some ''Manual''"
  by code_simp+

theorem keyword_round_trip_witness:
  "pm_media_webos_to_pwg (Some ''Photo_5x7'') = Some ''na_5x7_5x7in'' \<and> pm_tray_webos_to_ipp (Some ''Manual'') = Some ''manual''"
  using keyword_round_trip [OF keyword_samples] by blast

text \<open>
  C31: A printer state reason that is recognised is recognised as the same blocked reason whatever
  severity or detail is appended to it with a dash, and an ink or toner reason names the toner
  exactly when the markers are toner.
\<close>

theorem reason_suffix_ignored:
  assumes "pm_reason_ipp_to_webos (Some r) toner = Some b"
  shows "pm_reason_ipp_to_webos (Some (r @ CHR ''-'' # x)) toner = Some b \<and>
    (b \<in> {''Out_Of_Toner'', ''Low_On_Toner''} \<longrightarrow> toner) \<and> (b \<in> {''Out_Of_Ink'', ''Low_On_Ink''} \<longrightarrow> \<not> toner) \<and>
    pm_reason_ipp_to_webos (Some r) (\<not> toner) \<noteq> None"
proof -
  have "(b \<in> {''Out_Of_Toner'', ''Low_On_Toner''} \<longrightarrow> toner) \<and> (b \<in> {''Out_Of_Ink'', ''Low_On_Ink''} \<longrightarrow> \<not> toner)"
    using assms unfolding pm_reason_ipp_to_webos_def option.case by (simp split: if_splits) auto
  moreover have "pm_reason_ipp_to_webos (Some r) (\<not> toner) \<noteq> None"
    using assms unfolding pm_reason_ipp_to_webos_def option.case by (simp split: if_splits)
  ultimately show ?thesis using pm_reason_suffix [OF assms] by blast
qed

theorem reason_suffix_ignored_witness:
  "pm_reason_ipp_to_webos (Some (''marker-supply-low'' @ CHR ''-'' # ''warning'')) True = Some ''Low_On_Toner''"
proof -
  have "pm_reason_ipp_to_webos (Some ''marker-supply-low'') True = Some ''Low_On_Toner''" by code_simp
  from reason_suffix_ignored [OF this] show ?thesis by blast
qed

text \<open>
  The status stream reports DONE for exactly the three IPP job states from which a job does not
  come back (canceled, aborted, completed), with an outcome exactly then and a different one for each.
\<close>

lemma jobstate_outcomes:
  "(fst (pm_jobstate_ipp_to_webos n) = ''DONE'' \<longleftrightarrow> n \<in> {7, 8, 9}) \<and>
   (snd (pm_jobstate_ipp_to_webos n) \<noteq> None \<longleftrightarrow> fst (pm_jobstate_ipp_to_webos n) = ''DONE'') \<and>
   (snd (pm_jobstate_ipp_to_webos n) = Some ''Success'' \<longleftrightarrow> n = 9) \<and>
   (snd (pm_jobstate_ipp_to_webos n) = Some ''Cancelled'' \<longleftrightarrow> n = 7) \<and>
   (snd (pm_jobstate_ipp_to_webos n) = Some ''Error'' \<longleftrightarrow> n = 8)"
  by (simp add: pm_jobstate_ipp_to_webos_def)

end
