(* ===== verification/C_Double.thy ===== *)
theory C_Double
  imports Print_Prelude Complex_Main "HOL-Library.Log_Nat"
begin

text \<open>
  C's \<open>double\<close>. A finite double is the rational number it denotes, and every arithmetic
  operation of the source is the exact operation followed by \<open>fl\<close>, the binary64 rounding
  (53 significant bits, ties to even, gradual underflow at \<open>2 powi (-1074)\<close>). The exponent
  has no upper bound here: where binary64 overflows to infinity the value is far outside
  every integer type, and the program only converts such values to integers, where C leaves
  the result open in both cases (the parameter \<open>oor\<close> below).
\<close>

type_synonym double = rat

section \<open>Rounding\<close>

text \<open>Round to the nearest integer, ties to even.\<close>

definition rne :: "rat \<Rightarrow> int" where
  "rne x = (let f = \<lfloor>x\<rfloor>; r = x - of_int f in
     if r < 1 / 2 then f else if 1 / 2 < r then f + 1 else if even f then f else f + 1)"

lemma rne_floor: "rne x = \<lfloor>x\<rfloor> \<or> rne x = \<lfloor>x\<rfloor> + 1"
  by (simp add: rne_def Let_def)

lemma rne_ge_floor: "\<lfloor>x\<rfloor> \<le> rne x" and rne_le_floor: "rne x \<le> \<lfloor>x\<rfloor> + 1"
  using rne_floor [of x] by auto

lemma rne_of_int [simp]: "rne (of_int n) = n"
  by (simp add: rne_def)

lemma rne_numeral [simp]: "rne (numeral n) = numeral n" "rne 0 = 0" "rne 1 = 1"
  using rne_of_int [of "numeral n"] rne_of_int [of 0] rne_of_int [of 1] by simp_all

lemma rne_mono:
  assumes "x \<le> y"
  shows "rne x \<le> rne y"
proof (cases "\<lfloor>x\<rfloor> = \<lfloor>y\<rfloor>")
  case True
  have "x - of_int \<lfloor>x\<rfloor> \<le> y - of_int \<lfloor>y\<rfloor>"
    using assms True by simp
  then show ?thesis
    using True by (auto simp: rne_def Let_def)
next
  case False
  then have "\<lfloor>x\<rfloor> + 1 \<le> \<lfloor>y\<rfloor>"
    using floor_mono [OF assms] by linarith
  then show ?thesis
    using rne_le_floor [of x] rne_ge_floor [of y] by linarith
qed

lemma rne_nonneg: "0 \<le> x \<Longrightarrow> 0 \<le> rne x"
  using rne_mono [of 0 x] by simp

lemma rne_le_of_int: "x \<le> of_int n \<Longrightarrow> rne x \<le> n"
  using rne_mono [of x "of_int n"] by simp

lemma rne_ge_of_int: "of_int n \<le> x \<Longrightarrow> n \<le> rne x"
  using rne_mono [of "of_int n" x] by simp

text \<open>
  Nonnegative values in units of the smallest double: \<open>y\<close> has \<open>floorlog 2\<close> many bits, of
  which the upper 53 survive.
\<close>

definition excess_bits :: "rat \<Rightarrow> nat" where
  "excess_bits y = floorlog 2 (nat \<lfloor>y\<rfloor>) - 53"

definition round_units :: "rat \<Rightarrow> rat" where
  "round_units y = of_int (rne (y / 2 ^ excess_bits y)) * 2 ^ excess_bits y"

definition fl :: "rat \<Rightarrow> double" where
  "fl x = (if x < 0 then - (round_units (- x * 2 ^ 1074) / 2 ^ 1074)
           else round_units (x * 2 ^ 1074) / 2 ^ 1074)"

lemma excess_bits_mono: "x \<le> y \<Longrightarrow> excess_bits x \<le> excess_bits y"
  unfolding excess_bits_def by (intro diff_le_mono floorlog_mono nat_mono floor_mono)

lemma excess_upper:
  assumes "0 \<le> y"
  shows "y < 2 ^ (53 + excess_bits y)"
proof -
  let ?n = "nat \<lfloor>y\<rfloor>"
  have "?n < 2 ^ floorlog 2 ?n"
    using floorlog_bounds [of ?n 2] by (cases "?n = 0") auto
  also have "(2::nat) ^ floorlog 2 ?n \<le> 2 ^ (53 + excess_bits y)"
    by (rule power_increasing) (simp_all add: excess_bits_def)
  finally have "\<lfloor>y\<rfloor> < 2 ^ (53 + excess_bits y)"
    using assms by (simp add: nat_less_iff)
  then have "\<lfloor>y\<rfloor> < \<lfloor>(2 ^ (53 + excess_bits y)) :: rat\<rfloor>"
    by (simp del: power_add add: floor_power)
  then show ?thesis
    by (metis floor_mono linorder_not_le)
qed

lemma excess_lower:
  assumes "0 \<le> y" and "0 < excess_bits y"
  shows "2 ^ (52 + excess_bits y) \<le> y"
proof -
  let ?n = "nat \<lfloor>y\<rfloor>"
  have pos: "0 < ?n"
    using assms(2) by (cases "?n = 0") (auto simp: excess_bits_def floorlog_def)
  have fl: "floorlog 2 ?n = 53 + excess_bits y"
    using assms(2) by (simp add: excess_bits_def)
  have "2 ^ (floorlog 2 ?n - 1) \<le> ?n"
    using floorlog_bounds [of ?n 2] pos by auto
  then have "2 ^ (52 + excess_bits y) \<le> ?n"
    by (simp add: fl)
  then have "(2::int) ^ (52 + excess_bits y) \<le> \<lfloor>y\<rfloor>"
    using assms(1) by (metis nat_le_iff nat_int of_nat_numeral of_nat_power of_nat_le_iff int_nat_eq zero_le_floor)
  then show ?thesis
    by (simp add: le_floor_iff del: power_add)
qed

lemma round_units_nonneg: "0 \<le> y \<Longrightarrow> 0 \<le> round_units y"
  by (simp add: round_units_def rne_nonneg)

lemma round_units_mono:
  assumes "0 \<le> x" "x \<le> y"
  shows "round_units x \<le> round_units y"
proof (cases "excess_bits x = excess_bits y")
  case True
  have "x / 2 ^ excess_bits y \<le> y / 2 ^ excess_bits y"
    using assms by (simp add: divide_right_mono)
  then show ?thesis
    using True by (simp add: round_units_def rne_mono)
next
  case False
  let ?a = "excess_bits x" and ?b = "excess_bits y"
  have ab: "?a < ?b"
    using False excess_bits_mono [OF assms(2)] by simp
  have "x \<le> 2 ^ 53 * 2 ^ ?a"
    using excess_upper [OF assms(1)] by (simp add: power_add)
  then have "x / 2 ^ ?a \<le> of_int (2 ^ 53)"
    by (simp add: divide_le_eq)
  then have "rne (x / 2 ^ ?a) \<le> 2 ^ 53"
    by (rule rne_le_of_int)
  then have "(of_int (rne (x / 2 ^ ?a)) :: rat) \<le> of_int (2 ^ 53)"
    by (rule of_int_le_iff [THEN iffD2])
  then have 1: "round_units x \<le> 2 ^ 53 * 2 ^ ?a"
    by (simp add: round_units_def)
  have "2 ^ 52 * 2 ^ ?b \<le> y"
    using excess_lower [of y] assms ab by (simp add: power_add)
  then have "of_int (2 ^ 52) \<le> y / 2 ^ ?b"
    by (simp add: le_divide_eq)
  then have "2 ^ 52 \<le> rne (y / 2 ^ ?b)"
    by (rule rne_ge_of_int)
  then have "of_int (2 ^ 52) \<le> (of_int (rne (y / 2 ^ ?b)) :: rat)"
    by (rule of_int_le_iff [THEN iffD2])
  then have 2: "2 ^ 52 * 2 ^ ?b \<le> round_units y"
    by (simp add: round_units_def)
  have "(2::rat) ^ (53 + ?a) \<le> 2 ^ (52 + ?b)"
    by (rule power_increasing) (use ab in simp_all)
  then have "(2::rat) ^ 53 * 2 ^ ?a \<le> 2 ^ 52 * 2 ^ ?b"
    by (simp only: power_add)
  with 1 2 show ?thesis by linarith
qed

lemma fl_0 [simp]: "fl 0 = 0"
  by (simp add: fl_def round_units_def)

lemma fl_minus: "fl (- x) = - fl x"
  by (auto simp: fl_def round_units_def)

lemma fl_nonneg [simp]: "0 \<le> x \<Longrightarrow> 0 \<le> fl x"
  by (simp add: fl_def round_units_nonneg)

lemma fl_mono:
  assumes "x \<le> y"
  shows "fl x \<le> fl y"
proof -
  have pos: "fl a \<le> fl b" if "0 \<le> a" "a \<le> b" for a b
    using that by (simp add: fl_def round_units_mono divide_right_mono mult_right_mono)
  consider "0 \<le> x" | "x < 0" "0 \<le> y" | "x < 0" "y < 0"
    by linarith
  then show ?thesis
  proof cases
    case 1
    then show ?thesis using pos assms by simp
  next
    case 2
    have "fl x = - fl (- x)" by (simp add: fl_minus)
    then have "fl x \<le> 0" using 2 by simp
    moreover have "0 \<le> fl y" using 2 by simp
    ultimately show ?thesis by linarith
  next
    case 3
    then have "fl (- y) \<le> fl (- x)" using pos assms by simp
    then show ?thesis by (simp add: fl_minus)
  qed
qed

text \<open>
  Evaluation. A value whose multiple by \<open>2 ^ s\<close> lies between \<open>2 ^ 52\<close> and \<open>2 ^ 53\<close> has its
  last significant bit at \<open>2 ^ -s\<close>.
\<close>

lemma excess_bits_eq:
  assumes "2 ^ (52 + k) \<le> y" "y < 2 ^ (53 + k)"
  shows "excess_bits y = k"
proof -
  have "(2::int) ^ (52 + k) \<le> \<lfloor>y\<rfloor>"
    using assms(1) by (simp add: le_floor_iff del: power_add)
  moreover have "\<lfloor>y\<rfloor> < 2 ^ (53 + k)"
    using assms(2) by (simp add: floor_less_iff del: power_add)
  ultimately have "2 ^ (52 + k) \<le> nat \<lfloor>y\<rfloor>" "nat \<lfloor>y\<rfloor> < 2 ^ (53 + k)"
    by (simp_all add: nat_less_iff le_nat_iff del: power_add)
  then have "53 + k \<le> floorlog 2 (nat \<lfloor>y\<rfloor>)" "floorlog 2 (nat \<lfloor>y\<rfloor>) \<le> 53 + k"
    using floorlog_geI [of 2 "53 + k" "nat \<lfloor>y\<rfloor>"] floorlog_leI [of "nat \<lfloor>y\<rfloor>" 2 "53 + k"]
    by simp_all
  then show ?thesis by (simp add: excess_bits_def)
qed

lemma fl_eval:
  assumes "s \<le> 1074" "2 ^ 52 \<le> x * 2 ^ s" "x * 2 ^ s < 2 ^ 53"
  shows "fl x = of_int (rne (x * 2 ^ s)) / 2 ^ s"
proof -
  define k :: nat where "k = 1074 - s"
  have p: "(2::rat) ^ 1074 = 2 ^ s * 2 ^ k"
    using assms(1) by (simp add: k_def flip: power_add)
  have xpos: "0 \<le> x"
  proof (rule ccontr)
    assume "\<not> 0 \<le> x"
    then have "x * 2 ^ s \<le> 0" by (simp add: mult_le_0_iff)
    then show False using assms(2) by simp
  qed
  have xs: "x * 2 ^ 1074 = (x * 2 ^ s) * 2 ^ k"
    by (simp only: p mult.assoc)
  have "2 ^ (52 + k) \<le> x * 2 ^ 1074"
    unfolding xs power_add by (rule mult_right_mono [OF assms(2)]) simp
  moreover have "x * 2 ^ 1074 < 2 ^ (53 + k)"
    unfolding xs power_add by (rule mult_strict_right_mono [OF assms(3)]) simp
  ultimately have e: "excess_bits (x * 2 ^ 1074) = k"
    by (rule excess_bits_eq)
  have "x * 2 ^ 1074 / 2 ^ k = x * 2 ^ s"
    unfolding xs by simp
  then have "round_units (x * 2 ^ 1074) = of_int (rne (x * 2 ^ s)) * 2 ^ k"
    unfolding round_units_def e by simp
  moreover have "fl x = round_units (x * 2 ^ 1074) / (2 ^ s * 2 ^ k)"
    using xpos unfolding fl_def p by simp
  ultimately show ?thesis
    by simp
qed

text \<open>A number is rounded to the nearest one that is representable.\<close>

lemma rne_near:
  assumes "\<bar>y - of_int n\<bar> < 1 / 2"
  shows "rne y = n"
proof -
  have "of_int n \<le> y \<Longrightarrow> \<lfloor>y\<rfloor> = n" "y < of_int n \<Longrightarrow> \<lfloor>y\<rfloor> = n - 1"
    using assms by (simp_all add: floor_eq_iff)
  then show ?thesis
    using assms by (cases "of_int n \<le> y") (auto simp: rne_def Let_def)
qed

lemma fl_near:
  assumes "s \<le> 1074" "2 ^ 52 \<le> x * 2 ^ s" "x * 2 ^ s < 2 ^ 53" "\<bar>x * 2 ^ s - of_int n\<bar> < 1 / 2"
  shows "fl x = of_int n / 2 ^ s"
  using fl_eval [OF assms(1-3)] by (simp only: rne_near [OF assms(4)])

text \<open>A number with few bits is its own rounding.\<close>

lemma fl_exact:
  assumes "s \<le> 1074" "2 ^ 52 \<le> x * 2 ^ s" "x * 2 ^ s < 2 ^ 53" "x * 2 ^ s = of_int n"
  shows "fl x = x"
proof -
  have "fl x = of_int n / 2 ^ s"
    using fl_eval [OF assms(1-3)] by (simp only: assms(4) rne_of_int)
  also have "\<dots> = x"
    by (simp flip: assms(4))
  finally show ?thesis .
qed

text \<open>So is every integer of at most 53 bits, divided by a power of two.\<close>

lemma round_units_exact:
  assumes "0 \<le> n" "n < 2 ^ 53"
  shows "round_units (of_int n * 2 ^ j) = of_int n * 2 ^ j"
proof -
  let ?y = "of_int n * 2 ^ j :: rat"
  define e where "e = excess_bits ?y"
  have "nat \<lfloor>?y\<rfloor> < 2 ^ (53 + j)"
  proof -
    have "\<lfloor>?y\<rfloor> = n * 2 ^ j"
      by (metis floor_of_int of_int_mult of_int_numeral of_int_power)
    moreover have "n * 2 ^ j < 2 ^ 53 * 2 ^ j"
      using assms by simp
    ultimately show ?thesis
      using assms by (simp add: nat_less_iff power_add)
  qed
  then have ej: "e \<le> j"
    unfolding e_def excess_bits_def
    using floorlog_leI [of "nat \<lfloor>?y\<rfloor>" 2 "53 + j"] by simp
  have pj: "(2::rat) ^ j = 2 ^ (j - e) * 2 ^ e"
    using ej by (simp flip: power_add)
  have "?y / 2 ^ e = of_int (n * 2 ^ (j - e))"
    unfolding pj by simp
  then have "round_units ?y = of_int (n * 2 ^ (j - e)) * 2 ^ e"
    unfolding round_units_def e_def [symmetric] by (simp only: rne_of_int)
  also have "\<dots> = ?y"
    unfolding pj by simp
  finally show ?thesis .
qed

lemma fl_dyadic:
  assumes "0 \<le> n" "n < 2 ^ 53" "k \<le> 1074"
  shows "fl (of_int n / 2 ^ k) = of_int n / 2 ^ k"
proof -
  have p: "(2::rat) ^ 1074 = 2 ^ k * 2 ^ (1074 - k)"
    using assms(3) by (simp flip: power_add)
  have "of_int n / 2 ^ k * (2::rat) ^ 1074 = of_int n * 2 ^ (1074 - k)"
    unfolding p by simp
  moreover have "\<not> of_int n / 2 ^ k < (0::rat)"
    using assms(1) by (simp add: not_less)
  ultimately have "fl (of_int n / 2 ^ k) = of_int n * 2 ^ (1074 - k) / 2 ^ 1074"
    by (simp only: fl_def if_not_P not_False_eq_True round_units_exact [OF assms(1,2)] if_False)
  also have "\<dots> = of_int n / 2 ^ k"
    unfolding p by simp
  finally show ?thesis .
qed

lemma fl_nat: "0 \<le> n \<Longrightarrow> n < 2 ^ 53 \<Longrightarrow> fl (of_int n) = of_int n"
  using fl_dyadic [of n 0] by simp

section \<open>Conversions to integer types\<close>

text \<open>\<open>lround\<close>: to the nearest integer, halves away from zero.\<close>

definition round_half_away :: "double \<Rightarrow> int" where
  "round_half_away x = (if 0 \<le> x then \<lfloor>x + 1 / 2\<rfloor> else - \<lfloor>- x + 1 / 2\<rfloor>)"

definition long_range :: "int \<Rightarrow> bool" where
  "long_range n \<longleftrightarrow> - (2 ^ 63) \<le> n \<and> n < 2 ^ 63"

text \<open>
  \<open>(int) lround(x)\<close>. The rounded value goes through a 64-bit \<open>long\<close> (\<open>oor\<close> gives what the
  platform returns where C leaves the result unspecified), then the conversion to \<open>int\<close> wraps.
\<close>

definition int_lround :: "(double \<Rightarrow> int) \<Rightarrow> double \<Rightarrow> int" where
  "int_lround oor x = (let n = round_half_away x in int32 (if long_range n then n else oor x))"

text \<open>\<open>(int) x\<close>: truncation towards zero; out of range it is undefined, again \<open>oor\<close>.\<close>

definition int_trunc :: "(double \<Rightarrow> int) \<Rightarrow> double \<Rightarrow> int" where
  "int_trunc oor x = (let n = (if 0 \<le> x then \<lfloor>x\<rfloor> else - \<lfloor>- x\<rfloor>) in
     if int_range n then n else int32 (oor x))"

lemma round_half_away_mono: "x \<le> y \<Longrightarrow> round_half_away x \<le> round_half_away y"
proof (cases "0 \<le> x"; cases "0 \<le> y")
  assume "x \<le> y" "\<not> 0 \<le> x" "0 \<le> y"
  then have "0 \<le> \<lfloor>- x + 1 / 2\<rfloor>" "0 \<le> \<lfloor>y + 1 / 2\<rfloor>" by simp_all
  then have "- \<lfloor>- x + 1 / 2\<rfloor> \<le> \<lfloor>y + 1 / 2\<rfloor>" by linarith
  then show ?thesis using \<open>\<not> 0 \<le> x\<close> \<open>0 \<le> y\<close> by (simp add: round_half_away_def)
qed (simp_all add: round_half_away_def floor_mono)

lemma round_half_away_nonneg: "0 \<le> x \<Longrightarrow> 0 \<le> round_half_away x"
  by (simp add: round_half_away_def)

lemma round_half_away_of_int [simp]: "round_half_away (of_int n) = n"
  by (simp add: round_half_away_def floor_unique)

lemma round_half_away_le: "x \<le> of_int n \<Longrightarrow> round_half_away x \<le> n"
  using round_half_away_mono [of x "of_int n"] by simp

lemma int_range_long_range: "int_range n \<Longrightarrow> long_range n"
  by (simp add: int_range_def long_range_def)

lemma int_lround_small: "int_range (round_half_away x) \<Longrightarrow> int_lround oor x = round_half_away x"
  by (simp add: int_lround_def Let_def int_range_long_range)

lemma int_lround_range [simp]: "int_range (int_lround oor x)"
  by (simp add: int_lround_def Let_def)

lemma int_trunc_range [simp]: "int_range (int_trunc oor x)"
  by (simp add: int_trunc_def Let_def)

end
