(* ===== verification/Service_World.thy ===== *)
theory Service_World
  imports C_Double Print_Prelude
begin

text \<open>
  What lies outside the repository: luna-service2 and pbnjson, POSIX files, GLib's key files
  and timers, and libcups. The service talks to them by calls, and every call is recorded as
  an event; the world is the list of the calls made so far, oldest first. What a call answers
  is up to the environment \<open>'k env\<close>, a record of functions the model is parametrised with: an
  answer may depend on everything that happened before and on the arguments, and no more is
  assumed of it than a theorem states as a hypothesis. \<open>'k\<close> is the type of GLib's in-memory
  key file. GLib's value functions (lists, string duplication, splitting at commas) are used
  with their documented meaning.
\<close>

section \<open>JSON values and bus messages\<close>

text \<open>
  A number read from a message is \<open>JNum i d\<close>: what \<open>jnumber_get_i32\<close> and \<open>jnumber_get_f64\<close>
  make of it, \<open>None\<close> where the conversion does not return CONV_OK. Numbers the service creates
  are \<open>JInt\<close> and \<open>JDouble\<close>.
\<close>

datatype json =
    JNull
  | JBool bool
  | JNum "int option" "double option"
  | JInt int
  | JDouble double
  | JStr string
  | JArr "json list"
  | JObj "(string \<times> json) list"

fun jobject_get_exists :: "json \<Rightarrow> string \<Rightarrow> json option" where
  "jobject_get_exists (JObj kvs) key = map_of kvs key"
| "jobject_get_exists _ key = None"

fun jis_null :: "json \<Rightarrow> bool" where
  "jis_null JNull = True"
| "jis_null _ = False"

fun jnumber_get_i32 :: "json \<Rightarrow> int option" where
  "jnumber_get_i32 (JNum i d) = i"
| "jnumber_get_i32 (JInt i) = Some i"
| "jnumber_get_i32 _ = None"

fun jnumber_get_f64 :: "json \<Rightarrow> double option" where
  "jnumber_get_f64 (JNum i d) = d"
| "jnumber_get_f64 (JInt i) = Some (of_int i)"
| "jnumber_get_f64 (JDouble d) = Some d"
| "jnumber_get_f64 _ = None"

text \<open>A C string ends at the first NUL, whatever the length of the buffer it lies in.\<close>

definition c_string :: "string \<Rightarrow> string" where
  "c_string s = takeWhile (\<lambda>c. c \<noteq> CHR 0x00) s"

text \<open>The two names on the bus: com.palm.printmgr and org.webosports.service.print.\<close>

datatype bus = Bus_legacy | Bus_ports

record lsmessage =
  msg_payload :: string
  msg_is_subscription :: bool

section \<open>CUPS data\<close>

record cups_dest =
  dest_name :: string
  dest_options :: "(string \<times> string) list"

text \<open>libcups looks an option up without regard to the case of ASCII letters.\<close>

definition ascii_lower :: "string \<Rightarrow> string" where
  "ascii_lower s = map (\<lambda>c. if CHR ''A'' \<le> c \<and> c \<le> CHR ''Z'' then char_of (of_char c + 32 :: nat) else c) s"

definition cupsGetOption :: "string \<Rightarrow> cups_dest \<Rightarrow> string option" where
  "cupsGetOption name d =
     map_option snd (find (\<lambda>opt. ascii_lower (fst opt) = ascii_lower name) (dest_options d))"

record cups_job =
  cj_id :: int
  cj_dest :: "string option"
  cj_title :: "string option"
  cj_state :: int

text \<open>One value of an IPP attribute, as its three readers see it.\<close>

record ipp_value =
  ipp_string :: "string option"
  ipp_integer :: int
  ipp_xres :: int
  ipp_res_per_inch :: bool

datatype ipp_op = CUPS_Add_Modify_Printer | CUPS_Delete_Printer

section \<open>Open files\<close>

text \<open>
  A file that was opened for reading: its bytes, and the offset from which on reading it fails, if
  it does. \<open>fread\<close> delivers what there is before the end or the error, so that its result is short
  in either case; only \<open>ferror\<close>, which the code never calls, could tell them apart. A call that is
  repeated after an error meets the error again.
\<close>

record open_file =
  file_bytes :: string
  file_error :: "nat option"

definition readable :: "open_file \<Rightarrow> string" where
  "readable fp = (case file_error fp of None \<Rightarrow> file_bytes fp | Some n \<Rightarrow> take n (file_bytes fp))"

definition fread :: "open_file \<Rightarrow> nat \<Rightarrow> nat \<Rightarrow> string" where
  "fread fp pos n = take n (drop pos (readable fp))"

section \<open>Calls\<close>

datatype setup_call =
    LSRegister string
  | LSGmainAttach bus
  | LSRegisterCategory bus string
  | LSCategorySetData bus string
  | LSUnregister bus

datatype io =
    Reply bus lsmessage json
  | Post bus string string json
  | Subscribe bus lsmessage
  | Setup setup_call
  | Clock
  | Timer_add nat
  | Source_remove nat
  | Mkdir string
  | Create string
  | Ftruncate string int
  | Truncate string int
  | Unlink string
  | Rmdir string
  | Stat string
  | Open_read string
  | Keyfile_load string
  | Keyfile_save string
  | Cups_get_dests
  | Cups_get_named_dest string
  | Cups_connect_dest string
  | Cups_copy_dest_info string bool
  | Cups_find_supported string bool string
  | Cups_check_supported string bool string string
  | Http_close string
  | Cups_create_job string string "(string \<times> string) list"
  | Cups_start_document string int string string bool
  | Cups_write_data string
  | Cups_finish_document string
  | Cups_cancel_job string int
  | Cups_get_jobs "string option" bool
  | Cups_do_request ipp_op string "(string \<times> string) list"

type_synonym world = "io list"

record 'k env =
  g_utf8_validate :: "string \<Rightarrow> bool"
  kf_has_group :: "'k \<Rightarrow> string \<Rightarrow> bool"
  kf_get_groups :: "'k \<Rightarrow> string list"
  kf_get_string :: "'k \<Rightarrow> string \<Rightarrow> string \<Rightarrow> string option"
  kf_set_string :: "'k \<Rightarrow> string \<Rightarrow> string \<Rightarrow> string \<Rightarrow> 'k"
  kf_remove_group :: "'k \<Rightarrow> string \<Rightarrow> 'k option"
  kf_remove_key :: "'k \<Rightarrow> string \<Rightarrow> string \<Rightarrow> 'k"
  kf_load :: "world \<Rightarrow> string \<Rightarrow> 'k"
  kf_save :: "world \<Rightarrow> 'k \<Rightarrow> string \<Rightarrow> bool"
  hash_order :: "int list \<Rightarrow> int list"
  path_dirname :: "string \<Rightarrow> string"
  is_ip_address :: "string \<Rightarrow> bool"
  monotonic_time :: "world \<Rightarrow> int"
  timeout_add :: "world \<Rightarrow> nat"
  oor :: "double \<Rightarrow> int"
  os_mkdir :: "world \<Rightarrow> string \<Rightarrow> bool"
  os_create :: "world \<Rightarrow> string \<Rightarrow> bool"
  os_ftruncate :: "world \<Rightarrow> string \<Rightarrow> int \<Rightarrow> bool"
  os_truncate :: "world \<Rightarrow> string \<Rightarrow> int \<Rightarrow> bool"
  os_stat :: "world \<Rightarrow> string \<Rightarrow> int option"
  os_open_read :: "world \<Rightarrow> string \<Rightarrow> open_file option"
  jdom_parse :: "string \<Rightarrow> json"
  jschema_ok :: bool
  ls_reply_ok :: "world \<Rightarrow> bool"
  ls_subscribed :: "world \<Rightarrow> bus \<Rightarrow> lsmessage \<Rightarrow> bool"
  ls_setup_ok :: "world \<Rightarrow> setup_call \<Rightarrow> bool"
  cups_get_dests :: "world \<Rightarrow> cups_dest list"
  cups_get_named_dest :: "world \<Rightarrow> string \<Rightarrow> cups_dest option"
  http_separate_host :: "string \<Rightarrow> string option"
  cups_connect_dest :: "world \<Rightarrow> string \<Rightarrow> bool"
  cups_copy_dest_info :: "world \<Rightarrow> string \<Rightarrow> bool \<Rightarrow> bool"
  cups_find_supported :: "world \<Rightarrow> string \<Rightarrow> bool \<Rightarrow> string \<Rightarrow> ipp_value list option"
  cups_check_supported :: "world \<Rightarrow> string \<Rightarrow> bool \<Rightarrow> string \<Rightarrow> string \<Rightarrow> bool"
  cups_create_job :: "world \<Rightarrow> string \<Rightarrow> string \<Rightarrow> (string \<times> string) list \<Rightarrow> int"
  cups_start_document :: "world \<Rightarrow> string \<Rightarrow> int \<Rightarrow> string \<Rightarrow> string \<Rightarrow> bool \<Rightarrow> bool"
  cups_write_data :: "world \<Rightarrow> string \<Rightarrow> bool"
  cups_finish_document :: "world \<Rightarrow> string \<Rightarrow> bool"
  cups_last_error :: "world \<Rightarrow> int"
  cups_cancel_job :: "world \<Rightarrow> string \<Rightarrow> int \<Rightarrow> bool"
  cups_get_jobs :: "world \<Rightarrow> string option \<Rightarrow> bool \<Rightarrow> cups_job list"
  cups_do_request :: "world \<Rightarrow> ipp_op \<Rightarrow> string \<Rightarrow> (string \<times> string) list \<Rightarrow> bool"

section \<open>Histories\<close>

definition is_reply :: "io \<Rightarrow> bool" where
  "is_reply e = (case e of Reply _ _ _ \<Rightarrow> True | _ \<Rightarrow> False)"

definition is_post :: "io \<Rightarrow> bool" where
  "is_post e = (case e of Post _ _ _ _ \<Rightarrow> True | _ \<Rightarrow> False)"

definition quiet :: "io \<Rightarrow> bool" where
  "quiet e \<longleftrightarrow> \<not> is_reply e \<and> \<not> is_post e"

lemma event_kinds [simp]:
  "is_reply (Reply h m j)" "\<not> is_post (Reply h m j)" "\<not> quiet (Reply h m j)"
  "is_post (Post h c n j)" "\<not> is_reply (Post h c n j)" "\<not> quiet (Post h c n j)"
  by (simp_all add: is_reply_def is_post_def quiet_def)

lemma quiet_kinds: "quiet e \<Longrightarrow> \<not> is_reply e" "quiet e \<Longrightarrow> \<not> is_post e"
  by (simp_all add: quiet_def)

lemma quiet_events [simp]:
  "quiet (Subscribe h m)" "quiet (Setup c)" "quiet Clock" "quiet (Timer_add n)"
  "quiet (Source_remove n)" "quiet (Mkdir p)" "quiet (Create p)" "quiet (Ftruncate p i)"
  "quiet (Truncate p i)" "quiet (Unlink p)" "quiet (Rmdir p)" "quiet (Stat p)"
  "quiet (Open_read p)" "quiet (Keyfile_load p)" "quiet (Keyfile_save p)" "quiet Cups_get_dests"
  "quiet (Cups_get_named_dest p)" "quiet (Cups_connect_dest p)" "quiet (Cups_copy_dest_info p b)"
  "quiet (Cups_find_supported p b a)" "quiet (Cups_check_supported p b a v)" "quiet (Http_close p)"
  "quiet (Cups_create_job p t os)" "quiet (Cups_start_document p i d f l)"
  "quiet (Cups_write_data d)" "quiet (Cups_finish_document p)" "quiet (Cups_cancel_job p i)"
  "quiet (Cups_get_jobs q b)" "quiet (Cups_do_request opn p os)"
  by (simp_all add: quiet_def is_reply_def is_post_def)

text \<open>\<open>extends P w v\<close>: from \<open>w\<close> to \<open>v\<close> only events satisfying \<open>P\<close> have been added.\<close>

definition extends :: "(io \<Rightarrow> bool) \<Rightarrow> world \<Rightarrow> world \<Rightarrow> bool" where
  "extends P w v \<longleftrightarrow> (\<exists>es. v = w @ es \<and> list_all P es)"

lemma extends_refl [simp]: "extends P w w"
  by (simp add: extends_def)

lemma extends_trans [trans]: "extends P u v \<Longrightarrow> extends P v w \<Longrightarrow> extends P u w"
  by (fastforce simp: extends_def)

lemma extends_append: "extends P u v \<Longrightarrow> list_all P es \<Longrightarrow> extends P u (v @ es)"
  by (fastforce simp: extends_def)

lemma extends_snoc [simp]: "P e \<Longrightarrow> extends P w (w @ [e])"
  by (simp add: extends_def)

lemma extends_step: "extends P (w @ [e]) v \<Longrightarrow> P e \<Longrightarrow> extends P w v"
  by (auto simp: extends_def)

lemma extends_mono: "extends P u v \<Longrightarrow> (\<And>e. P e \<Longrightarrow> Q e) \<Longrightarrow> extends Q u v"
  by (force simp: extends_def list_all_iff)

text \<open>The replies and the subscription posts of a history.\<close>

definition replies :: "world \<Rightarrow> io list" where
  "replies w = filter is_reply w"

definition posts :: "world \<Rightarrow> io list" where
  "posts w = filter is_post w"

lemma replies_append [simp]: "replies (u @ v) = replies u @ replies v"
  by (simp add: replies_def)

lemma posts_append [simp]: "posts (u @ v) = posts u @ posts v"
  by (simp add: posts_def)

lemma replies_single [simp]: "replies [e] = (if is_reply e then [e] else [])"
  by (simp add: replies_def)

lemma posts_single [simp]: "posts [e] = (if is_post e then [e] else [])"
  by (simp add: posts_def)

lemma quiet_replies: "extends quiet w v \<Longrightarrow> replies v = replies w"
  by (auto simp: extends_def replies_def list_all_iff quiet_def filter_empty_conv)

lemma quiet_posts: "extends quiet w v \<Longrightarrow> posts v = posts w"
  by (auto simp: extends_def posts_def list_all_iff quiet_def filter_empty_conv)

end
