(* ===== verification/Print_Errors.thy ===== *)
theory Print_Errors
  imports Print_Prelude
begin

text \<open>
  Model of \<open>src/print_errors.h\<close> and \<open>src/print_errors.c\<close>: the numeric error codes clients
  switch on, the table of their texts and the scan that reads it.
\<close>

section \<open>The codes\<close>

abbreviation PM_ERR_PRINTER_UNKNOWN_ID :: int where "PM_ERR_PRINTER_UNKNOWN_ID \<equiv> -202"
abbreviation PM_ERR_PRINTER_NO_RESPONSE_MANUAL :: int where "PM_ERR_PRINTER_NO_RESPONSE_MANUAL \<equiv> -203"
abbreviation PM_ERR_PRINTER_DUPLICATE_ID :: int where "PM_ERR_PRINTER_DUPLICATE_ID \<equiv> -204"
abbreviation PM_ERR_PRINTER_DUPLICATE_IP :: int where "PM_ERR_PRINTER_DUPLICATE_IP \<equiv> -205"
abbreviation PM_ERR_PRINTER_IP_NOT_VALID :: int where "PM_ERR_PRINTER_IP_NOT_VALID \<equiv> -206"
abbreviation PM_ERR_JOB_TEMP_FILE_NO_ROOM :: int where "PM_ERR_JOB_TEMP_FILE_NO_ROOM \<equiv> -233"
abbreviation PM_ERR_PRINTER_NOT_SUPPORTED :: int where "PM_ERR_PRINTER_NOT_SUPPORTED \<equiv> -238"
abbreviation PM_ERR_JOB_NO_JOB_HANDLES :: int where "PM_ERR_JOB_NO_JOB_HANDLES \<equiv> -243"
abbreviation PM_ERR_PRINTER_DUPLICATE_IP_ZERO :: int where "PM_ERR_PRINTER_DUPLICATE_IP_ZERO \<equiv> -245"
abbreviation PM_ERR_NO_WIFI_CONNECTION :: int where "PM_ERR_NO_WIFI_CONNECTION \<equiv> -298"
abbreviation PM_ERR_JOB_UNKNOWN :: int where "PM_ERR_JOB_UNKNOWN \<equiv> -299"
abbreviation PM_ERR_COMM_FAILED :: int where "PM_ERR_COMM_FAILED \<equiv> -401"
abbreviation PM_ERR_COMM_GET_CAPS_FAILED :: int where "PM_ERR_COMM_GET_CAPS_FAILED \<equiv> -402"
abbreviation PM_ERR_COMM_NO_RESPONSE :: int where "PM_ERR_COMM_NO_RESPONSE \<equiv> -403"
abbreviation PM_ERR_COMM_ADDRESS_INVALID :: int where "PM_ERR_COMM_ADDRESS_INVALID \<equiv> -404"
abbreviation PM_ERR_COMM_NO_PING_RESPONSE :: int where "PM_ERR_COMM_NO_PING_RESPONSE \<equiv> -405"
abbreviation PM_ERR_COMM_ADDRESS_UNKNOWN :: int where "PM_ERR_COMM_ADDRESS_UNKNOWN \<equiv> -406"
abbreviation PM_ERR_JOB_ALREADY_CLOSED :: int where "PM_ERR_JOB_ALREADY_CLOSED \<equiv> -501"
abbreviation PM_ERR_JOB_CANCEL_REQUESTED :: int where "PM_ERR_JOB_CANCEL_REQUESTED \<equiv> -502"
abbreviation PM_ERR_SET_CURRENT_PRINTER_FAILED :: int where "PM_ERR_SET_CURRENT_PRINTER_FAILED \<equiv> -503"
abbreviation PM_ERR_FILE_ZERO_LENGTH :: int where "PM_ERR_FILE_ZERO_LENGTH \<equiv> -601"
abbreviation PM_ERR_INSETS_WITH_BORDERLESS :: int where "PM_ERR_INSETS_WITH_BORDERLESS \<equiv> -602"
abbreviation PM_ERR_EMPTY_FILE_EXTENSION :: int where "PM_ERR_EMPTY_FILE_EXTENSION \<equiv> -603"
abbreviation PM_ERR_FILE_DOES_NOT_EXIST :: int where "PM_ERR_FILE_DOES_NOT_EXIST \<equiv> -604"
abbreviation PM_ERR_BAD_COLOR :: int where "PM_ERR_BAD_COLOR \<equiv> -605"
abbreviation PM_ERR_BAD_DRYTIME :: int where "PM_ERR_BAD_DRYTIME \<equiv> -606"
abbreviation PM_ERR_BAD_DUPLEX :: int where "PM_ERR_BAD_DUPLEX \<equiv> -607"
abbreviation PM_ERR_BAD_MEDIA_SIZE :: int where "PM_ERR_BAD_MEDIA_SIZE \<equiv> -608"
abbreviation PM_ERR_BAD_MEDIA_TYPE :: int where "PM_ERR_BAD_MEDIA_TYPE \<equiv> -609"
abbreviation PM_ERR_BAD_PARAM_SYNTAX :: int where "PM_ERR_BAD_PARAM_SYNTAX \<equiv> -610"
abbreviation PM_ERR_BAD_PRINT_QUALITY :: int where "PM_ERR_BAD_PRINT_QUALITY \<equiv> -611"
abbreviation PM_ERR_BAD_TRAY :: int where "PM_ERR_BAD_TRAY \<equiv> -612"
abbreviation PM_ERR_INSET_OUTSIDE_AREA :: int where "PM_ERR_INSET_OUTSIDE_AREA \<equiv> -613"
abbreviation PM_ERR_NO_FILES_TO_PRINT :: int where "PM_ERR_NO_FILES_TO_PRINT \<equiv> -614"
abbreviation PM_ERR_OUT_OF_ORDER_CURRENTPAGE :: int where "PM_ERR_OUT_OF_ORDER_CURRENTPAGE \<equiv> -615"
abbreviation PM_ERR_TEMP_FILE_TOO_LARGE :: int where "PM_ERR_TEMP_FILE_TOO_LARGE \<equiv> -616"
abbreviation PM_ERR_UNKNOWN_JOB_ID :: int where "PM_ERR_UNKNOWN_JOB_ID \<equiv> -617"
abbreviation PM_ERR_UNSUPPORTED_MIME_TYPE :: int where "PM_ERR_UNSUPPORTED_MIME_TYPE \<equiv> -618"
abbreviation PM_ERR_UNSUPPORTED_PORT :: int where "PM_ERR_UNSUPPORTED_PORT \<equiv> -619"
abbreviation PM_ERR_FILE_NOT_IN_ANY_JOB :: int where "PM_ERR_FILE_NOT_IN_ANY_JOB \<equiv> -620"
abbreviation PM_ERR_FILECACHE_BAD_REPLY :: int where "PM_ERR_FILECACHE_BAD_REPLY \<equiv> -701"
abbreviation PM_ERR_PRINTER_DB_ACCESS :: int where "PM_ERR_PRINTER_DB_ACCESS \<equiv> -702"
abbreviation PM_ERR_JOB_ADD_PAGE_FAILED :: int where "PM_ERR_JOB_ADD_PAGE_FAILED \<equiv> -703"
abbreviation PM_ERR_JOB_GET_FINAL_PARAMS_FAILED :: int where "PM_ERR_JOB_GET_FINAL_PARAMS_FAILED \<equiv> -704"
abbreviation PM_ERR_NO_FILECACHE_PATH :: int where "PM_ERR_NO_FILECACHE_PATH \<equiv> -705"
abbreviation PM_ERR_NO_SUITABLE_PLUGIN :: int where "PM_ERR_NO_SUITABLE_PLUGIN \<equiv> -706"
abbreviation PM_ERR_SUBSCRIPTION_FAILED :: int where "PM_ERR_SUBSCRIPTION_FAILED \<equiv> -707"
abbreviation PM_ERR_JOB_ADD_FAILED :: int where "PM_ERR_JOB_ADD_FAILED \<equiv> -708"
abbreviation PM_ERR_JOB_CANCEL_FAILED :: int where "PM_ERR_JOB_CANCEL_FAILED \<equiv> -709"
abbreviation PM_ERR_JOB_FLAG_LAST_PAGE_FAILED :: int where "PM_ERR_JOB_FLAG_LAST_PAGE_FAILED \<equiv> -710"
abbreviation PM_ERR_JOB_START_FAILED :: int where "PM_ERR_JOB_START_FAILED \<equiv> -711"

section \<open>The texts\<close>

definition error_texts :: "(int \<times> string) list" where
  "error_texts =
    [(PM_ERR_PRINTER_UNKNOWN_ID, ''user_system: unknown printer ID - may no longer be on access point''),
     (PM_ERR_PRINTER_NO_RESPONSE_MANUAL, ''user: no reponse from manually added printer (IP may be incorrect or printer offline)''),
     (PM_ERR_PRINTER_DUPLICATE_ID, ''user: printer ID already exists''),
     (PM_ERR_PRINTER_DUPLICATE_IP, ''user: printer address already exists (manually added''),
     (PM_ERR_PRINTER_IP_NOT_VALID, ''user: not a valid IP address''),
     (PM_ERR_JOB_TEMP_FILE_NO_ROOM, ''recoverable: not enough room in file cache for temp file''),
     (PM_ERR_PRINTER_NOT_SUPPORTED, ''user: printer is not supported (no pcl3gui or pcl5)''),
     (PM_ERR_JOB_NO_JOB_HANDLES, ''recoverable: no job handles''),
     (PM_ERR_PRINTER_DUPLICATE_IP_ZERO, ''user: printer address already exists (zeroconf added)''),
     (PM_ERR_NO_WIFI_CONNECTION, ''user: no Wi-Fi connection''),
     (PM_ERR_JOB_UNKNOWN, ''unknown: unknown job error''),
     (PM_ERR_COMM_FAILED, ''communication: could not communicate with printer''),
     (PM_ERR_COMM_GET_CAPS_FAILED, ''communication: failed to get printer capabilities''),
     (PM_ERR_COMM_NO_RESPONSE, ''communication: no reponse from printer''),
     (PM_ERR_COMM_ADDRESS_INVALID, ''communication: printer address no longer valid can't access''),
     (PM_ERR_COMM_NO_PING_RESPONSE, ''communication: no response to ping before getting printer capabilities''),
     (PM_ERR_COMM_ADDRESS_UNKNOWN, ''communication: printer address is unknown''),
     (PM_ERR_JOB_ALREADY_CLOSED, ''info: action invalid, job already closed''),
     (PM_ERR_JOB_CANCEL_REQUESTED, ''info: cancel requested for job''),
     (PM_ERR_SET_CURRENT_PRINTER_FAILED, ''info: set currentPrinter failed''),
     (PM_ERR_FILE_ZERO_LENGTH, ''programming: 0 length file''),
     (PM_ERR_INSETS_WITH_BORDERLESS, ''programming: can't set insets with borderless''),
     (PM_ERR_EMPTY_FILE_EXTENSION, ''programming: empty file extension''),
     (PM_ERR_FILE_DOES_NOT_EXIST, ''programming: file does not exist''),
     (PM_ERR_BAD_COLOR, ''programming: incorrect color''),
     (PM_ERR_BAD_DRYTIME, ''programming: incorrect drytime''),
     (PM_ERR_BAD_DUPLEX, ''programming: incorrect duplex''),
     (PM_ERR_BAD_MEDIA_SIZE, ''programming: incorrect mediaSize''),
     (PM_ERR_BAD_MEDIA_TYPE, ''programming: incorrect mediaType''),
     (PM_ERR_BAD_PARAM_SYNTAX, ''programming: incorrect parameter syntax''),
     (PM_ERR_BAD_PRINT_QUALITY, ''programming: incorrect printQuality''),
     (PM_ERR_BAD_TRAY, ''programming: incorrect tray''),
     (PM_ERR_INSET_OUTSIDE_AREA, ''programming: inset outside printable area''),
     (PM_ERR_NO_FILES_TO_PRINT, ''programming: no files to print''),
     (PM_ERR_OUT_OF_ORDER_CURRENTPAGE, ''programming: out of order currentpage''),
     (PM_ERR_TEMP_FILE_TOO_LARGE, ''programming: temp file larger than specified''),
     (PM_ERR_UNKNOWN_JOB_ID, ''programming: unknown job ID''),
     (PM_ERR_UNSUPPORTED_MIME_TYPE, ''programming: unsupported or null mime type''),
     (PM_ERR_UNSUPPORTED_PORT, ''programming: unsupported port''),
     (PM_ERR_FILE_NOT_IN_ANY_JOB, ''programming: file not found in any job''),
     (PM_ERR_FILECACHE_BAD_REPLY, ''system: bad reply from file cache''),
     (PM_ERR_PRINTER_DB_ACCESS, ''system: can't access AddPrinter Database''),
     (PM_ERR_JOB_ADD_PAGE_FAILED, ''system: could not add page''),
     (PM_ERR_JOB_GET_FINAL_PARAMS_FAILED, ''system: could not get final job params''),
     (PM_ERR_NO_FILECACHE_PATH, ''system: no path to file cache''),
     (PM_ERR_NO_SUITABLE_PLUGIN, ''system:no suitable plugin''),
     (PM_ERR_SUBSCRIPTION_FAILED, ''system: subscription-set-cancel failed''),
     (PM_ERR_JOB_ADD_FAILED, ''system: unable to add job''),
     (PM_ERR_JOB_CANCEL_FAILED, ''info: unable to cancel''),
     (PM_ERR_JOB_FLAG_LAST_PAGE_FAILED, ''system:unable to flag last page''),
     (PM_ERR_JOB_START_FAILED, ''system: unable to start job'')]"

fun scan_texts :: "(int \<times> string) list \<Rightarrow> int \<Rightarrow> string" where
  "scan_texts [] code = ''unknown: unknown job error''"
| "scan_texts ((c, t) # es) code = (if c = code then t else scan_texts es code)"

definition pm_error_text :: "int \<Rightarrow> string" where
  "pm_error_text code = scan_texts error_texts code"

section \<open>Facts about the table\<close>

lemma error_codes:
  "map fst error_texts =
    [PM_ERR_PRINTER_UNKNOWN_ID, PM_ERR_PRINTER_NO_RESPONSE_MANUAL,
     PM_ERR_PRINTER_DUPLICATE_ID, PM_ERR_PRINTER_DUPLICATE_IP,
     PM_ERR_PRINTER_IP_NOT_VALID, PM_ERR_JOB_TEMP_FILE_NO_ROOM,
     PM_ERR_PRINTER_NOT_SUPPORTED, PM_ERR_JOB_NO_JOB_HANDLES,
     PM_ERR_PRINTER_DUPLICATE_IP_ZERO, PM_ERR_NO_WIFI_CONNECTION,
     PM_ERR_JOB_UNKNOWN, PM_ERR_COMM_FAILED,
     PM_ERR_COMM_GET_CAPS_FAILED, PM_ERR_COMM_NO_RESPONSE,
     PM_ERR_COMM_ADDRESS_INVALID, PM_ERR_COMM_NO_PING_RESPONSE,
     PM_ERR_COMM_ADDRESS_UNKNOWN, PM_ERR_JOB_ALREADY_CLOSED,
     PM_ERR_JOB_CANCEL_REQUESTED, PM_ERR_SET_CURRENT_PRINTER_FAILED,
     PM_ERR_FILE_ZERO_LENGTH, PM_ERR_INSETS_WITH_BORDERLESS,
     PM_ERR_EMPTY_FILE_EXTENSION, PM_ERR_FILE_DOES_NOT_EXIST,
     PM_ERR_BAD_COLOR, PM_ERR_BAD_DRYTIME,
     PM_ERR_BAD_DUPLEX, PM_ERR_BAD_MEDIA_SIZE,
     PM_ERR_BAD_MEDIA_TYPE, PM_ERR_BAD_PARAM_SYNTAX,
     PM_ERR_BAD_PRINT_QUALITY, PM_ERR_BAD_TRAY,
     PM_ERR_INSET_OUTSIDE_AREA, PM_ERR_NO_FILES_TO_PRINT,
     PM_ERR_OUT_OF_ORDER_CURRENTPAGE, PM_ERR_TEMP_FILE_TOO_LARGE,
     PM_ERR_UNKNOWN_JOB_ID, PM_ERR_UNSUPPORTED_MIME_TYPE,
     PM_ERR_UNSUPPORTED_PORT, PM_ERR_FILE_NOT_IN_ANY_JOB,
     PM_ERR_FILECACHE_BAD_REPLY, PM_ERR_PRINTER_DB_ACCESS,
     PM_ERR_JOB_ADD_PAGE_FAILED, PM_ERR_JOB_GET_FINAL_PARAMS_FAILED,
     PM_ERR_NO_FILECACHE_PATH, PM_ERR_NO_SUITABLE_PLUGIN,
     PM_ERR_SUBSCRIPTION_FAILED, PM_ERR_JOB_ADD_FAILED,
     PM_ERR_JOB_CANCEL_FAILED, PM_ERR_JOB_FLAG_LAST_PAGE_FAILED,
     PM_ERR_JOB_START_FAILED]"
  by (simp add: error_texts_def)

lemma error_codes_distinct: "distinct (map fst error_texts)"
  by (simp add: error_codes)

lemma scan_texts_mem:
  "distinct (map fst es) \<Longrightarrow> (c, t) \<in> set es \<Longrightarrow> scan_texts es c = t"
  by (induction es) (auto, metis fst_conv image_eqI)

lemma scan_texts_other: "c \<notin> fst ` set es \<Longrightarrow> scan_texts es c = ''unknown: unknown job error''"
  by (induction es) auto

text \<open>The codes an error reply may carry: those the table has a text for.\<close>

definition known_error :: "int \<Rightarrow> bool" where
  "known_error c \<longleftrightarrow> c \<in> set (map fst error_texts)"

lemma known_errors [simp]:
  "known_error PM_ERR_PRINTER_UNKNOWN_ID"
  "known_error PM_ERR_PRINTER_NO_RESPONSE_MANUAL"
  "known_error PM_ERR_PRINTER_DUPLICATE_ID"
  "known_error PM_ERR_PRINTER_DUPLICATE_IP"
  "known_error PM_ERR_PRINTER_IP_NOT_VALID"
  "known_error PM_ERR_JOB_TEMP_FILE_NO_ROOM"
  "known_error PM_ERR_PRINTER_NOT_SUPPORTED"
  "known_error PM_ERR_JOB_NO_JOB_HANDLES"
  "known_error PM_ERR_PRINTER_DUPLICATE_IP_ZERO"
  "known_error PM_ERR_NO_WIFI_CONNECTION"
  "known_error PM_ERR_JOB_UNKNOWN"
  "known_error PM_ERR_COMM_FAILED"
  "known_error PM_ERR_COMM_GET_CAPS_FAILED"
  "known_error PM_ERR_COMM_NO_RESPONSE"
  "known_error PM_ERR_COMM_ADDRESS_INVALID"
  "known_error PM_ERR_COMM_NO_PING_RESPONSE"
  "known_error PM_ERR_COMM_ADDRESS_UNKNOWN"
  "known_error PM_ERR_JOB_ALREADY_CLOSED"
  "known_error PM_ERR_JOB_CANCEL_REQUESTED"
  "known_error PM_ERR_SET_CURRENT_PRINTER_FAILED"
  "known_error PM_ERR_FILE_ZERO_LENGTH"
  "known_error PM_ERR_INSETS_WITH_BORDERLESS"
  "known_error PM_ERR_EMPTY_FILE_EXTENSION"
  "known_error PM_ERR_FILE_DOES_NOT_EXIST"
  "known_error PM_ERR_BAD_COLOR"
  "known_error PM_ERR_BAD_DRYTIME"
  "known_error PM_ERR_BAD_DUPLEX"
  "known_error PM_ERR_BAD_MEDIA_SIZE"
  "known_error PM_ERR_BAD_MEDIA_TYPE"
  "known_error PM_ERR_BAD_PARAM_SYNTAX"
  "known_error PM_ERR_BAD_PRINT_QUALITY"
  "known_error PM_ERR_BAD_TRAY"
  "known_error PM_ERR_INSET_OUTSIDE_AREA"
  "known_error PM_ERR_NO_FILES_TO_PRINT"
  "known_error PM_ERR_OUT_OF_ORDER_CURRENTPAGE"
  "known_error PM_ERR_TEMP_FILE_TOO_LARGE"
  "known_error PM_ERR_UNKNOWN_JOB_ID"
  "known_error PM_ERR_UNSUPPORTED_MIME_TYPE"
  "known_error PM_ERR_UNSUPPORTED_PORT"
  "known_error PM_ERR_FILE_NOT_IN_ANY_JOB"
  "known_error PM_ERR_FILECACHE_BAD_REPLY"
  "known_error PM_ERR_PRINTER_DB_ACCESS"
  "known_error PM_ERR_JOB_ADD_PAGE_FAILED"
  "known_error PM_ERR_JOB_GET_FINAL_PARAMS_FAILED"
  "known_error PM_ERR_NO_FILECACHE_PATH"
  "known_error PM_ERR_NO_SUITABLE_PLUGIN"
  "known_error PM_ERR_SUBSCRIPTION_FAILED"
  "known_error PM_ERR_JOB_ADD_FAILED"
  "known_error PM_ERR_JOB_CANCEL_FAILED"
  "known_error PM_ERR_JOB_FLAG_LAST_PAGE_FAILED"
  "known_error PM_ERR_JOB_START_FAILED"
  by (simp_all only: known_error_def error_codes) simp_all

lemma known_error_negative: "known_error c \<Longrightarrow> c < 0"
  by (simp only: known_error_def error_codes) auto

section \<open>Properties\<close>

text \<open>
  Every error code has exactly one text, the one the table gives it; no two codes of the table
  are equal and all are negative, and any other code gets the text of an unknown job error.
\<close>

lemma error_text_exact:
  "(\<forall>(c, t) \<in> set error_texts. pm_error_text c = t \<and> c < 0 \<and> known_error c) \<and>
   distinct (map fst error_texts) \<and>
   (known_error c \<or> pm_error_text c = ''unknown: unknown job error'')"
proof (intro conjI)
  have "pm_error_text c = t \<and> c < 0 \<and> known_error c" if "(c, t) \<in> set error_texts" for c t
  proof -
    have "known_error c" using that by (force simp: known_error_def)
    then show ?thesis
      using scan_texts_mem [OF error_codes_distinct that] known_error_negative
      by (simp add: pm_error_text_def)
  qed
  then show "\<forall>(c, t) \<in> set error_texts. pm_error_text c = t \<and> c < 0 \<and> known_error c" by blast
  show "known_error c \<or> pm_error_text c = ''unknown: unknown job error''"
    using scan_texts_other [of c error_texts] by (auto simp: known_error_def pm_error_text_def)
qed (rule error_codes_distinct)

end
