(* ===== verification/Luna_Service_Utils.thy ===== *)
theory Luna_Service_Utils
  imports Service_World Print_Errors
begin

text \<open>
  Model of \<open>src/luna_service_utils.c\<close>: replies, subscription posts and the typed accessors of
  a parsed message. An out parameter that is only written on success is an option result. The
  schema \<open>{}\<close> is parsed anew for every message; \<open>jschema_ok\<close> says whether that works.
\<close>

section \<open>Replies\<close>

definition luna_service_message_reply_error_code ::
    "'k env \<Rightarrow> bus \<Rightarrow> lsmessage \<Rightarrow> int \<Rightarrow> world \<Rightarrow> world" where
  "luna_service_message_reply_error_code E handle message error_code w =
     (let reply_obj = JObj [(''returnValue'', JBool False),
                            (''errorCode'', JInt error_code),
                            (''errorText'', JStr (pm_error_text error_code))]
      in if jschema_ok E then w @ [Reply handle message reply_obj] else w)"

definition luna_service_message_reply_custom_error ::
    "'k env \<Rightarrow> bus \<Rightarrow> lsmessage \<Rightarrow> string \<Rightarrow> world \<Rightarrow> world" where
  "luna_service_message_reply_custom_error E handle message error_text w =
     (let reply_obj = JObj [(''returnValue'', JBool False), (''errorText'', JStr error_text)]
      in if jschema_ok E then w @ [Reply handle message reply_obj] else w)"

definition luna_service_message_reply_error_bad_json ::
    "'k env \<Rightarrow> bus \<Rightarrow> lsmessage \<Rightarrow> world \<Rightarrow> world" where
  "luna_service_message_reply_error_bad_json E handle message w =
     luna_service_message_reply_error_code E handle message PM_ERR_BAD_PARAM_SYNTAX w"

definition luna_service_message_reply_error_invalid_params ::
    "'k env \<Rightarrow> bus \<Rightarrow> lsmessage \<Rightarrow> world \<Rightarrow> world" where
  "luna_service_message_reply_error_invalid_params E handle message w =
     luna_service_message_reply_error_code E handle message PM_ERR_BAD_PARAM_SYNTAX w"

definition luna_service_message_reply_error_internal ::
    "'k env \<Rightarrow> bus \<Rightarrow> lsmessage \<Rightarrow> world \<Rightarrow> world" where
  "luna_service_message_reply_error_internal E handle message w =
     luna_service_message_reply_custom_error E handle message ''Internal error.'' w"

definition luna_service_message_reply_success ::
    "bus \<Rightarrow> lsmessage \<Rightarrow> world \<Rightarrow> world" where
  "luna_service_message_reply_success handle message w =
     w @ [Reply handle message (JObj [(''returnValue'', JBool True)])]"

definition luna_service_message_parse_and_validate :: "'k env \<Rightarrow> string \<Rightarrow> json option" where
  "luna_service_message_parse_and_validate E payload =
     (if \<not> jschema_ok E then None
      else let parsed_obj = jdom_parse E payload
           in if jis_null parsed_obj then None else Some parsed_obj)"

definition luna_service_message_validate_and_send ::
    "'k env \<Rightarrow> bus \<Rightarrow> lsmessage \<Rightarrow> json \<Rightarrow> world \<Rightarrow> bool \<times> world" where
  "luna_service_message_validate_and_send E handle message reply_obj w =
     (if \<not> jschema_ok E
      then (False, luna_service_message_reply_error_internal E handle message w)
      else (ls_reply_ok E w, w @ [Reply handle message reply_obj]))"

section \<open>Subscriptions\<close>

definition luna_service_check_for_subscription_and_process ::
    "'k env \<Rightarrow> bus \<Rightarrow> lsmessage \<Rightarrow> world \<Rightarrow> bool \<times> world" where
  "luna_service_check_for_subscription_and_process E handle message w =
     (if msg_is_subscription message
      then (ls_subscribed E w handle message, w @ [Subscribe handle message])
      else (False, w))"

definition luna_service_post_subscription ::
    "'k env \<Rightarrow> bus \<Rightarrow> string \<Rightarrow> string \<Rightarrow> json \<Rightarrow> world \<Rightarrow> world" where
  "luna_service_post_subscription E handle path method reply_obj w =
     (if \<not> jschema_ok E then w else w @ [Post handle path method reply_obj])"

section \<open>Typed accessors\<close>

definition luna_has_key :: "json \<Rightarrow> string \<Rightarrow> bool" where
  "luna_has_key obj key = (jobject_get_exists obj key \<noteq> None)"

definition luna_get_string :: "json \<Rightarrow> string \<Rightarrow> string option" where
  "luna_get_string obj key =
     (case jobject_get_exists obj key of
        None \<Rightarrow> None
      | Some v \<Rightarrow> (case v of JStr s \<Rightarrow> Some (c_string s) | _ \<Rightarrow> None))"

definition jis_number :: "json \<Rightarrow> bool" where
  "jis_number v = (case v of JNum _ _ \<Rightarrow> True | JInt _ \<Rightarrow> True | JDouble _ \<Rightarrow> True | _ \<Rightarrow> False)"

definition luna_get_int :: "json \<Rightarrow> string \<Rightarrow> int option" where
  "luna_get_int obj key =
     (case jobject_get_exists obj key of
        None \<Rightarrow> None
      | Some v \<Rightarrow> if \<not> jis_number v then None else jnumber_get_i32 v)"

definition luna_get_double :: "json \<Rightarrow> string \<Rightarrow> double option" where
  "luna_get_double obj key =
     (case jobject_get_exists obj key of
        None \<Rightarrow> None
      | Some v \<Rightarrow> if \<not> jis_number v then None else jnumber_get_f64 v)"

definition luna_get_bool :: "json \<Rightarrow> string \<Rightarrow> bool option" where
  "luna_get_bool obj key =
     (case jobject_get_exists obj key of
        None \<Rightarrow> None
      | Some v \<Rightarrow> (case v of JBool b \<Rightarrow> Some b | _ \<Rightarrow> None))"

section \<open>Facts\<close>

lemma parse_None [simp]:
  "\<not> jschema_ok E \<Longrightarrow> luna_service_message_parse_and_validate E p = None"
  by (simp add: luna_service_message_parse_and_validate_def)

lemma luna_get_string_no_nul: "luna_get_string obj key = Some s \<Longrightarrow> CHR 0x00 \<notin> set s"
  by (auto simp: luna_get_string_def c_string_def split: option.splits json.splits dest: set_takeWhileD)

text \<open>No value is read both as a string and as a number, nor as a truth value.\<close>

lemma accessors_exclusive:
  "luna_get_string obj key = Some s \<Longrightarrow>
     luna_get_int obj key = None \<and> luna_get_double obj key = None \<and> luna_get_bool obj key = None"
  by (auto simp: luna_get_string_def luna_get_int_def luna_get_double_def luna_get_bool_def
      jis_number_def split: option.splits json.splits)

lemma check_sub_quiet [world_ext]:
  "extends quiet w (snd (luna_service_check_for_subscription_and_process E h m w))"
  by (simp add: luna_service_check_for_subscription_and_process_def)

end
