(* ===== verification/Print_Area.thy ===== *)
theory Print_Area
  imports C_Double Print_Errors
begin

text \<open>
  The first half of \<open>src/job_manager.c\<close>: the print parameters of a job, the sheet dimensions
  and \<open>job_compute_area\<close>, the arithmetic from insets in inches to pixels, in binary64 and
  32-bit integers. \<open>conv\<close> is the platform's answer where a double has no integer value in range.
\<close>

section \<open>Data\<close>

record print_params =
  media_size :: string
  media_type :: string
  print_quality :: string
  duplex :: string
  dry_time :: string
  color :: string
  tray :: string
  num_copies :: int
  borderless :: bool
  auto_rotate :: bool
  auto_scale :: bool
  top_inset :: double
  left_inset :: double
  right_inset :: double
  bottom_inset :: double
  insets_set :: bool

record printable_area =
  pixel_units :: int
  raw_width :: int
  raw_height :: int
  area_width :: int
  area_height :: int
  page_width :: double
  page_height :: double
  page_top_margin :: double
  page_left_margin :: double
  page_right_margin :: double
  page_bottom_margin :: double
  params_adjusted :: bool

section \<open>Print parameters\<close>

abbreviation DEFAULT_MARGIN_INCHES :: double where
  "DEFAULT_MARGIN_INCHES \<equiv> 1 / 8"

definition print_params_init :: print_params where
  "print_params_init =
     \<lparr>media_size = ''US_Letter'', media_type = ''Plain'', print_quality = ''Normal'',
      duplex = ''None'', dry_time = ''Normal'', color = ''Color'', tray = ''Auto'',
      num_copies = 1, borderless = False, auto_rotate = False, auto_scale = False,
      top_inset = DEFAULT_MARGIN_INCHES, left_inset = DEFAULT_MARGIN_INCHES,
      right_inset = DEFAULT_MARGIN_INCHES, bottom_inset = DEFAULT_MARGIN_INCHES,
      insets_set = False\<rparr>"

section \<open>Printable area\<close>

text \<open>\<open>MM(x)\<close> is the double division of a millimetre value by the double nearest 25.4.\<close>

definition mm :: "double \<Rightarrow> double" where
  "mm x = fl (x / fl (254 / 10))"

definition media_dims :: "(string \<times> double \<times> double) list" where
  "media_dims =
    [(''US_Letter'', 17 / 2, 11),
     (''US_Legal'', 17 / 2, 14),
     (''B_Tabloid'', 11, 17),
     (''Super B'', 13, 19),
     (''ISO_A3'', mm 297, mm 420),
     (''ISO_A4'', mm 210, mm 297),
     (''ISO_A6'', mm 105, mm 148),
     (''HAGAKI'', mm 100, mm 148),
     (''Photo_L'', 7 / 2, 5),
     (''Photo_4x6'', 4, 6),
     (''Photo_5x7'', 5, 7),
     (''Photo_5x7_MainTray'', 5, 7),
     (''Photo_8x10'', 8, 10),
     (''Photo_10x15'', mm 100, mm 150),
     (''Photo_11x14'', 11, 14),
     (''Photo_4x8'', 4, 8),
     (''Photo_4X12'', 4, 12),
     (''Printable CD 3.5 inch'', 7 / 2, 7 / 2),
     (''Printable CD 5 inch'', mm 120, mm 120)]"

definition media_lookup :: "string option \<Rightarrow> (double \<times> double) option" where
  "media_lookup media = (case media of None \<Rightarrow> None | Some m \<Rightarrow> map_of media_dims m)"

text \<open>An inset below the margin is raised to it; the flag says that this happened.\<close>

definition clamp_inset :: "double \<Rightarrow> double \<Rightarrow> double \<times> bool" where
  "clamp_inset margin inset = (if inset < margin then (margin, True) else (inset, False))"

text \<open>The raw extent of one dimension, and the extent left inside a pair of insets.\<close>

definition raw_extent :: "(double \<Rightarrow> int) \<Rightarrow> double \<Rightarrow> double \<Rightarrow> double \<Rightarrow> int \<Rightarrow> int" where
  "raw_extent conv w m1 m2 units = int_lround conv (fl (fl (fl (w - m1) - m2) * of_int units))"

definition inset_extent :: "(double \<Rightarrow> int) \<Rightarrow> double \<Rightarrow> double \<Rightarrow> double \<Rightarrow> int \<Rightarrow> int" where
  "inset_extent conv m a b units =
     int_lround conv (fl (fl (fl (a - m) + fl (b - m)) * of_int units))"

definition job_compute_area ::
    "(double \<Rightarrow> int) \<Rightarrow> string option \<Rightarrow> print_params \<Rightarrow> int \<Rightarrow> int + printable_area" where
  "job_compute_area conv media p units0 =
     (case media_lookup media of
        None \<Rightarrow> Inl PM_ERR_BAD_MEDIA_SIZE
      | Some (w, h) \<Rightarrow>
          let units = (if units0 \<le> 0 then 300 else units0);
              m = DEFAULT_MARGIN_INCHES;
              rw = raw_extent conv w m m units;
              rh = raw_extent conv h m m units;
              out = \<lparr>pixel_units = units, raw_width = rw, raw_height = rh, area_width = 0,
                     area_height = 0, page_width = w, page_height = h, page_top_margin = m,
                     page_left_margin = m, page_right_margin = m, page_bottom_margin = m,
                     params_adjusted = False\<rparr>
          in if borderless p then
               let bw = int_lround conv (fl (w * of_int units));
                   bh = int_lround conv (fl (h * of_int units))
               in Inr (out\<lparr>page_top_margin := 0, page_left_margin := 0, page_right_margin := 0,
                          page_bottom_margin := 0, raw_width := bw, raw_height := bh,
                          area_width := bw, area_height := bh\<rparr>)
             else
               let (top, adj1) = clamp_inset m (top_inset p);
                   (left, adj2) = clamp_inset m (left_inset p);
                   (right, adj3) = clamp_inset m (right_inset p);
                   (bottom, adj4) = clamp_inset m (bottom_inset p);
                   width = int32 (int32 (rw - inset_extent conv m left right units) + 1);
                   height = int32 (int32 (rh - inset_extent conv m top bottom units) + 1)
               in if width \<le> 0 \<or> height \<le> 0 then Inl PM_ERR_INSET_OUTSIDE_AREA
                  else Inr (out\<lparr>params_adjusted := adj1 \<or> adj2 \<or> adj3 \<or> adj4,
                               area_width := width, area_height := height\<rparr>))"

section \<open>The shape of the result\<close>

lemma clamp_inset_def2: "clamp_inset m x = (max m x, x < m)"
  by (simp add: clamp_inset_def max_def)

text \<open>The four insets the arithmetic uses, and whether any had to be raised.\<close>

definition insets_low :: "print_params \<Rightarrow> bool" where
  "insets_low p \<longleftrightarrow>
     top_inset p < DEFAULT_MARGIN_INCHES \<or> left_inset p < DEFAULT_MARGIN_INCHES \<or>
     right_inset p < DEFAULT_MARGIN_INCHES \<or> bottom_inset p < DEFAULT_MARGIN_INCHES"

definition units_of :: "int \<Rightarrow> int" where
  "units_of u = (if u \<le> 0 then 300 else u)"

definition extent :: "(double \<Rightarrow> int) \<Rightarrow> double \<Rightarrow> double \<Rightarrow> double \<Rightarrow> int \<Rightarrow> int" where
  "extent conv w a b u =
     int32 (int32 (raw_extent conv w DEFAULT_MARGIN_INCHES DEFAULT_MARGIN_INCHES u -
       inset_extent conv DEFAULT_MARGIN_INCHES (max DEFAULT_MARGIN_INCHES a)
         (max DEFAULT_MARGIN_INCHES b) u) + 1)"

lemma area_error_cases:
  "job_compute_area conv media p u = Inl e \<Longrightarrow> e = PM_ERR_BAD_MEDIA_SIZE \<or> e = PM_ERR_INSET_OUTSIDE_AREA"
  by (auto simp: job_compute_area_def Let_def clamp_inset_def2 split: option.splits if_splits)

lemma area_borderless:
  assumes "media_lookup media = Some (w, h)" "borderless p"
  shows "job_compute_area conv media p u = Inr
    \<lparr>pixel_units = units_of u, raw_width = int_lround conv (fl (w * of_int (units_of u))),
     raw_height = int_lround conv (fl (h * of_int (units_of u))),
     area_width = int_lround conv (fl (w * of_int (units_of u))),
     area_height = int_lround conv (fl (h * of_int (units_of u))), page_width = w, page_height = h,
     page_top_margin = 0, page_left_margin = 0, page_right_margin = 0, page_bottom_margin = 0,
     params_adjusted = False\<rparr>"
  using assms by (simp add: job_compute_area_def units_of_def Let_def)

lemma area_bordered:
  assumes "media_lookup media = Some (w, h)" "\<not> borderless p"
  shows "job_compute_area conv media p u =
    (let width = extent conv w (left_inset p) (right_inset p) (units_of u);
         height = extent conv h (top_inset p) (bottom_inset p) (units_of u)
     in if width \<le> 0 \<or> height \<le> 0 then Inl PM_ERR_INSET_OUTSIDE_AREA
        else Inr \<lparr>pixel_units = units_of u,
          raw_width = raw_extent conv w DEFAULT_MARGIN_INCHES DEFAULT_MARGIN_INCHES (units_of u),
          raw_height = raw_extent conv h DEFAULT_MARGIN_INCHES DEFAULT_MARGIN_INCHES (units_of u),
          area_width = width, area_height = height, page_width = w, page_height = h,
          page_top_margin = DEFAULT_MARGIN_INCHES, page_left_margin = DEFAULT_MARGIN_INCHES,
          page_right_margin = DEFAULT_MARGIN_INCHES, page_bottom_margin = DEFAULT_MARGIN_INCHES,
          params_adjusted = insets_low p\<rparr>)"
  using assms
  by (simp add: job_compute_area_def units_of_def Let_def clamp_inset_def2 extent_def insets_low_def)

section \<open>Arithmetic without overflow\<close>

text \<open>
  Insets of at most 1000 inches, at most 100000 pixels per inch: then no conversion leaves its
  type, and the integer arithmetic is exact.
\<close>

definition tame_insets :: "print_params \<Rightarrow> bool" where
  "tame_insets p \<longleftrightarrow>
     top_inset p \<le> 1000 \<and> left_inset p \<le> 1000 \<and> right_inset p \<le> 1000 \<and> bottom_inset p \<le> 1000"

definition tame_units :: "int \<Rightarrow> bool" where
  "tame_units u \<longleftrightarrow> u \<le> 100000"

lemma units_of_range: "tame_units u \<Longrightarrow> 1 \<le> units_of u \<and> units_of u \<le> 100000"
  by (auto simp: units_of_def tame_units_def)

definition inset_sum :: "double \<Rightarrow> double \<Rightarrow> int \<Rightarrow> double" where
  "inset_sum a b u = fl (fl (fl (max DEFAULT_MARGIN_INCHES a - DEFAULT_MARGIN_INCHES) +
     fl (max DEFAULT_MARGIN_INCHES b - DEFAULT_MARGIN_INCHES)) * of_int u)"

lemma inset_sum_nonneg: "0 \<le> u \<Longrightarrow> 0 \<le> inset_sum a b u"
  by (simp add: inset_sum_def)

definition inset_gap :: "double \<Rightarrow> double" where
  "inset_gap a = fl (max DEFAULT_MARGIN_INCHES a - DEFAULT_MARGIN_INCHES)"

lemma inset_sum_gaps: "inset_sum a b u = fl (fl (inset_gap a + inset_gap b) * of_int u)"
  by (simp add: inset_sum_def inset_gap_def)

lemma inset_gap_nonneg [simp]: "0 \<le> inset_gap a"
  by (simp add: inset_gap_def)

lemma inset_gap_mono: "a \<le> b \<Longrightarrow> inset_gap a \<le> inset_gap b"
  unfolding inset_gap_def by (intro fl_mono diff_right_mono max.mono order_refl)

lemma inset_sum_mono:
  assumes "a \<le> a'" "b \<le> b'" "0 \<le> u"
  shows "inset_sum a b u \<le> inset_sum a' b' u"
  unfolding inset_sum_gaps using assms
  by (intro fl_mono mult_right_mono add_mono inset_gap_mono) simp_all

lemma fl_int_le: "x \<le> of_int n \<Longrightarrow> 0 \<le> n \<Longrightarrow> n < 2 ^ 53 \<Longrightarrow> fl x \<le> of_int n"
  using fl_mono [of x "of_int n"] by (simp add: fl_nat)

lemma inset_gap_bound:
  assumes "a \<le> 1000"
  shows "inset_gap a \<le> 1000"
proof -
  have "max DEFAULT_MARGIN_INCHES a - DEFAULT_MARGIN_INCHES \<le> of_int 1000"
    using assms by (simp add: max_def)
  then show ?thesis
    unfolding inset_gap_def using fl_int_le by fastforce
qed

lemma inset_sum_bound:
  assumes "a \<le> 1000" "b \<le> 1000" "0 \<le> u" "u \<le> 100000"
  shows "inset_sum a b u \<le> 200000000"
proof -
  have "inset_gap a + inset_gap b \<le> of_int 2000"
    using inset_gap_bound [OF assms(1)] inset_gap_bound [OF assms(2)] by simp
  then have *: "fl (inset_gap a + inset_gap b) \<le> of_int 2000"
    by (rule fl_int_le) simp_all
  have "fl (inset_gap a + inset_gap b) * of_int u \<le> of_int 2000 * of_int 100000"
    by (rule mult_mono [OF * of_int_le_iff [THEN iffD2, OF assms(4)]]) (use assms(3) in simp_all)
  then have "fl (inset_gap a + inset_gap b) * of_int u \<le> of_int 200000000"
    by simp
  then have "inset_sum a b u \<le> of_int 200000000"
    unfolding inset_sum_gaps by (rule fl_int_le) simp_all
  then show ?thesis by simp
qed

lemma inset_extent_eq:
  "inset_extent conv DEFAULT_MARGIN_INCHES (max DEFAULT_MARGIN_INCHES a)
     (max DEFAULT_MARGIN_INCHES b) u = int_lround conv (inset_sum a b u)"
  by (simp add: inset_extent_def inset_sum_def)

section \<open>The sheets\<close>

lemma fl_int_ge: "of_int n \<le> x \<Longrightarrow> 0 \<le> n \<Longrightarrow> n < 2 ^ 53 \<Longrightarrow> of_int n \<le> fl x"
  using fl_mono [of "of_int n" x] by (simp add: fl_nat)

lemma inch_bounds: "25 \<le> fl (254 / 10)" "fl (254 / 10) \<le> 26"
  using fl_int_ge [of 25 "254 / 10"] fl_int_le [of "254 / 10" 26] by simp_all

lemma mm_bounds:
  assumes "100 \<le> x" "x \<le> 420"
  shows "3 \<le> mm x" "mm x \<le> 17"
proof -
  have "3 * fl (254 / 10) \<le> x" "x \<le> 17 * fl (254 / 10)"
    using inch_bounds assms by linarith+
  then have "of_int 3 \<le> x / fl (254 / 10)" "x / fl (254 / 10) \<le> of_int 17"
    using inch_bounds by (simp_all add: le_divide_eq divide_le_eq)
  then show "3 \<le> mm x" "mm x \<le> 17"
    unfolding mm_def using fl_int_ge [of 3] fl_int_le [of _ 17] by simp_all
qed

definition sheet_ok :: "double \<Rightarrow> bool" where
  "sheet_ok w \<longleftrightarrow> 3 \<le> w \<and> w \<le> 20"

lemma sheet_ok_mm: "100 \<le> x \<Longrightarrow> x \<le> 420 \<Longrightarrow> sheet_ok (mm x)"
  using mm_bounds [of x] by (simp add: sheet_ok_def)

lemma sheet_ok_numeral: "sheet_ok 3" "sheet_ok (7 / 2)" "sheet_ok 4" "sheet_ok 5" "sheet_ok 6"
  "sheet_ok 7" "sheet_ok 8" "sheet_ok (17 / 2)" "sheet_ok 10" "sheet_ok 11" "sheet_ok 12"
  "sheet_ok 13" "sheet_ok 14" "sheet_ok 17" "sheet_ok 19"
  by (simp_all add: sheet_ok_def)

lemma media_dims_ok: "list_all (\<lambda>(m, w, h). sheet_ok w \<and> sheet_ok h) media_dims"
  by (simp add: media_dims_def sheet_ok_mm sheet_ok_numeral)

lemma media_lookup_ok:
  assumes "media_lookup media = Some (w, h)"
  shows "sheet_ok w" "sheet_ok h"
proof -
  obtain m where "(m, w, h) \<in> set media_dims"
    using assms by (auto simp: media_lookup_def split: option.splits dest: map_of_SomeD)
  then show "sheet_ok w" "sheet_ok h"
    using media_dims_ok by (auto simp: list_all_iff)
qed

definition raw_inches :: "double \<Rightarrow> double" where
  "raw_inches w = fl (fl (w - DEFAULT_MARGIN_INCHES) - DEFAULT_MARGIN_INCHES)"

lemma raw_inches_bounds:
  assumes "sheet_ok w"
  shows "1 \<le> raw_inches w" "raw_inches w \<le> 20"
proof -
  have 1: "of_int 2 \<le> fl (w - DEFAULT_MARGIN_INCHES)" "fl (w - DEFAULT_MARGIN_INCHES) \<le> of_int 20"
    by (rule fl_int_ge fl_int_le; use assms in \<open>simp add: sheet_ok_def\<close>)+
  have "of_int 1 \<le> raw_inches w" "raw_inches w \<le> of_int 20"
    unfolding raw_inches_def by (rule fl_int_ge fl_int_le; use 1 in simp)+
  then show "1 \<le> raw_inches w" "raw_inches w \<le> 20" by simp_all
qed

definition raw_pixels :: "double \<Rightarrow> int \<Rightarrow> int" where
  "raw_pixels w u = round_half_away (fl (raw_inches w * of_int u))"

definition inset_pixels :: "double \<Rightarrow> double \<Rightarrow> int \<Rightarrow> int" where
  "inset_pixels a b u = round_half_away (inset_sum a b u)"

lemma raw_pixels_bounds:
  assumes "sheet_ok w" "1 \<le> u" "u \<le> 100000"
  shows "1 \<le> raw_pixels w u" "raw_pixels w u \<le> 2000000"
proof -
  note b = raw_inches_bounds [OF assms(1)]
  have u: "(1::rat) \<le> of_int u" "(of_int u :: rat) \<le> of_int 100000"
    using assms(2,3) by (simp, intro of_int_le_iff [THEN iffD2])
  have "1 * 1 \<le> raw_inches w * of_int u"
    by (rule mult_mono) (use b u in simp_all)
  moreover have "raw_inches w * of_int u \<le> 20 * of_int 100000"
    by (rule mult_mono) (use b u in simp_all)
  ultimately have "of_int 1 \<le> fl (raw_inches w * of_int u)" "fl (raw_inches w * of_int u) \<le> of_int 2000000"
    using fl_int_ge [of 1] fl_int_le [of _ 2000000] by simp_all
  then have "round_half_away (of_int 1) \<le> raw_pixels w u" "raw_pixels w u \<le> round_half_away (of_int 2000000)"
    unfolding raw_pixels_def by (blast intro: round_half_away_mono)+
  then show "1 \<le> raw_pixels w u" "raw_pixels w u \<le> 2000000"
    by (simp_all only: round_half_away_of_int)
qed

lemma inset_pixels_bounds:
  assumes "a \<le> 1000" "b \<le> 1000" "1 \<le> u" "u \<le> 100000"
  shows "0 \<le> inset_pixels a b u" "inset_pixels a b u \<le> 200000000"
proof -
  show "0 \<le> inset_pixels a b u"
    using assms by (simp add: inset_pixels_def round_half_away_nonneg inset_sum_nonneg)
  have "inset_sum a b u \<le> of_int 200000000"
    using inset_sum_bound [of a b u] assms by simp
  then show "inset_pixels a b u \<le> 200000000"
    unfolding inset_pixels_def by (rule round_half_away_le)
qed

lemma raw_extent_tame:
  assumes "sheet_ok w" "1 \<le> u" "u \<le> 100000"
  shows "raw_extent conv w DEFAULT_MARGIN_INCHES DEFAULT_MARGIN_INCHES u = raw_pixels w u"
proof -
  have "int_range (raw_pixels w u)"
    using raw_pixels_bounds [OF assms] by (simp add: int_range_def)
  then show ?thesis
    unfolding raw_extent_def raw_pixels_def raw_inches_def by (rule int_lround_small)
qed

lemma extent_tame:
  assumes "sheet_ok w" "1 \<le> u" "u \<le> 100000" "a \<le> 1000" "b \<le> 1000"
  shows "extent conv w a b u = raw_pixels w u - inset_pixels a b u + 1"
proof -
  note r = raw_pixels_bounds [OF assms(1-3)] and i = inset_pixels_bounds [OF assms(4,5,2,3)]
  have "int_range (inset_pixels a b u)"
    using i by (simp add: int_range_def)
  then have "int_lround conv (inset_sum a b u) = inset_pixels a b u"
    unfolding inset_pixels_def by (rule int_lround_small)
  then have "extent conv w a b u = int32 (int32 (raw_pixels w u - inset_pixels a b u) + 1)"
    using assms by (simp only: extent_def raw_extent_tame inset_extent_eq)
  also have "\<dots> = raw_pixels w u - inset_pixels a b u + 1"
    using r i by (simp add: int_range_def)
  finally show ?thesis .
qed

text \<open>The area of a tame request, without wrap-around.\<close>

lemma area_tame:
  assumes "media_lookup media = Some (w, h)" "\<not> borderless p" "tame_insets p" "tame_units u"
  shows "job_compute_area conv media p u =
    (let v = units_of u;
         width = raw_pixels w v - inset_pixels (left_inset p) (right_inset p) v + 1;
         height = raw_pixels h v - inset_pixels (top_inset p) (bottom_inset p) v + 1
     in if width \<le> 0 \<or> height \<le> 0 then Inl PM_ERR_INSET_OUTSIDE_AREA
        else Inr \<lparr>pixel_units = v, raw_width = raw_pixels w v, raw_height = raw_pixels h v,
          area_width = width, area_height = height, page_width = w, page_height = h,
          page_top_margin = DEFAULT_MARGIN_INCHES, page_left_margin = DEFAULT_MARGIN_INCHES,
          page_right_margin = DEFAULT_MARGIN_INCHES, page_bottom_margin = DEFAULT_MARGIN_INCHES,
          params_adjusted = insets_low p\<rparr>)"
  using units_of_range [OF assms(4)] media_lookup_ok [OF assms(1)] assms(3)
  by (simp only: area_bordered [OF assms(1,2)] tame_insets_def extent_tame raw_extent_tame Let_def)

lemma inset_pixels_mono:
  "a \<le> a' \<Longrightarrow> b \<le> b' \<Longrightarrow> 0 \<le> u \<Longrightarrow> inset_pixels a b u \<le> inset_pixels a' b' u"
  unfolding inset_pixels_def by (intro round_half_away_mono inset_sum_mono)

lemma fl_fraction:
  assumes "x * 2 ^ k = of_int n" "0 \<le> n" "n < 2 ^ 53" "k \<le> 1074"
  shows "fl x = x"
proof -
  have "x = of_int n / 2 ^ k" using assms(1) by (simp add: eq_divide_eq)
  then show ?thesis using fl_dyadic [OF assms(2-4)] by simp
qed

lemma letter_fractions:
  "fl (67 / 8) = 67 / 8" "fl (33 / 4) = 33 / 4" "fl (87 / 8) = 87 / 8" "fl (43 / 4) = 43 / 4"
  "fl (3 / 8) = 3 / 8" "fl (3 / 4) = 3 / 4" "fl (1 / 8) = 1 / 8" "fl (1 / 4) = 1 / 4"
  "fl (159 / 8) = 159 / 8" "fl (159 / 4) = 159 / 4"
  by (rule fl_fraction [of _ 3 67] fl_fraction [of _ 2 33] fl_fraction [of _ 3 87]
      fl_fraction [of _ 2 43] fl_fraction [of _ 3 3] fl_fraction [of _ 2 3] fl_fraction [of _ 3 1]
      fl_fraction [of _ 2 1] fl_fraction [of _ 3 159] fl_fraction [of _ 2 159]; simp)+

lemma fl_numerals: "numeral n < (2 ^ 53 :: int) \<Longrightarrow> fl (numeral n) = numeral n"
  using fl_nat [of "numeral n"] by simp

lemma int_lround_of_int: "int_range n \<Longrightarrow> int_lround conv (of_int n) = n"
  using int_lround_small [of "of_int n" conv] by simp

lemma int_lround_numeral [simp]:
  "int_range (numeral n) \<Longrightarrow> int_lround conv (numeral n) = numeral n" "int_lround conv 0 = 0"
proof -
  show "int_range (numeral n) \<Longrightarrow> int_lround conv (numeral n) = numeral n"
    using int_lround_of_int [of "numeral n" conv] by simp
  have "int_range 0" by (simp add: int_range_def)
  then show "int_lround conv 0 = 0"
    using int_lround_of_int [of 0 conv] by simp
qed

definition letter_insets :: "double \<Rightarrow> print_params" where
  "letter_insets d = print_params_init\<lparr>top_inset := d, left_inset := d, right_inset := d,
     bottom_inset := d, insets_set := True\<rparr>"

definition area_values :: "int + printable_area \<Rightarrow> int + (int \<times> int \<times> int \<times> int \<times> bool)" where
  "area_values r = (case r of Inl e \<Rightarrow> Inl e
     | Inr a \<Rightarrow> Inr (raw_width a, raw_height a, area_width a, area_height a, params_adjusted a))"

lemmas area_eval = job_compute_area_def area_values_def letter_insets_def print_params_init_def
  media_lookup_def media_dims_def clamp_inset_def raw_extent_def inset_extent_def letter_fractions
  fl_numerals int_range_def Let_def

lemma letter_lookup: "media_lookup (Some ''US_Letter'') = Some (17 / 2, 11)"
  by (simp add: media_lookup_def media_dims_def)

lemma letter_insets_simps [simp]:
  "\<not> borderless (letter_insets d)" "d \<le> 1000 \<Longrightarrow> tame_insets (letter_insets d)" "tame_units 300"
  "top_inset (letter_insets d) = d" "left_inset (letter_insets d) = d"
  "right_inset (letter_insets d) = d" "bottom_inset (letter_insets d) = d" "units_of 300 = 300"
  by (simp_all add: letter_insets_def print_params_init_def tame_insets_def tame_units_def units_of_def)

section \<open>Properties\<close>

text \<open>
  C10: For a known sheet with a border, insets of at most 1000 inches and at most 100000 pixels
  per inch, no step of the arithmetic overflows or depends on the platform: the request is
  rejected with -613 exactly when the insets take more pixels than the sheet has between the
  margins, and otherwise the area is what is left (between one pixel and the raw area plus one)
  and the reply says adjusted exactly when an inset was below the margin.
\<close>

theorem area_exact:
  assumes "media_lookup media = Some (w, h)" "\<not> borderless p" "tame_insets p" "tame_units u"
  shows "(let rw = raw_pixels w (units_of u); iw = inset_pixels (left_inset p) (right_inset p) (units_of u);
       rh = raw_pixels h (units_of u); ih = inset_pixels (top_inset p) (bottom_inset p) (units_of u)
     in (case job_compute_area conv media p u of
        Inl e \<Rightarrow> e = PM_ERR_INSET_OUTSIDE_AREA \<and> (rw < iw \<or> rh < ih)
      | Inr a \<Rightarrow> iw \<le> rw \<and> ih \<le> rh \<and> pixel_units a = units_of u \<and>
          raw_width a = rw \<and> raw_height a = rh \<and> 1 \<le> rw \<and> 1 \<le> rh \<and>
          area_width a = rw - iw + 1 \<and> 1 \<le> area_width a \<and> area_width a \<le> rw + 1 \<and>
          area_height a = rh - ih + 1 \<and> 1 \<le> area_height a \<and> area_height a \<le> rh + 1 \<and>
          params_adjusted a = insets_low p))"
proof -
  note u = units_of_range [OF assms(4)] and s = media_lookup_ok [OF assms(1)]
  have i: "0 \<le> inset_pixels (left_inset p) (right_inset p) (units_of u)"
    "0 \<le> inset_pixels (top_inset p) (bottom_inset p) (units_of u)"
    using inset_pixels_bounds(1) u assms(3) by (simp_all add: tame_insets_def)
  have r: "1 \<le> raw_pixels w (units_of u)" "1 \<le> raw_pixels h (units_of u)"
    using raw_pixels_bounds(1) u s by simp_all
  show ?thesis
    unfolding area_tame [OF assms] using i r by (simp add: Let_def)
qed

theorem area_exact_witness:
  "case job_compute_area (\<lambda>x. 0) (Some ''US_Letter'') (letter_insets (1 / 2)) 300 of
     Inl e \<Rightarrow> e = PM_ERR_INSET_OUTSIDE_AREA
   | Inr a \<Rightarrow> area_width a = raw_pixels (17 / 2) 300 - inset_pixels (1 / 2) (1 / 2) 300 + 1"
  using area_exact [OF letter_lookup, of "letter_insets (1 / 2)" 300 "\<lambda>x. 0"]
  by (auto simp: Let_def split: sum.splits)

text \<open>
  C27: For insets of at most 1000 inches and at most 100000 pixels per inch, raising insets never
  enlarges the area: if a request with a border is accepted, so is every such request for the same
  sheet with smaller insets, and its area is at least as wide and as high. (For larger insets it may
  well be enlarged.)
\<close>

theorem area_antitone:
  assumes "media_lookup media = Some (w, h)" "\<not> borderless p" "\<not> borderless q"
    and "tame_insets q" "tame_units u"
    and "top_inset p \<le> top_inset q" "left_inset p \<le> left_inset q"
      "right_inset p \<le> right_inset q" "bottom_inset p \<le> bottom_inset q"
    and "job_compute_area conv media q u = Inr b"
  shows "\<exists>a. job_compute_area conv media p u = Inr a \<and> area_width b \<le> area_width a \<and>
    area_height b \<le> area_height a"
proof -
  have p: "tame_insets p" using assms(4,6-9) by (simp add: tame_insets_def)
  have u: "0 \<le> units_of u" using units_of_range [OF assms(5)] by simp
  note m = inset_pixels_mono [OF assms(7,8) u] inset_pixels_mono [OF assms(6,9) u]
  show ?thesis
    using assms(10) m unfolding area_tame [OF assms(1,2) p assms(5)] area_tame [OF assms(1,3,4,5)]
    by (auto simp: Let_def split: if_splits)
qed

theorem area_antitone_witness:
  "\<exists>a. job_compute_area (\<lambda>x. 0) (Some ''US_Letter'') (letter_insets (1 / 4)) 300 = Inr a \<and> 2251 \<le> area_width a"
proof -
  have "area_values (job_compute_area (\<lambda>x. 0) (Some ''US_Letter'') (letter_insets (1 / 2)) 300)
      = Inr (2475, 3225, 2251, 3001, False)"
    by (simp add: area_eval)
  then obtain b where "job_compute_area (\<lambda>x. 0) (Some ''US_Letter'') (letter_insets (1 / 2)) 300 = Inr b"
    "area_width b = 2251"
    by (auto simp: area_values_def split: sum.splits)
  then show ?thesis
    using area_antitone [OF letter_lookup, of "letter_insets (1 / 4)" "letter_insets (1 / 2)" 300 "\<lambda>x. 0" b]
    by auto
qed

text \<open>ISO_A4 keeps its metric definition; its sides in inches are rounded by the processor.\<close>

lemma a4_raw:
  "raw_extent conv (mm 210) DEFAULT_MARGIN_INCHES DEFAULT_MARGIN_INCHES 300 = 2405"
  "raw_extent conv (mm 297) DEFAULT_MARGIN_INCHES DEFAULT_MARGIN_INCHES 300 = 3433"
proof -
  have inch: "fl (254 / 10) = 3574732204225331 / 140737488355328"
    using fl_near [of 48 "254 / 10" 7149464408450662] by simp
  have w: "fl (210 / (3574732204225331 / 140737488355328)) = 4654310638522659 / 562949953421312"
    using fl_near [of 49 "210 / (3574732204225331 / 140737488355328)" 4654310638522659] by simp
  have w1: "fl (4583941894344995 / 562949953421312) = 4583941894344995 / 562949953421312"
    by (rule fl_fraction [of _ 49 4583941894344995]) simp_all
  have w2: "fl (4513573150167331 / 562949953421312) = 4513573150167331 / 562949953421312"
    by (rule fl_fraction [of _ 49 4513573150167331]) simp_all
  have w3: "fl (4513573150167331 / 562949953421312 * 300) = 5289343535352341 / 2199023255552"
    using fl_near [of 41 "4513573150167331 / 562949953421312 * 300" 5289343535352341] by simp
  have h: "fl (297 / (3574732204225331 / 140737488355328)) = 6582525045910617 / 562949953421312"
    using fl_near [of 49 "297 / (3574732204225331 / 140737488355328)" 6582525045910617] by simp
  have h1: "fl (6512156301732953 / 562949953421312) = 6512156301732953 / 562949953421312"
    by (rule fl_fraction [of _ 49 6512156301732953]) simp_all
  have h2: "fl (6441787557555289 / 562949953421312) = 6441787557555289 / 562949953421312"
    by (rule fl_fraction [of _ 49 6441787557555289]) simp_all
  have h3: "fl (6441787557555289 / 562949953421312 * 300) = 7548969794010104 / 2199023255552"
    using fl_near [of 41 "6441787557555289 / 562949953421312 * 300" 7548969794010104] by simp
  have mm: "mm 210 - 1 / 8 = 4583941894344995 / 562949953421312" "mm 297 - 1 / 8 = 6512156301732953 / 562949953421312"
    unfolding mm_def inch w h by simp_all
  have m2: "4583941894344995 / 562949953421312 - 1 / 8 = (4513573150167331 / 562949953421312 :: rat)"
    "6512156301732953 / 562949953421312 - 1 / 8 = (6441787557555289 / 562949953421312 :: rat)" by simp_all
  have r: "int_lround conv (5289343535352341 / 2199023255552) = 2405"
    "int_lround conv (7548969794010104 / 2199023255552) = 3433"
    by (simp_all add: int_lround_def round_half_away_def long_range_def int32_def Let_def floor_eq_iff)
  show "raw_extent conv (mm 210) DEFAULT_MARGIN_INCHES DEFAULT_MARGIN_INCHES 300 = 2405"
    unfolding raw_extent_def mm w1 m2 w2 of_int_numeral w3 r ..
  show "raw_extent conv (mm 297) DEFAULT_MARGIN_INCHES DEFAULT_MARGIN_INCHES 300 = 3433"
    unfolding raw_extent_def mm h1 m2 h2 of_int_numeral h3 r ..
qed

text \<open>
  The reference values the tests assert: US_Letter at 300 pixels per inch with insets of half an inch
  and of a quarter of an inch, with no insets (raised to the margin), without a border, and with insets
  that consume its height; and a sheet that does not exist. (Raw width
  and height, width, height, adjusted.)
\<close>

lemma area_reference_values:
  "area_values (job_compute_area conv (Some ''US_Letter'') (letter_insets (1 / 2)) 300) = Inr (2475, 3225, 2251, 3001, False)"
  "area_values (job_compute_area conv (Some ''US_Letter'') (letter_insets (1 / 4)) 300) = Inr (2475, 3225, 2401, 3151, False)"
  "area_values (job_compute_area conv (Some ''US_Letter'') (letter_insets 0) 300) = Inr (2475, 3225, 2476, 3226, True)"
  "area_values (job_compute_area conv (Some ''US_Letter'') (print_params_init\<lparr>borderless := True\<rparr>) 300) = Inr (2550, 3300, 2550, 3300, False)"
  "area_values (job_compute_area conv (Some ''US_Letter'') ((letter_insets 20)\<lparr>left_inset := 1 / 2, right_inset := 1 / 2\<rparr>) 300)
    = Inl PM_ERR_INSET_OUTSIDE_AREA"
  "area_values (job_compute_area conv (Some ''NoSuchSize'') print_params_init 300) = Inl PM_ERR_BAD_MEDIA_SIZE"
  by (simp_all add: area_eval)

text \<open>
  C40: Insets that are far too large are not all rejected: with a left inset of ten million inches
  the conversion to \<open>int\<close> wraps around and the request is accepted with an area 1294969809 pixels
  wide, on a sheet that is 2475 pixels wide.
\<close>

theorem huge_inset_accepted:
  "area_values (job_compute_area conv (Some ''US_Letter'') (print_params_init\<lparr>left_inset := 10000000\<rparr>) 300)
   = Inr (2475, 3225, 1294969809, 3226, False)"
proof -
  have fl: "fl (79999999 / 8) = 79999999 / 8"
    by (rule fl_fraction [of _ 3 79999999]) simp_all
  have fl2: "fl (5999999925 / 2) = 5999999925 / 2"
    by (rule fl_fraction [of _ 1 5999999925]) simp_all
  have r: "round_half_away (5999999925 / 2) = 2999999963"
    by (simp add: round_half_away_def floor_eq_iff)
  have "int_lround conv (5999999925 / 2) = -1294967333"
    by (simp add: int_lround_def r long_range_def int32_def)
  then show ?thesis
    by (simp add: area_eval fl fl2)
qed

text \<open>
  A borderless request for a known sheet is never rejected, whatever the insets: the area is the
  whole sheet in pixels, at least one each way, with no margin and nothing adjusted.
\<close>

lemma area_borderless_sheet:
  assumes "media_lookup media = Some (w, h)" "borderless p" "tame_units u"
  shows "\<exists>a. job_compute_area conv media p u = Inr a
    \<and> area_width a = round_half_away (fl (w * of_int (units_of u)))
    \<and> area_height a = round_half_away (fl (h * of_int (units_of u)))
    \<and> raw_width a = area_width a \<and> raw_height a = area_height a \<and> 1 \<le> area_width a \<and> 1 \<le> area_height a
    \<and> page_top_margin a = 0 \<and> page_left_margin a = 0 \<and> page_right_margin a = 0
    \<and> page_bottom_margin a = 0 \<and> \<not> params_adjusted a"
proof -
  have px: "1 \<le> round_half_away (fl (x * of_int (units_of u))) \<and>
      int_lround conv (fl (x * of_int (units_of u))) = round_half_away (fl (x * of_int (units_of u)))"
    if "sheet_ok x" for x
  proof -
    have u: "(1::rat) \<le> of_int (units_of u)" "(of_int (units_of u) :: rat) \<le> of_int 100000"
      using units_of_range [OF assms(3)] by (simp, intro of_int_le_iff [THEN iffD2]) blast
    have "1 * 1 \<le> x * of_int (units_of u)" "x * of_int (units_of u) \<le> 20 * of_int 100000"
      by (rule mult_mono; use that u in \<open>simp add: sheet_ok_def\<close>)+
    then have "of_int 1 \<le> fl (x * of_int (units_of u))" "fl (x * of_int (units_of u)) \<le> of_int 2000000"
      using fl_int_ge [of 1] fl_int_le [of _ 2000000] by simp_all
    then have b: "round_half_away (of_int 1) \<le> round_half_away (fl (x * of_int (units_of u)))"
      "round_half_away (fl (x * of_int (units_of u))) \<le> round_half_away (of_int 2000000)"
      by (blast intro: round_half_away_mono)+
    then have "int_range (round_half_away (fl (x * of_int (units_of u))))"
      unfolding round_half_away_of_int by (simp add: int_range_def)
    then show ?thesis
      using b int_lround_small unfolding round_half_away_of_int by blast
  qed
  show ?thesis
    unfolding area_borderless [OF assms(1,2)]
    using px [OF media_lookup_ok(1) [OF assms(1)]] px [OF media_lookup_ok(2) [OF assms(1)]] by simp
qed

end
