(* ===== verification/Sample_Env.thy ===== *)
theory Sample_Env
  imports Service_World
begin

text \<open>
  A concrete environment, on which the witnesses evaluate the theorems: a key file is an
  association list of groups, the file system and the bus accept every call, every file is the
  beginning of a PDF document, and CUPS knows one printer and gives every job the number 7.
\<close>

type_synonym sample_store = "(string \<times> (string \<times> string) list) list"

definition sample_group :: "sample_store \<Rightarrow> string \<Rightarrow> (string \<times> string) list" where
  "sample_group kf g = (case map_of kf g of None \<Rightarrow> [] | Some es \<Rightarrow> es)"

definition sample_dest :: cups_dest where
  "sample_dest = \<lparr>dest_name = ''Office'', dest_options = [(''printer-info'', ''Office printer'')]\<rparr>"

definition sample_env :: "sample_store env" where
  "sample_env = \<lparr>
     g_utf8_validate = (\<lambda>s. True),
     kf_has_group = (\<lambda>kf g. map_of kf g \<noteq> None),
     kf_get_groups = (\<lambda>kf. remdups (map fst kf)),
     kf_get_string = (\<lambda>kf g k. map_of (sample_group kf g) k),
     kf_set_string = (\<lambda>kf g k v. AList.update g (AList.update k v (sample_group kf g)) kf),
     kf_remove_group = (\<lambda>kf g. if map_of kf g = None then None else Some (AList.delete g kf)),
     kf_remove_key = (\<lambda>kf g k. if map_of kf g = None then kf
        else AList.update g (AList.delete k (sample_group kf g)) kf),
     kf_load = (\<lambda>w p. []),
     kf_save = (\<lambda>w kf p. True),
     hash_order = (\<lambda>ks. ks),
     path_dirname = (\<lambda>p. ''.''),
     is_ip_address = (\<lambda>a. True),
     monotonic_time = (\<lambda>w. int (length w)),
     timeout_add = (\<lambda>w. 1),
     oor = (\<lambda>x. 0),
     os_mkdir = (\<lambda>w p. True),
     os_create = (\<lambda>w p. True),
     os_ftruncate = (\<lambda>w p n. True),
     os_truncate = (\<lambda>w p n. True),
     os_stat = (\<lambda>w p. Some 8),
     os_open_read = (\<lambda>w p. Some \<lparr>file_bytes = ''%PDF-1.7'', file_error = None\<rparr>),
     jdom_parse = (\<lambda>p. JObj []),
     jschema_ok = True,
     ls_reply_ok = (\<lambda>w. True),
     ls_subscribed = (\<lambda>w h m. True),
     ls_setup_ok = (\<lambda>w c. True),
     cups_get_dests = (\<lambda>w. [sample_dest]),
     cups_get_named_dest = (\<lambda>w p. if p = ''Office'' then Some sample_dest else None),
     http_separate_host = (\<lambda>u. None),
     cups_connect_dest = (\<lambda>w n. True),
     cups_copy_dest_info = (\<lambda>w n h. True),
     cups_find_supported = (\<lambda>w n h a. None),
     cups_check_supported = (\<lambda>w n h a v. True),
     cups_create_job = (\<lambda>w n t os. 7),
     cups_start_document = (\<lambda>w n j p f l. True),
     cups_write_data = (\<lambda>w d. True),
     cups_finish_document = (\<lambda>w n. True),
     cups_last_error = (\<lambda>w. 0),
     cups_cancel_job = (\<lambda>w n j. True),
     cups_get_jobs = (\<lambda>w n a. []),
     cups_do_request = (\<lambda>w opn u os. True)\<rparr>"

text \<open>The same, where every message carries the object \<open>fs\<close>.\<close>

definition sample_env_with :: "(string \<times> json) list \<Rightarrow> sample_store env" where
  "sample_env_with fs = sample_env\<lparr>jdom_parse := (\<lambda>p. JObj fs)\<rparr>"

definition sample_message :: lsmessage where
  "sample_message = \<lparr>msg_payload = ''{}'', msg_is_subscription = False\<rparr>"

end
