(* ===== verification/Job_Manager.thy ===== *)
theory Job_Manager
  imports Service_World Print_Area Sample_Env
begin

text \<open>
  The second half of \<open>src/job_manager.c\<close>, with \<open>src/job_manager.h\<close>: the job records, the table
  of jobs and their spool files. A pointer to a job is its key in the table; \<open>jm_put\<close> is what a
  handler's assignments through such a pointer amount to. The program never stores NULL in a
  job's strings, except where the field here is an option.
\<close>

section \<open>Data\<close>

datatype job_phase = JOB_PHASE_OPEN | JOB_PHASE_SUBMITTED | JOB_PHASE_DONE | JOB_PHASE_CANCELLED

record print_job =
  job_id :: int
  cups_job_id :: int
  job_printer_id :: string
  description :: string
  app_name :: string
  params :: print_params
  files :: "string list"
  temp_files :: "string list"
  temp_dir :: "string option"
  phase :: job_phase
  render_result_code :: int
  render_result_set :: bool
  render_result_text :: "string option"
  current_page :: int
  total_pages :: int
  last_printer_state :: "string option"
  queued_at :: int
  started_at :: int

record job_manager =
  spool_root :: string
  jm_jobs :: "(int \<times> print_job) list"
  next_job_id :: int

text \<open>The order of the phases in a job's life, for the library's order lemmas.\<close>

fun phase_rank :: "job_phase \<Rightarrow> nat" where
  "phase_rank JOB_PHASE_OPEN = 0"
| "phase_rank JOB_PHASE_SUBMITTED = 1"
| "phase_rank JOB_PHASE_DONE = 2"
| "phase_rank JOB_PHASE_CANCELLED = 3"

lemma phase_rank_inj [simp]: "phase_rank p = phase_rank q \<longleftrightarrow> p = q"
  by (cases p; cases q) simp_all

instantiation job_phase :: linorder
begin

definition less_eq_job_phase :: "job_phase \<Rightarrow> job_phase \<Rightarrow> bool" where
  "less_eq_job_phase p q \<longleftrightarrow> phase_rank p \<le> phase_rank q"

definition less_job_phase :: "job_phase \<Rightarrow> job_phase \<Rightarrow> bool" where
  "less_job_phase p q \<longleftrightarrow> phase_rank p < phase_rank q"

instance
  by standard (auto simp: less_eq_job_phase_def less_job_phase_def)

end

lemma phase_le_cancelled [simp]: "p \<le> JOB_PHASE_CANCELLED"
  by (cases p) (simp_all add: less_eq_job_phase_def)

lemma phase_open_le [simp]: "JOB_PHASE_OPEN \<le> p"
  by (simp add: less_eq_job_phase_def)

lemma phase_submitted_le_done [simp]: "JOB_PHASE_SUBMITTED \<le> JOB_PHASE_DONE"
  by (simp add: less_eq_job_phase_def)

section \<open>The table of jobs\<close>

definition job_free :: "print_job \<Rightarrow> world \<Rightarrow> world" where
  "job_free job w =
     w @ map Unlink (temp_files job) @ (case temp_dir job of None \<Rightarrow> [] | Some d \<Rightarrow> [Rmdir d])"

definition job_manager_new :: "string \<Rightarrow> world \<Rightarrow> job_manager \<times> world" where
  "job_manager_new sroot w =
     (\<lparr>spool_root = sroot, jm_jobs = [], next_job_id = 1\<rparr>, w @ [Mkdir sroot])"

definition job_manager_find :: "job_manager \<Rightarrow> int \<Rightarrow> print_job option" where
  "job_manager_find jm k = map_of (jm_jobs jm) k"

text \<open>The values of the hash table, as pointers, in the order GLib happens to keep them.\<close>

definition job_manager_list :: "'k env \<Rightarrow> job_manager \<Rightarrow> int list" where
  "job_manager_list E jm = hash_order E (map fst (jm_jobs jm))"

text \<open>\<open>g_hash_table_insert\<close> frees the value it replaces.\<close>

definition jm_insert :: "job_manager \<Rightarrow> print_job \<Rightarrow> world \<Rightarrow> job_manager \<times> world" where
  "jm_insert jm job w =
     (jm\<lparr>jm_jobs := AList.update (job_id job) job (jm_jobs jm)\<rparr>,
      (case job_manager_find jm (job_id job) of None \<Rightarrow> w | Some old \<Rightarrow> job_free old w))"

definition jm_put :: "job_manager \<Rightarrow> print_job \<Rightarrow> job_manager" where
  "jm_put jm job = jm\<lparr>jm_jobs := AList.update (job_id job) job (jm_jobs jm)\<rparr>"

definition job_dir :: "string \<Rightarrow> int \<Rightarrow> string" where
  "job_dir sroot k = sroot @ ''/job-'' @ show_int k"

definition job_manager_open ::
    "'k env \<Rightarrow> job_manager \<Rightarrow> string \<Rightarrow> string \<Rightarrow> string \<Rightarrow> world \<Rightarrow>
     print_job \<times> job_manager \<times> world" where
  "job_manager_open E jm pid desc app w =
     (let k = next_job_id jm;
          now = monotonic_time E w;
          w1 = w @ [Clock];
          dir = job_dir (spool_root jm) k;
          made = os_mkdir E w1 dir;
          w2 = w1 @ [Mkdir dir];
          job = \<lparr>job_id = k, cups_job_id = -1, job_printer_id = pid, description = desc,
                 app_name = app, params = print_params_init, files = [], temp_files = [],
                 temp_dir = (if made then Some dir else None), phase = JOB_PHASE_OPEN,
                 render_result_code = 0, render_result_set = False, render_result_text = None,
                 current_page = 0, total_pages = -1, last_printer_state = None,
                 queued_at = now, started_at = 0\<rparr>;
          (jm', w3) = jm_insert (jm\<lparr>next_job_id := int32 (k + 1)\<rparr>) job w2
      in (job, jm', w3))"

definition job_manager_remove :: "job_manager \<Rightarrow> int \<Rightarrow> world \<Rightarrow> job_manager \<times> world" where
  "job_manager_remove jm k w =
     (jm\<lparr>jm_jobs := AList.delete k (jm_jobs jm)\<rparr>,
      (case job_manager_find jm k of None \<Rightarrow> w | Some old \<Rightarrow> job_free old w))"

definition job_manager_free :: "'k env \<Rightarrow> job_manager \<Rightarrow> world \<Rightarrow> world" where
  "job_manager_free E jm w =
     fold (\<lambda>k v. case job_manager_find jm k of None \<Rightarrow> v | Some job \<Rightarrow> job_free job v)
       (job_manager_list E jm) w"

section \<open>Spool files\<close>

definition page_path :: "string \<Rightarrow> nat \<Rightarrow> string \<Rightarrow> string" where
  "page_path dir n ext = dir @ ''/page-'' @ show_pad3 n @ ''.'' @ ext"

definition job_manager_new_temp_file ::
    "'k env \<Rightarrow> print_job \<Rightarrow> string option \<Rightarrow> int \<Rightarrow> world \<Rightarrow> (int + string) \<times> print_job \<times> world" where
  "job_manager_new_temp_file E job extension fsize w =
     (case extension of
        None \<Rightarrow> (Inl PM_ERR_EMPTY_FILE_EXTENSION, job, w)
      | Some ext \<Rightarrow>
          if ext = [] then (Inl PM_ERR_EMPTY_FILE_EXTENSION, job, w)
          else (case temp_dir job of
            None \<Rightarrow> (Inl PM_ERR_NO_FILECACHE_PATH, job, w)
          | Some dir \<Rightarrow>
              let path = page_path dir (length (temp_files job) + 1) ext;
                  opened = os_create E w path;
                  w1 = w @ [Create path]
              in if \<not> opened then (Inl PM_ERR_NO_FILECACHE_PATH, job, w1)
                 else if 0 < fsize \<and> \<not> os_ftruncate E w1 path fsize
                 then (Inl PM_ERR_JOB_TEMP_FILE_NO_ROOM, job,
                       w1 @ [Ftruncate path fsize, Unlink path])
                 else (Inr path, job\<lparr>temp_files := temp_files job @ [path]\<rparr>,
                       if 0 < fsize then w1 @ [Ftruncate path fsize] else w1)))"

definition job_manager_resize_temp_file ::
    "'k env \<Rightarrow> print_job \<Rightarrow> string \<Rightarrow> int \<Rightarrow> world \<Rightarrow> (int + unit) \<times> world" where
  "job_manager_resize_temp_file E job path new_size w =
     (if path \<notin> set (temp_files job) then (Inl PM_ERR_FILE_NOT_IN_ANY_JOB, w)
      else if \<not> os_truncate E w path new_size
      then (Inl PM_ERR_TEMP_FILE_TOO_LARGE, w @ [Truncate path new_size])
      else (Inr (), w @ [Truncate path new_size]))"

section \<open>Well-formed tables\<close>

text \<open>
  Every scratch file of a job is a numbered page in the job's own directory, in the order of
  creation; the extension is the client's.
\<close>

definition job_wf :: "string \<Rightarrow> print_job \<Rightarrow> bool" where
  "job_wf sroot job \<longleftrightarrow>
     (\<forall>d. temp_dir job = Some d \<longrightarrow> d = job_dir sroot (job_id job)) \<and>
     (\<forall>i < length (temp_files job).
        \<exists>ext. temp_files job ! i = page_path (job_dir sroot (job_id job)) (i + 1) ext)"

definition jm_inv :: "job_manager \<Rightarrow> bool" where
  "jm_inv jm \<longleftrightarrow> distinct (map fst (jm_jobs jm)) \<and> 1 \<le> next_job_id jm \<and>
     (\<forall>k job. job_manager_find jm k = Some job \<longrightarrow>
        job_id job = k \<and> 1 \<le> k \<and> k < next_job_id jm \<and> job_wf (spool_root jm) job)"

lemma jm_invD:
  assumes "jm_inv jm" "job_manager_find jm k = Some job"
  shows "job_id job = k" "1 \<le> k" "k < next_job_id jm" "job_wf (spool_root jm) job"
  using assms by (auto simp: jm_inv_def)

text \<open>
  What the handlers use of the table: assigning through the pointer of a job changes that job and
  no other, removing a job removes no other, and the keys are the job numbers.
\<close>

locale job_store =
  fixes find :: "'m \<Rightarrow> int \<Rightarrow> 'j option"
    and put :: "'m \<Rightarrow> 'j \<Rightarrow> 'm"
    and del :: "'m \<Rightarrow> int \<Rightarrow> 'm"
    and key :: "'j \<Rightarrow> int"
    and nxt :: "'m \<Rightarrow> int"
    and inv :: "'m \<Rightarrow> bool"
    and wf :: "'m \<Rightarrow> 'j \<Rightarrow> bool"
  assumes find_put: "find (put m j) k = (if k = key j then Some j else find m k)"
    and find_del: "find (del m d) k = (if k = d then None else find m k)"
    and nxt_put: "nxt (put m j) = nxt m"
    and nxt_del: "nxt (del m d) = nxt m"
    and inv_key: "inv m \<Longrightarrow> find m k = Some j \<Longrightarrow> key j = k \<and> 1 \<le> k \<and> k < nxt m \<and> wf m j"
    and inv_put: "inv m \<Longrightarrow> find m (key j) \<noteq> None \<Longrightarrow> wf m j \<Longrightarrow> inv (put m j)"
    and inv_del: "inv m \<Longrightarrow> inv (del m d)"
begin

lemma put_self: "inv m \<Longrightarrow> find m k = Some j \<Longrightarrow> find (put m j) = find m"
  using inv_key by (fastforce simp: fun_eq_iff find_put)

lemma put_put: "key i = key j \<Longrightarrow> find (put (put m i) j) = find (put m j)"
  by (auto simp: fun_eq_iff find_put)

text \<open>A change of one job along a reflexive relation is such a change of every job.\<close>

lemma put_changes:
  assumes "inv m" "find m k = Some i" "key j = key i" "R i j" "\<And>x. R x x"
    and "find m l = Some x"
  shows "\<exists>y. find (put m j) l = Some y \<and> R x y"
  using assms inv_key [OF assms(1,2)] by (cases "l = k") (auto simp: find_put)

lemma del_put: "key j = d \<Longrightarrow> k \<noteq> d \<Longrightarrow> find (del (put m j) d) k = find m k"
  by (simp add: find_put find_del)

lemma fresh: "inv m \<Longrightarrow> nxt m \<le> k \<Longrightarrow> find m k = None"
  using inv_key by (cases "find m k") fastforce+

end

definition jm_del :: "job_manager \<Rightarrow> int \<Rightarrow> job_manager" where
  "jm_del jm k = jm\<lparr>jm_jobs := AList.delete k (jm_jobs jm)\<rparr>"

lemma jm_put_simps [simp]:
  "job_manager_find (jm_put jm j) k = (if k = job_id j then Some j else job_manager_find jm k)"
  "next_job_id (jm_put jm j) = next_job_id jm" "spool_root (jm_put jm j) = spool_root jm"
  by (simp_all add: jm_put_def job_manager_find_def)

lemma jm_del_simps [simp]:
  "job_manager_find (jm_del jm d) k = (if k = d then None else job_manager_find jm k)"
  "next_job_id (jm_del jm d) = next_job_id jm" "spool_root (jm_del jm d) = spool_root jm"
  by (simp_all add: jm_del_def job_manager_find_def)

lemma distinct_keys_put: "distinct (map fst (jm_jobs jm)) \<Longrightarrow> distinct (map fst (jm_jobs (jm_put jm j)))"
  by (simp add: jm_put_def distinct_update)

lemma distinct_keys_del: "distinct (map fst (jm_jobs jm)) \<Longrightarrow> distinct (map fst (jm_jobs (jm_del jm d)))"
  by (simp add: jm_del_def distinct_delete)

interpretation store: job_store job_manager_find jm_put jm_del job_id next_job_id jm_inv
  "\<lambda>jm. job_wf (spool_root jm)"
proof
  fix m j
  assume "jm_inv m" "job_manager_find m (job_id j) \<noteq> None" "job_wf (spool_root m) j"
  then show "jm_inv (jm_put m j)"
    by (auto simp: jm_inv_def distinct_keys_put)
next
  fix m d
  assume "jm_inv m"
  then show "jm_inv (jm_del m d)"
    by (auto simp: jm_inv_def distinct_keys_del split: if_splits)
qed (auto dest: jm_invD)

section \<open>Opening and removing\<close>

definition fresh_job :: "'k env \<Rightarrow> job_manager \<Rightarrow> string \<Rightarrow> string \<Rightarrow> string \<Rightarrow> world \<Rightarrow> print_job" where
  "fresh_job E jm pid desc app w =
     \<lparr>job_id = next_job_id jm, cups_job_id = -1, job_printer_id = pid, description = desc,
      app_name = app, params = print_params_init, files = [], temp_files = [],
      temp_dir = (if os_mkdir E (w @ [Clock]) (job_dir (spool_root jm) (next_job_id jm))
                  then Some (job_dir (spool_root jm) (next_job_id jm)) else None),
      phase = JOB_PHASE_OPEN,
      render_result_code = 0, render_result_set = False, render_result_text = None,
      current_page = 0, total_pages = -1, last_printer_state = None,
      queued_at = monotonic_time E w, started_at = 0\<rparr>"

text \<open>
  The counter is an \<open>int\<close>: \<open>next_job_id++\<close> overflows at the largest one, which C leaves undefined and
  which wraps around in the model. \<open>ids_left\<close> says that the next number is not the last.
\<close>

definition ids_left :: "job_manager \<Rightarrow> bool" where
  "ids_left jm \<longleftrightarrow> next_job_id jm < 2 ^ 31 - 1"

lemma next_id_counts: "jm_inv jm \<Longrightarrow> ids_left jm \<Longrightarrow> int32 (next_job_id jm + 1) = next_job_id jm + 1"
  by (intro int32_id) (simp add: jm_inv_def ids_left_def int_range_def)

lemma ids_left_update [simp]: "ids_left (jm_put jm j) = ids_left jm" "ids_left (jm_del jm d) = ids_left jm"
  by (simp_all add: ids_left_def)

lemma ids_run_out: "next_job_id jm = 2 ^ 31 - 1 \<Longrightarrow>
    next_job_id (fst (snd (job_manager_open E jm pid desc app w))) = - (2 ^ 31)"
  by (simp add: job_manager_open_def jm_insert_def Let_def int32_def)

lemma open_eq:
  assumes "jm_inv jm" "ids_left jm"
  shows "job_manager_open E jm pid desc app w =
    (fresh_job E jm pid desc app w,
     jm_put (jm\<lparr>next_job_id := next_job_id jm + 1\<rparr>) (fresh_job E jm pid desc app w),
     w @ [Clock, Mkdir (job_dir (spool_root jm) (next_job_id jm))])"
proof -
  have "job_manager_find jm (next_job_id jm) = None"
    using store.fresh [OF assms(1) order_refl] .
  then show ?thesis
    by (simp add: next_id_counts [OF assms] job_manager_open_def jm_insert_def fresh_job_def jm_put_def Let_def
        job_manager_find_def)
qed

lemma fresh_job_simps [simp]:
  "job_id (fresh_job E jm pid desc app w) = next_job_id jm"
  "job_printer_id (fresh_job E jm pid desc app w) = pid"
  "params (fresh_job E jm pid desc app w) = print_params_init"
  "files (fresh_job E jm pid desc app w) = []"
  "temp_files (fresh_job E jm pid desc app w) = []"
  "phase (fresh_job E jm pid desc app w) = JOB_PHASE_OPEN"
  "last_printer_state (fresh_job E jm pid desc app w) = None"
  "cups_job_id (fresh_job E jm pid desc app w) = -1"
  "description (fresh_job E jm pid desc app w) = desc"
  "app_name (fresh_job E jm pid desc app w) = app"
  by (simp_all add: fresh_job_def)

lemma find_next_update [simp]:
  "job_manager_find (jm\<lparr>next_job_id := n\<rparr>) k = job_manager_find jm k"
  by (simp add: job_manager_find_def)

lemma open_inv:
  assumes "jm_inv jm"
  shows "jm_inv (jm_put (jm\<lparr>next_job_id := next_job_id jm + 1\<rparr>) (fresh_job E jm pid desc app w))"
proof -
  have "job_wf (spool_root jm) (fresh_job E jm pid desc app w)"
    by (simp add: job_wf_def fresh_job_def)
  then show ?thesis
    using assms by (auto simp: jm_inv_def distinct_keys_put split: if_splits) fastforce+
qed

lemma remove_eq:
  "job_manager_remove jm k w =
     (jm_del jm k, (case job_manager_find jm k of None \<Rightarrow> w | Some old \<Rightarrow> job_free old w))"
  by (simp add: job_manager_remove_def jm_del_def)

lemma job_free_quiet: "extends quiet w (job_free job w)"
  by (auto simp: job_free_def extends_def list_all_iff split: option.splits)

lemma remove_quiet: "extends quiet w (snd (job_manager_remove jm k w))"
  by (simp add: remove_eq job_free_quiet split: option.splits)

section \<open>Spool files\<close>

lemma new_temp_file_job:
  assumes "job_manager_new_temp_file E job ext n w = (r, job1, w1)"
  shows "job1 = job \<or> (\<exists>dir x. temp_dir job = Some dir \<and>
    job1 = job\<lparr>temp_files := temp_files job @ [page_path dir (length (temp_files job) + 1) x]\<rparr>)"
  using assms by (auto simp: job_manager_new_temp_file_def Let_def split: option.splits if_splits)

lemma new_temp_file_quiet:
  "job_manager_new_temp_file E job ext n w = (r, job1, w1) \<Longrightarrow> extends quiet w w1"
  by (auto simp: job_manager_new_temp_file_def Let_def extends_def split: option.splits if_splits)

lemma new_temp_file_error:
  "job_manager_new_temp_file E job ext n w = (Inl e, job1, w1) \<Longrightarrow> known_error e \<and> job1 = job"
  by (auto simp: job_manager_new_temp_file_def Let_def split: option.splits if_splits)

lemma job_wf_temp_file:
  assumes "job_wf sroot job" "temp_dir job = Some dir"
  shows "job_wf sroot (job\<lparr>temp_files := temp_files job @ [page_path dir (length (temp_files job) + 1) x]\<rparr>)"
  using assms by (auto simp: job_wf_def nth_append less_Suc_eq)

lemma resize_quiet: "extends quiet w (snd (job_manager_resize_temp_file E job path n w))"
  by (simp add: job_manager_resize_temp_file_def)

lemma resize_error:
  "job_manager_resize_temp_file E job path n w = (Inl e, w1) \<Longrightarrow> known_error e"
  by (auto simp: job_manager_resize_temp_file_def split: if_splits)

text \<open>The numbers in a page's path can be read off it.\<close>

lemma page_path_inj:
  assumes "1 \<le> k" "1 \<le> l"
    and "page_path (job_dir r k) i x = page_path (job_dir r l) j y"
  shows "k = l \<and> i = j"
proof -
  have nd: "\<not> is_digit (CHR ''/'')" by (simp add: is_digit_def)
  have "show_int k @ CHR ''/'' # (''page-'' @ show_pad3 i @ ''.'' @ x) =
        show_int l @ CHR ''/'' # (''page-'' @ show_pad3 j @ ''.'' @ y)"
    using assms(3) by (simp add: page_path_def job_dir_def)
  moreover have "\<And>c. c \<in> set (show_int k) \<Longrightarrow> is_digit c" "\<And>c. c \<in> set (show_int l) \<Longrightarrow> is_digit c"
    using assms(1,2) by (simp_all add: show_int_def show_nat_digits)
  ultimately have kl: "show_int k = show_int l"
    using digits_split_unique nd by blast
  then have 1: "k = l"
    by (metis scan_show_int)
  have "show_pad3 i @ CHR ''.'' # x = show_pad3 j @ CHR ''.'' # y"
    using assms(3) 1 by (simp add: page_path_def)
  then have "show_pad3 i = show_pad3 j"
    using digits_split_unique [of "show_pad3 i" "show_pad3 j" "CHR ''.''"] show_pad3_digits
    by (metis sign_not_digit(3))
  then have "i = j" by (metis read_show_pad3)
  with 1 show ?thesis by simp
qed

lemma job_wf_nth:
  assumes "job_wf r job" "path \<in> set (temp_files job)"
  obtains i x where "i < length (temp_files job)" "temp_files job ! i = path"
    "path = page_path (job_dir r (job_id job)) (i + 1) x"
  using assms unfolding job_wf_def in_set_conv_nth by metis

lemma job_wf_distinct:
  assumes "job_wf r job" "1 \<le> job_id job"
  shows "distinct (temp_files job)"
  unfolding distinct_conv_nth
proof (intro allI impI)
  fix i j
  assume *: "i < length (temp_files job)" "j < length (temp_files job)" "i \<noteq> j"
  obtain x y where "temp_files job ! i = page_path (job_dir r (job_id job)) (i + 1) x"
    "temp_files job ! j = page_path (job_dir r (job_id job)) (j + 1) y"
    using assms(1) * unfolding job_wf_def by blast
  then show "temp_files job ! i \<noteq> temp_files job ! j"
    using page_path_inj [OF assms(2,2)] *(3) by (metis add_right_cancel)
qed

lemma temp_file_owner_unique:
  assumes "jm_inv jm" "job_manager_find jm k = Some a" "job_manager_find jm l = Some b"
    and "path \<in> set (temp_files a)" "path \<in> set (temp_files b)"
  shows "k = l"
proof -
  note a = jm_invD [OF assms(1,2)] and b = jm_invD [OF assms(1,3)]
  obtain i x where "path = page_path (job_dir (spool_root jm) k) (i + 1) x"
    using job_wf_nth [OF a(4) assms(4)] a(1) by metis
  moreover obtain j y where "path = page_path (job_dir (spool_root jm) l) (j + 1) y"
    using job_wf_nth [OF b(4) assms(5)] b(1) by metis
  ultimately show ?thesis
    using page_path_inj [OF a(2) b(2)] by metis
qed

section \<open>Properties\<close>

lemma open_fresh_job:
  assumes "jm_inv jm" "ids_left jm" "job_manager_open E jm pid desc app w = (job, jm', w')"
  shows "job = fresh_job E jm pid desc app w" "job_manager_find jm (job_id job) = None"
    "job_manager_find jm' = (job_manager_find jm)(job_id job \<mapsto> job)"
    "job_id job = next_job_id jm" "next_job_id jm' = next_job_id jm + 1" "jm_inv jm'"
    "w' = w @ [Clock, Mkdir (job_dir (spool_root jm) (job_id job))]"
proof -
  have *: "job = fresh_job E jm pid desc app w"
    "jm' = jm_put (jm\<lparr>next_job_id := next_job_id jm + 1\<rparr>) (fresh_job E jm pid desc app w)"
    "w' = w @ [Clock, Mkdir (job_dir (spool_root jm) (next_job_id jm))]"
    using assms(3) unfolding open_eq [OF assms(1,2)] by auto
  then show "job = fresh_job E jm pid desc app w" "job_manager_find jm (job_id job) = None"
    "job_manager_find jm' = (job_manager_find jm)(job_id job \<mapsto> job)"
    "job_id job = next_job_id jm" "next_job_id jm' = next_job_id jm + 1" "jm_inv jm'"
    "w' = w @ [Clock, Mkdir (job_dir (spool_root jm) (job_id job))]"
    using store.fresh [OF assms(1) order_refl] open_inv [OF assms(1)] by (simp_all add: fun_eq_iff)
qed

definition sample_jm :: job_manager where
  "sample_jm = \<lparr>spool_root = ''spool'', jm_jobs = [], next_job_id = 1\<rparr>"

lemma sample_jm_inv: "jm_inv sample_jm" "ids_left sample_jm"
  by (simp_all add: sample_jm_def jm_inv_def job_manager_find_def ids_left_def)

text \<open>
  \<open>newTempFile\<close> either adds exactly one file, the next numbered page in the job's directory, which
  was created and, when a size was asked for, grown to it; or it changes nothing of the job and
  leaves no new file behind, with the error that names the reason.
\<close>

lemma new_temp_file_outcomes:
  assumes "job_manager_new_temp_file E job extension n w = (r, job1, v)"
  shows "case r of
      Inr path \<Rightarrow> (\<exists>dir ext. temp_dir job = Some dir \<and> extension = Some ext \<and> ext \<noteq> [] \<and>
          path = page_path dir (length (temp_files job) + 1) ext \<and>
          job1 = job\<lparr>temp_files := temp_files job @ [path]\<rparr> \<and> os_create E w path \<and>
          v = w @ Create path # (if 0 < n then [Ftruncate path n] else []))
    | Inl e \<Rightarrow> job1 = job \<and>
          (e = PM_ERR_EMPTY_FILE_EXTENSION \<and> v = w \<and> (extension = None \<or> extension = Some [])
           \<or> e = PM_ERR_NO_FILECACHE_PATH \<and> (v = w \<and> temp_dir job = None
               \<or> (\<exists>path. v = w @ [Create path] \<and> \<not> os_create E w path))
           \<or> e = PM_ERR_JOB_TEMP_FILE_NO_ROOM \<and> 0 < n \<and>
               (\<exists>path. v = w @ [Create path, Ftruncate path n, Unlink path]))"
  using assms by (auto simp: job_manager_new_temp_file_def Let_def split: option.splits if_splits)

end
