(* ===== verification/Printer_Db.thy ===== *)
theory Printer_Db
  imports Service_World Print_Errors Sample_Env
begin

text \<open>
  Model of \<open>src/printer_db.h\<close> and \<open>src/printer_db.c\<close>: the manually added printers and the current
  printer, kept in a GLib key file. The key file is a parameter (the \<open>kf_\<close> functions of the
  environment); \<open>keyfile_ok\<close> states what its documentation promises.
\<close>

section \<open>Data\<close>

record printer_record =
  rec_printer_id :: string
  rec_printer_name :: "string option"
  rec_printer_address :: "string option"
  rec_ssid :: "string option"

record 'k printer_db =
  db_path :: string
  db_keyfile :: 'k
  db_scratch :: "printer_record option"
  db_current_cache :: "string option"

abbreviation GROUP_SETTINGS :: string where
  "GROUP_SETTINGS \<equiv> ''settings''"

abbreviation KEY_CURRENT :: string where
  "KEY_CURRENT \<equiv> ''currentPrinter''"

section \<open>Operations\<close>

text \<open>
  \<open>kf_load\<close> is what the new key file holds after the load, whose result the code ignores: the file
  as read, nothing when there is no file, and what was parsed up to the error of a damaged one.
\<close>

definition printer_db_open :: "'k env \<Rightarrow> string \<Rightarrow> world \<Rightarrow> 'k printer_db \<times> world" where
  "printer_db_open E path w =
     (let w1 = w @ [Mkdir (path_dirname E path)]
      in (\<lparr>db_path = path, db_keyfile = kf_load E w1 path, db_scratch = None, db_current_cache = None\<rparr>,
          w1 @ [Keyfile_load path]))"

definition db_flush :: "'k env \<Rightarrow> 'k printer_db \<Rightarrow> world \<Rightarrow> bool \<times> world" where
  "db_flush E db w = (kf_save E w (db_keyfile db) (db_path db), w @ [Keyfile_save (db_path db)])"

definition group_is_printer :: "string \<Rightarrow> bool" where
  "group_is_printer grp \<longleftrightarrow> grp \<noteq> GROUP_SETTINGS"

fun address_taken :: "'k env \<Rightarrow> 'k \<Rightarrow> string list \<Rightarrow> string option \<Rightarrow> bool" where
  "address_taken E kf [] printer_address = False"
| "address_taken E kf (g # groups) printer_address =
     (if \<not> group_is_printer g then address_taken E kf groups printer_address
      else (case kf_get_string E kf g ''printerAddress'' of
          None \<Rightarrow> address_taken E kf groups printer_address
        | Some addr \<Rightarrow>
            if printer_address = Some addr then True
            else address_taken E kf groups printer_address))"

definition printer_db_add ::
    "'k env \<Rightarrow> 'k printer_db \<Rightarrow> string \<Rightarrow> string option \<Rightarrow> string option \<Rightarrow> string option \<Rightarrow>
     world \<Rightarrow> (int + unit) \<times> 'k printer_db \<times> world" where
  "printer_db_add E db printer_id printer_name printer_address ssid w =
     (let kf = db_keyfile db in
      if kf_has_group E kf printer_id then (Inl PM_ERR_PRINTER_DUPLICATE_ID, db, w)
      else if address_taken E kf (kf_get_groups E kf) printer_address
      then (Inl PM_ERR_PRINTER_DUPLICATE_IP, db, w)
      else
        let kf1 = kf_set_string E kf printer_id ''printerName''
                    (case printer_name of None \<Rightarrow> printer_id | Some n \<Rightarrow> n);
            kf2 = kf_set_string E kf1 printer_id ''printerAddress''
                    (case printer_address of None \<Rightarrow> [] | Some a \<Rightarrow> a);
            kf3 = kf_set_string E kf2 printer_id ''ssid'' (case ssid of None \<Rightarrow> [] | Some s \<Rightarrow> s);
            db3 = db\<lparr>db_keyfile := kf3\<rparr>;
            (ok, w1) = db_flush E db3 w
        in if \<not> ok
           then (Inl PM_ERR_PRINTER_DB_ACCESS,
                 db3\<lparr>db_keyfile := (case kf_remove_group E kf3 printer_id of None \<Rightarrow> kf3 | Some k \<Rightarrow> k)\<rparr>,
                 w1)
           else (Inr (), db3, w1))"

definition printer_db_delete ::
    "'k env \<Rightarrow> 'k printer_db \<Rightarrow> string \<Rightarrow> string option \<Rightarrow> world \<Rightarrow> bool \<times> 'k printer_db \<times> world" where
  "printer_db_delete E db printer_id ssid w =
     (let kf = db_keyfile db;
          mismatch = (case ssid of None \<Rightarrow> False
            | Some s \<Rightarrow> s \<noteq> [] \<and> kf_get_string E kf printer_id ''ssid'' \<noteq> Some s)
      in
      if \<not> kf_has_group E kf printer_id then (False, db, w)
      else if mismatch then (False, db, w)
      else (case kf_remove_group E kf printer_id of
          None \<Rightarrow> (False, db, w)
        | Some kf1 \<Rightarrow>
            let kf2 = (if kf_get_string E kf1 GROUP_SETTINGS KEY_CURRENT = Some printer_id
                       then kf_remove_key E kf1 GROUP_SETTINGS KEY_CURRENT else kf1);
                db2 = db\<lparr>db_keyfile := kf2\<rparr>;
                (ok, w1) = db_flush E db2 w
            in (ok, db2, w1)))"

definition record_of :: "'k env \<Rightarrow> 'k \<Rightarrow> string \<Rightarrow> printer_record" where
  "record_of E kf g =
     \<lparr>rec_printer_id = g, rec_printer_name = kf_get_string E kf g ''printerName'',
      rec_printer_address = kf_get_string E kf g ''printerAddress'',
      rec_ssid = kf_get_string E kf g ''ssid''\<rparr>"

fun list_groups :: "'k env \<Rightarrow> 'k \<Rightarrow> string list \<Rightarrow> string option \<Rightarrow> printer_record list" where
  "list_groups E kf [] ssid_filter = []"
| "list_groups E kf (g # groups) ssid_filter =
     (let ssid = kf_get_string E kf g ''ssid'';
          skip = (case ssid_filter of None \<Rightarrow> False
            | Some f \<Rightarrow> f \<noteq> (case ssid of None \<Rightarrow> [] | Some s \<Rightarrow> s))
      in if \<not> group_is_printer g then list_groups E kf groups ssid_filter
         else if skip then list_groups E kf groups ssid_filter
         else record_of E kf g # list_groups E kf groups ssid_filter)"

definition printer_db_list :: "'k env \<Rightarrow> 'k printer_db \<Rightarrow> string option \<Rightarrow> printer_record list" where
  "printer_db_list E db ssid_filter =
     list_groups E (db_keyfile db) (kf_get_groups E (db_keyfile db)) ssid_filter"

definition printer_db_find ::
    "'k env \<Rightarrow> 'k printer_db \<Rightarrow> string option \<Rightarrow> printer_record option \<times> 'k printer_db" where
  "printer_db_find E db printer_id =
     (case printer_id of
        None \<Rightarrow> (None, db)
      | Some pid \<Rightarrow>
          if \<not> kf_has_group E (db_keyfile db) pid then (None, db)
          else (let r = record_of E (db_keyfile db) pid in (Some r, db\<lparr>db_scratch := Some r\<rparr>)))"

definition printer_db_get_current :: "'k env \<Rightarrow> 'k printer_db \<Rightarrow> string \<times> 'k printer_db" where
  "printer_db_get_current E db =
     (let cur = kf_get_string E (db_keyfile db) GROUP_SETTINGS KEY_CURRENT
      in (case cur of None \<Rightarrow> [] | Some c \<Rightarrow> c, db\<lparr>db_current_cache := cur\<rparr>))"

definition printer_db_set_current ::
    "'k env \<Rightarrow> 'k printer_db \<Rightarrow> string option \<Rightarrow> world \<Rightarrow> bool \<times> 'k printer_db \<times> world" where
  "printer_db_set_current E db printer_id w =
     (let db1 = db\<lparr>db_keyfile := kf_set_string E (db_keyfile db) GROUP_SETTINGS KEY_CURRENT
                    (case printer_id of None \<Rightarrow> [] | Some p \<Rightarrow> p)\<rparr>;
          (ok, w1) = db_flush E db1 w
      in (ok, db1, w1))"

section \<open>What GLib documents of a key file\<close>

text \<open>
  For group names that GLib accepts (\<open>good\<close>, which are UTF-8) and the four keys of the store: a value
  in UTF-8 that was set is read back, the rest stays as it was, and a group exists from when a value
  is set in it until it is removed. \<open>kf_get_groups\<close> lists the groups there are, each once. What is
  read back of a value that is not UTF-8 is left open.
\<close>

definition db_keys :: "string set" where
  "db_keys = {''printerName'', ''printerAddress'', ''ssid'', KEY_CURRENT}"

definition keyfile_ok :: "'k env \<Rightarrow> (string \<Rightarrow> bool) \<Rightarrow> bool" where
  "keyfile_ok E good \<longleftrightarrow>
     good GROUP_SETTINGS \<and> g_utf8_validate E [] \<and> (\<forall>g. good g \<longrightarrow> g_utf8_validate E g) \<and>
     (\<forall>kf g. kf_has_group E kf g \<longleftrightarrow> g \<in> set (kf_get_groups E kf)) \<and>
     (\<forall>kf. distinct (kf_get_groups E kf)) \<and>
     (\<forall>kf g k. \<not> kf_has_group E kf g \<longrightarrow> kf_get_string E kf g k = None) \<and>
     (\<forall>kf g k v g' k'. good g \<longrightarrow> k \<in> db_keys \<longrightarrow> (g' = g \<and> k' = k \<longrightarrow> g_utf8_validate E v) \<longrightarrow>
        kf_get_string E (kf_set_string E kf g k v) g' k' =
          (if g' = g \<and> k' = k then Some v else kf_get_string E kf g' k')) \<and>
     (\<forall>kf g k v g'. good g \<longrightarrow> k \<in> db_keys \<longrightarrow>
        kf_has_group E (kf_set_string E kf g k v) g' = (g' = g \<or> kf_has_group E kf g')) \<and>
     (\<forall>kf g. kf_has_group E kf g \<longrightarrow> (\<exists>kf'. kf_remove_group E kf g = Some kf' \<and>
        (\<forall>g'. kf_has_group E kf' g' \<longleftrightarrow> g' \<noteq> g \<and> kf_has_group E kf g') \<and>
        (\<forall>g' k'. kf_get_string E kf' g' k' = (if g' = g then None else kf_get_string E kf g' k')))) \<and>
     (\<forall>kf g k g' k'. good g \<longrightarrow> k \<in> db_keys \<longrightarrow> kf_get_string E (kf_remove_key E kf g k) g' k' =
        (if g' = g \<and> k' = k then None else kf_get_string E kf g' k')) \<and>
     (\<forall>kf g k g'. good g \<longrightarrow> k \<in> db_keys \<longrightarrow>
        kf_has_group E (kf_remove_key E kf g k) g' = kf_has_group E kf g')"

lemma keyfile_ok_answers [simp]:
  "keyfile_ok (E\<lparr>kf_save := x\<rparr>) good = keyfile_ok E good"
  "keyfile_ok (E\<lparr>jdom_parse := y\<rparr>) good = keyfile_ok E good"
  by (simp_all add: keyfile_ok_def)

lemma sample_keyfile_ok: "keyfile_ok sample_env (\<lambda>g. True)"
proof -
  have upd: "sample_group (AList.update g es kf) h = (if h = g then es else sample_group kf h)" for g es kf h
    by (simp add: sample_group_def)
  have del: "sample_group (AList.delete g kf) h = (if h = g then [] else sample_group kf h)" for g kf h
    by (simp add: sample_group_def)
  have none: "map_of kf g = None \<Longrightarrow> sample_group kf g = []" for kf g
    by (simp add: sample_group_def)
  have groups: "kf_has_group sample_env kf g \<longleftrightarrow> g \<in> set (kf_get_groups sample_env kf)" for kf g
    by (simp add: sample_env_def dom_map_of_conv_image_fst [symmetric] domIff)
  show ?thesis
    unfolding keyfile_ok_def
    by (intro conjI allI impI groups) (auto simp: sample_env_def upd del none)
qed

section \<open>The store as a map\<close>

text \<open>
  What a store holds, abstracting from the key file: the strings of every group, the printers
  and the current printer.
\<close>

definition store_strings :: "'k env \<Rightarrow> 'k printer_db \<Rightarrow> string \<Rightarrow> string \<Rightarrow> string option" where
  "store_strings E db g k = kf_get_string E (db_keyfile db) g k"

definition store_has :: "'k env \<Rightarrow> 'k printer_db \<Rightarrow> string \<Rightarrow> bool" where
  "store_has E db g = kf_has_group E (db_keyfile db) g"

definition same_store :: "'k env \<Rightarrow> 'k printer_db \<Rightarrow> 'k printer_db \<Rightarrow> bool" where
  "same_store E db db' \<longleftrightarrow>
     (\<forall>g. store_has E db' g = store_has E db g) \<and>
     (\<forall>g k. store_strings E db' g k = store_strings E db g k)"

lemma db_keysI [simp]:
  "''printerName'' \<in> db_keys" "''printerAddress'' \<in> db_keys" "''ssid'' \<in> db_keys" "KEY_CURRENT \<in> db_keys"
  by (simp_all add: db_keys_def)

lemma keyfile_okD:
  assumes "keyfile_ok E good"
  shows "good GROUP_SETTINGS"
    and "\<And>kf g. g \<in> set (kf_get_groups E kf) \<longleftrightarrow> kf_has_group E kf g"
    and "\<And>kf. distinct (kf_get_groups E kf)"
    and "\<And>kf g k. \<not> kf_has_group E kf g \<Longrightarrow> kf_get_string E kf g k = None"
    and "\<And>kf g k v g' k'. good g \<Longrightarrow> k \<in> db_keys \<Longrightarrow> (g' = g \<and> k' = k \<longrightarrow> g_utf8_validate E v) \<Longrightarrow>
        kf_get_string E (kf_set_string E kf g k v) g' k' =
          (if g' = g \<and> k' = k then Some v else kf_get_string E kf g' k')"
    and "\<And>kf g k v g'. good g \<Longrightarrow> k \<in> db_keys \<Longrightarrow>
        kf_has_group E (kf_set_string E kf g k v) g' = (g' = g \<or> kf_has_group E kf g')"
    and "\<And>kf k g' k'. k \<in> db_keys \<Longrightarrow> kf_get_string E (kf_remove_key E kf GROUP_SETTINGS k) g' k' =
        (if g' = GROUP_SETTINGS \<and> k' = k then None else kf_get_string E kf g' k')"
    and "\<And>kf k g'. k \<in> db_keys \<Longrightarrow>
        kf_has_group E (kf_remove_key E kf GROUP_SETTINGS k) g' = kf_has_group E kf g'"
    and "\<And>g. good g \<Longrightarrow> g_utf8_validate E g" and "g_utf8_validate E []"
proof -
  note k = assms [unfolded keyfile_ok_def]
  note r1 = k [THEN conjunct2] note r2 = r1 [THEN conjunct2] note r3 = r2 [THEN conjunct2]
  note r4 = r3 [THEN conjunct2] note r5 = r4 [THEN conjunct2] note r6 = r5 [THEN conjunct2]
  note r7 = r6 [THEN conjunct2] note r8 = r7 [THEN conjunct2] note r9 = r8 [THEN conjunct2]
  show settings: "good GROUP_SETTINGS" by (rule k [THEN conjunct1])
  show "g_utf8_validate E []" by (rule r1 [THEN conjunct1])
  show "good g \<Longrightarrow> g_utf8_validate E g" for g
    using r2 [THEN conjunct1] by simp
  show "g \<in> set (kf_get_groups E kf) \<longleftrightarrow> kf_has_group E kf g" for kf g
    using r3 [THEN conjunct1] by simp
  show "distinct (kf_get_groups E kf)" for kf
    using r4 [THEN conjunct1] by simp
  show "\<not> kf_has_group E kf g \<Longrightarrow> kf_get_string E kf g k = None" for kf g k
    using r5 [THEN conjunct1] by simp
  show "good g \<Longrightarrow> k \<in> db_keys \<Longrightarrow> (g' = g \<and> k' = k \<longrightarrow> g_utf8_validate E v) \<Longrightarrow>
      kf_get_string E (kf_set_string E kf g k v) g' k' =
        (if g' = g \<and> k' = k then Some v else kf_get_string E kf g' k')" for kf g k v g' k'
    using r6 [THEN conjunct1] by blast
  show "good g \<Longrightarrow> k \<in> db_keys \<Longrightarrow>
      kf_has_group E (kf_set_string E kf g k v) g' = (g' = g \<or> kf_has_group E kf g')" for kf g k v g'
    using r7 [THEN conjunct1] by blast
  show "k \<in> db_keys \<Longrightarrow> kf_get_string E (kf_remove_key E kf GROUP_SETTINGS k) g' k' =
        (if g' = GROUP_SETTINGS \<and> k' = k then None else kf_get_string E kf g' k')" for kf k g' k'
    using r9 [THEN conjunct1] settings by blast
  show "k \<in> db_keys \<Longrightarrow>
      kf_has_group E (kf_remove_key E kf GROUP_SETTINGS k) g' = kf_has_group E kf g'" for kf k g'
    using r9 [THEN conjunct2] settings by blast
qed

lemma keyfile_ok_remove:
  assumes "keyfile_ok E good" "kf_has_group E kf g"
  obtains kf' where "kf_remove_group E kf g = Some kf'"
    "\<And>g'. kf_has_group E kf' g' \<longleftrightarrow> g' \<noteq> g \<and> kf_has_group E kf g'"
    "\<And>g' k'. kf_get_string E kf' g' k' = (if g' = g then None else kf_get_string E kf g' k')"
proof -
  note k = assms(1) [unfolded keyfile_ok_def]
  note r = k [THEN conjunct2, THEN conjunct2, THEN conjunct2, THEN conjunct2, THEN conjunct2,
      THEN conjunct2, THEN conjunct2, THEN conjunct2, THEN conjunct1, rule_format, OF assms(2)]
  show ?thesis using r that by blast
qed

lemma address_taken_iff:
  "address_taken E kf gs addr \<longleftrightarrow>
     (\<exists>g \<in> set gs. g \<noteq> GROUP_SETTINGS \<and> addr \<noteq> None \<and> kf_get_string E kf g ''printerAddress'' = addr)"
  by (induction gs) (auto simp: group_is_printer_def split: option.splits)

lemma list_groups_eq:
  "list_groups E kf gs f = map (record_of E kf) (filter (\<lambda>g. g \<noteq> GROUP_SETTINGS \<and>
     (case f of None \<Rightarrow> True | Some s \<Rightarrow>
        s = (case kf_get_string E kf g ''ssid'' of None \<Rightarrow> [] | Some t \<Rightarrow> t))) gs)"
  by (induction gs) (auto simp: group_is_printer_def Let_def split: option.splits)

section \<open>The laws of the store\<close>

definition printers_of :: "'k env \<Rightarrow> 'k printer_db \<Rightarrow> string \<Rightarrow> printer_record option" where
  "printers_of E db g =
     (if store_has E db g \<and> g \<noteq> GROUP_SETTINGS then Some (record_of E (db_keyfile db) g) else None)"

definition current_of :: "'k env \<Rightarrow> 'k printer_db \<Rightarrow> string option" where
  "current_of E db = store_strings E db GROUP_SETTINGS KEY_CURRENT"

definition new_record :: "string \<Rightarrow> string option \<Rightarrow> string option \<Rightarrow> string option \<Rightarrow> printer_record" where
  "new_record pid name addr ssid =
     \<lparr>rec_printer_id = pid, rec_printer_name = Some (case name of None \<Rightarrow> pid | Some n \<Rightarrow> n),
      rec_printer_address = Some (case addr of None \<Rightarrow> [] | Some a \<Rightarrow> a),
      rec_ssid = Some (case ssid of None \<Rightarrow> [] | Some s \<Rightarrow> s)\<rparr>"

text \<open>
  The contract of the store, over what it holds: a map from printer ids to records and the
  current printer. \<open>ok\<close> is the assumption on the library underneath, \<open>good\<close> the ids it accepts and
  \<open>str\<close> the values.
\<close>

locale printer_store =
  fixes ok :: "'e \<Rightarrow> (string \<Rightarrow> bool) \<Rightarrow> bool"
    and view :: "'e \<Rightarrow> 'd \<Rightarrow> string \<Rightarrow> 'r option"
    and current :: "'e \<Rightarrow> 'd \<Rightarrow> string option"
    and add :: "'e \<Rightarrow> 'd \<Rightarrow> string \<Rightarrow> string option \<Rightarrow> string option \<Rightarrow> string option \<Rightarrow> world \<Rightarrow>
      (int + unit) \<times> 'd \<times> world"
    and delete :: "'e \<Rightarrow> 'd \<Rightarrow> string \<Rightarrow> string option \<Rightarrow> world \<Rightarrow> bool \<times> 'd \<times> world"
    and set_cur :: "'e \<Rightarrow> 'd \<Rightarrow> string option \<Rightarrow> world \<Rightarrow> bool \<times> 'd \<times> world"
    and entry :: "string \<Rightarrow> string option \<Rightarrow> string option \<Rightarrow> string option \<Rightarrow> 'r"
    and reserved :: string
    and str :: "'e \<Rightarrow> string \<Rightarrow> bool"
  assumes add_view: "ok e good \<Longrightarrow> good pid \<Longrightarrow> pid \<noteq> reserved \<Longrightarrow>
      pred_option (str e) name \<Longrightarrow> pred_option (str e) addr \<Longrightarrow> pred_option (str e) ssid \<Longrightarrow>
      add e d pid name addr ssid w = (Inr u, d', w') \<Longrightarrow>
      view e d pid = None \<and> view e d' = (view e d)(pid \<mapsto> entry pid name addr ssid) \<and>
      current e d' = current e d"
    and add_error: "ok e good \<Longrightarrow> good pid \<Longrightarrow> add e d pid name addr ssid w = (Inl err, d', w') \<Longrightarrow>
      view e d' = view e d \<and> current e d' = current e d"
    and delete_view: "ok e good \<Longrightarrow> pid \<noteq> reserved \<Longrightarrow> delete e d pid ssid w = (True, d', w') \<Longrightarrow>
      view e d' = (view e d)(pid := None) \<and>
      current e d' = (if current e d = Some pid then None else current e d)"
    and set_view: "ok e good \<Longrightarrow> str e pid \<Longrightarrow> set_cur e d (Some pid) w = (b, d', w') \<Longrightarrow>
      view e d' = view e d \<and> current e d' = Some pid"
begin

lemma add_then_delete:
  assumes "ok e good" "good pid" "pid \<noteq> reserved"
    and "pred_option (str e) name" "pred_option (str e) addr" "pred_option (str e) ssid" "add e d pid name addr ssid w = (Inr u, d1, w1)"
    and "delete e d1 pid s w1 = (True, d2, w2)"
  shows "view e d2 = view e d"
  using add_view [OF assms(1-7)] delete_view [OF assms(1,3,8)] by auto

lemma deleted_not_current:
  assumes "ok e good" "pid \<noteq> reserved" "delete e d pid s w = (True, d', w')"
  shows "current e d' \<noteq> Some pid"
  using delete_view [OF assms] by simp

text \<open>The current printer survives every operation that does not delete it or choose another.\<close>

lemma current_survives_add:
  assumes "ok e good" "good pid" "pid \<noteq> reserved"
    and "pred_option (str e) name" "pred_option (str e) addr" "pred_option (str e) ssid"
    and "add e d pid name addr ssid w = (r, d', w')"
  shows "current e d' = current e d"
  using assms add_view [OF assms(1-6)] add_error [OF assms(1,2)] by (cases r) auto

lemma set_then_delete_other:
  assumes "ok e good" "q \<noteq> reserved" "p \<noteq> q" "str e p" "set_cur e d (Some p) w = (b, d1, w1)"
    and "delete e d1 q s w1 = (True, d2, w2)"
  shows "current e d2 = Some p"
  using set_view [OF assms(1,4,5)] delete_view [OF assms(1,2,6)] assms(3) by simp

end

lemma has_simps:
  assumes "keyfile_ok E good" "good g" "k \<in> db_keys"
  shows "kf_has_group E (kf_set_string E kf g k v) h = (h = g \<or> kf_has_group E kf h)"
    and "\<not> (h = g \<and> l = k) \<or> g_utf8_validate E v \<Longrightarrow> kf_get_string E (kf_set_string E kf g k v) h l =
      (if h = g \<and> l = k then Some v else kf_get_string E kf h l)"
  using keyfile_okD(5,6) [OF assms(1,2,3)] by blast+

lemma remove_same:
  assumes "keyfile_ok E good" "\<not> kf_has_group E kf g"
    and "\<And>h. kf_has_group E kf1 h = (h = g \<or> kf_has_group E kf h)"
    and "\<And>h k. h \<noteq> g \<Longrightarrow> kf_get_string E kf1 h k = kf_get_string E kf h k"
  obtains kf2 where "kf_remove_group E kf1 g = Some kf2"
    "\<And>h. kf_has_group E kf2 h = kf_has_group E kf h"
    "\<And>h k. kf_get_string E kf2 h k = kf_get_string E kf h k"
proof -
  have "kf_has_group E kf1 g" using assms(3) by simp
  from keyfile_ok_remove [OF assms(1) this] obtain kf2 where *: "kf_remove_group E kf1 g = Some kf2"
    "\<And>h. kf_has_group E kf2 h \<longleftrightarrow> h \<noteq> g \<and> kf_has_group E kf1 h"
    "\<And>h k. kf_get_string E kf2 h k = (if h = g then None else kf_get_string E kf1 h k)" by blast
  show ?thesis
  proof (rule that [OF *(1)])
    show "kf_has_group E kf2 h = kf_has_group E kf h" for h
      using *(2) assms(2,3) by auto
    show "kf_get_string E kf2 h k = kf_get_string E kf h k" for h k
      using *(3) assms(4) keyfile_okD(4) [OF assms(1,2)] by simp
  qed
qed

definition added_keyfile ::
    "'k env \<Rightarrow> 'k \<Rightarrow> string \<Rightarrow> string option \<Rightarrow> string option \<Rightarrow> string option \<Rightarrow> 'k" where
  "added_keyfile E kf pid name addr ssid =
     kf_set_string E (kf_set_string E (kf_set_string E kf pid ''printerName''
        (case name of None \<Rightarrow> pid | Some n \<Rightarrow> n)) pid ''printerAddress''
        (case addr of None \<Rightarrow> [] | Some a \<Rightarrow> a)) pid ''ssid'' (case ssid of None \<Rightarrow> [] | Some s \<Rightarrow> s)"

text \<open>The strings of an optional argument are UTF-8.\<close>

abbreviation utf8_opt :: "'k env \<Rightarrow> string option \<Rightarrow> bool" where
  "utf8_opt E v \<equiv> pred_option (g_utf8_validate E) v"

lemma added_keyfile_simps:
  assumes "keyfile_ok E good" "good pid"
  shows "kf_has_group E (added_keyfile E kf pid name addr ssid) h = (h = pid \<or> kf_has_group E kf h)"
    and "h \<noteq> pid \<Longrightarrow> kf_get_string E (added_keyfile E kf pid name addr ssid) h k = kf_get_string E kf h k"
    and "utf8_opt E name \<Longrightarrow> utf8_opt E addr \<Longrightarrow> utf8_opt E ssid \<Longrightarrow>
      record_of E (added_keyfile E kf pid name addr ssid) pid = new_record pid name addr ssid"
  using keyfile_okD(9,10) [OF assms(1)] assms(2)
  by (auto simp: added_keyfile_def has_simps [OF assms] record_of_def new_record_def split: option.split)

lemma add_eq:
  "printer_db_add E db pid name addr ssid w =
     (if kf_has_group E (db_keyfile db) pid then (Inl PM_ERR_PRINTER_DUPLICATE_ID, db, w)
      else if address_taken E (db_keyfile db) (kf_get_groups E (db_keyfile db)) addr
      then (Inl PM_ERR_PRINTER_DUPLICATE_IP, db, w)
      else let kf3 = added_keyfile E (db_keyfile db) pid name addr ssid in
        if kf_save E w kf3 (db_path db)
        then (Inr (), db\<lparr>db_keyfile := kf3\<rparr>, w @ [Keyfile_save (db_path db)])
        else (Inl PM_ERR_PRINTER_DB_ACCESS,
              db\<lparr>db_keyfile := (case kf_remove_group E kf3 pid of None \<Rightarrow> kf3 | Some k \<Rightarrow> k)\<rparr>,
              w @ [Keyfile_save (db_path db)]))"
  by (simp add: printer_db_add_def Let_def db_flush_def added_keyfile_def)

lemma add_cases:
  assumes "printer_db_add E db pid name addr ssid w = (r, db', w')"
  obtains (refused) e where "r = Inl e" "e \<in> {PM_ERR_PRINTER_DUPLICATE_ID, PM_ERR_PRINTER_DUPLICATE_IP}"
      "db' = db" "w' = w"
  | (unsaved) kf3 where "r = Inl PM_ERR_PRINTER_DB_ACCESS" "\<not> kf_has_group E (db_keyfile db) pid"
      "kf3 = added_keyfile E (db_keyfile db) pid name addr ssid"
      "db' = db\<lparr>db_keyfile := (case kf_remove_group E kf3 pid of None \<Rightarrow> kf3 | Some k \<Rightarrow> k)\<rparr>"
      "w' = w @ [Keyfile_save (db_path db)]"
  | (saved) "r = Inr ()" "\<not> kf_has_group E (db_keyfile db) pid"
      "\<not> address_taken E (db_keyfile db) (kf_get_groups E (db_keyfile db)) addr"
      "db' = db\<lparr>db_keyfile := added_keyfile E (db_keyfile db) pid name addr ssid\<rparr>"
      "w' = w @ [Keyfile_save (db_path db)]"
  using assms unfolding add_eq Let_def by (metis (no_types, lifting) insertCI prod.inject)

lemma same_store_view:
  assumes "same_store E db db'"
  shows "printers_of E db' = printers_of E db" "current_of E db' = current_of E db"
  using assms by (auto simp: same_store_def printers_of_def current_of_def fun_eq_iff store_strings_def
      record_of_def)

lemma failed_add_same:
  assumes "keyfile_ok E good" "good pid" "printer_db_add E db pid name addr ssid w = (Inl e, db', w')"
  shows "same_store E db db'"
  using assms(3)
proof (cases rule: add_cases)
  case (unsaved kf3)
  obtain kf2 where "kf_remove_group E kf3 pid = Some kf2"
    "\<And>h. kf_has_group E kf2 h = kf_has_group E (db_keyfile db) h"
    "\<And>h k. kf_get_string E kf2 h k = kf_get_string E (db_keyfile db) h k"
    by (rule remove_same [OF assms(1) unsaved(2), of kf3])
      (simp_all add: unsaved(3) added_keyfile_simps [OF assms(1,2)])
  with unsaved(4) show ?thesis by (simp add: same_store_def store_has_def store_strings_def)
qed (simp_all add: same_store_def)

lemma add_view:
  assumes "keyfile_ok E good" "good pid" "pid \<noteq> GROUP_SETTINGS" "utf8_opt E name" "utf8_opt E addr" "utf8_opt E ssid"
    and "printer_db_add E db pid name addr ssid w = (Inr u, db', w')"
  shows "printers_of E db pid = None \<and>
    printers_of E db' = (printers_of E db)(pid \<mapsto> new_record pid name addr ssid) \<and>
    current_of E db' = current_of E db"
  using assms(7)
proof (cases rule: add_cases)
  case saved
  have "record_of E (added_keyfile E (db_keyfile db) pid name addr ssid) g = record_of E (db_keyfile db) g"
    if "g \<noteq> pid" for g
    using that by (simp add: record_of_def added_keyfile_simps [OF assms(1,2)])
  with saved assms(3) show ?thesis
    by (auto simp: printers_of_def current_of_def store_has_def store_strings_def fun_eq_iff
        added_keyfile_simps [OF assms(1,2)] assms(4-6))
qed simp_all

definition cleared_keyfile :: "'k env \<Rightarrow> 'k \<Rightarrow> string \<Rightarrow> 'k" where
  "cleared_keyfile E kf pid =
     (if kf_get_string E kf GROUP_SETTINGS KEY_CURRENT = Some pid
      then kf_remove_key E kf GROUP_SETTINGS KEY_CURRENT else kf)"

lemma delete_run:
  assumes "kf_has_group E (db_keyfile db) pid" "kf_remove_group E (db_keyfile db) pid = Some kf1"
  shows "printer_db_delete E db pid ssid w = (False, db, w) \<or>
    printer_db_delete E db pid ssid w =
      (kf_save E w (cleared_keyfile E kf1 pid) (db_path db),
       db\<lparr>db_keyfile := cleared_keyfile E kf1 pid\<rparr>, w @ [Keyfile_save (db_path db)])"
  by (simp add: printer_db_delete_def assms db_flush_def cleared_keyfile_def Let_def)

lemma delete_cases:
  assumes "keyfile_ok E good" "pid \<noteq> GROUP_SETTINGS" "printer_db_delete E db pid ssid w = (b, db', w')"
  shows "db' = db \<and> \<not> b \<or>
    printers_of E db' = (printers_of E db)(pid := None) \<and>
    current_of E db' = (if current_of E db = Some pid then None else current_of E db)"
proof (cases "kf_has_group E (db_keyfile db) pid")
  case True
  from keyfile_ok_remove [OF assms(1) True] obtain kf1 where kf1:
    "kf_remove_group E (db_keyfile db) pid = Some kf1"
    "\<And>h. kf_has_group E kf1 h \<longleftrightarrow> h \<noteq> pid \<and> kf_has_group E (db_keyfile db) h"
    "\<And>h k. kf_get_string E kf1 h k = (if h = pid then None else kf_get_string E (db_keyfile db) h k)"
    by blast
  consider "db' = db" "\<not> b" | "db' = db\<lparr>db_keyfile := cleared_keyfile E kf1 pid\<rparr>"
    using delete_run [OF True kf1(1), of ssid w] assms(3) by auto
  then show ?thesis
  proof cases
    case 2
    show ?thesis
      unfolding 2 using assms(2)
      by (intro disjI2) (auto simp: printers_of_def current_of_def store_has_def store_strings_def
          cleared_keyfile_def fun_eq_iff record_of_def kf1 keyfile_okD(7,8) [OF assms(1)])
  qed simp
qed (use assms in \<open>simp add: printer_db_delete_def Let_def\<close>)

lemma delete_failed_current:
  assumes "keyfile_ok E good" "pid \<noteq> GROUP_SETTINGS" "printer_db_delete E db pid ssid w = (b, db', w')"
    "current_of E db \<noteq> Some pid"
  shows "current_of E db' = current_of E db"
  using delete_cases [OF assms(1-3)] assms(4) by auto

lemma delete_view:
  assumes "keyfile_ok E good" "pid \<noteq> GROUP_SETTINGS"
    and "printer_db_delete E db pid ssid w = (True, db', w')"
  shows "printers_of E db' = (printers_of E db)(pid := None) \<and>
    current_of E db' = (if current_of E db = Some pid then None else current_of E db)"
  using delete_cases [OF assms] by blast

lemma set_current_view:
  assumes "keyfile_ok E good" "g_utf8_validate E pid" "printer_db_set_current E db (Some pid) w = (b, db', w')"
  shows "printers_of E db' = printers_of E db \<and> current_of E db' = Some pid"
proof -
  have "db' = db\<lparr>db_keyfile := kf_set_string E (db_keyfile db) GROUP_SETTINGS KEY_CURRENT pid\<rparr>"
    using assms(3) by (auto simp: printer_db_set_current_def Let_def db_flush_def)
  then show ?thesis
    using assms(2) by (auto simp: printers_of_def current_of_def store_has_def store_strings_def fun_eq_iff
        record_of_def has_simps [OF assms(1) keyfile_okD(1) [OF assms(1)]])
qed

interpretation keyfile_store: printer_store keyfile_ok printers_of current_of printer_db_add
  printer_db_delete printer_db_set_current new_record GROUP_SETTINGS g_utf8_validate
proof
  show "printers_of E db' = printers_of E db \<and> current_of E db' = current_of E db"
    if "keyfile_ok E good" "good pid" "printer_db_add E db pid name addr ssid w = (Inl err, db', w')"
    for E good pid db name addr ssid w err db' w'
    using same_store_view [OF failed_add_same [OF that]] by simp
qed (fact add_view delete_view set_current_view)+

lemma list_all_ran:
  assumes "keyfile_ok E good"
  shows "set (printer_db_list E db None) = ran (printers_of E db)"
  using keyfile_okD(2) [OF assms]
  by (auto simp: printer_db_list_def list_groups_eq printers_of_def store_has_def ran_def)

lemma list_distinct:
  assumes "keyfile_ok E good"
  shows "distinct (printer_db_list E db f)"
proof -
  have "inj (record_of E (db_keyfile db))"
    by (rule injI) (simp add: record_of_def)
  then show ?thesis
    using keyfile_okD(3) [OF assms]
    by (auto simp: printer_db_list_def list_groups_eq distinct_map intro: inj_on_subset)
qed

lemma find_eq:
  "fst (printer_db_find E db (Some q)) =
     (if store_has E db q then Some (record_of E (db_keyfile db) q) else None)"
  by (simp add: printer_db_find_def store_has_def Let_def)

lemma find_view: "q \<noteq> GROUP_SETTINGS \<Longrightarrow> fst (printer_db_find E db (Some q)) = printers_of E db q"
  by (simp add: find_eq printers_of_def)

lemma get_current_view: "fst (printer_db_get_current E db) = (case current_of E db of None \<Rightarrow> [] | Some c \<Rightarrow> c)"
  by (simp add: printer_db_get_current_def current_of_def store_strings_def Let_def)

section \<open>Properties\<close>

text \<open>
  A printer that was added is found again under its id with the name and address it was added
  with (the id as its name when none was given), the list of all printers has it exactly once
  beside the earlier ones, and the choice of the current printer is as before.
\<close>

lemma printer_add_found:
  assumes "keyfile_ok E good" "good pid" "pid \<noteq> GROUP_SETTINGS" "utf8_opt E name" "utf8_opt E addr" "utf8_opt E ssid"
    and "printer_db_add E db pid name addr ssid w = (Inr u, db', w')"
  shows "fst (printer_db_find E db' (Some pid)) = Some (new_record pid name addr ssid)
    \<and> set (printer_db_list E db' None) = insert (new_record pid name addr ssid) (set (printer_db_list E db None))
    \<and> distinct (printer_db_list E db' None)
    \<and> fst (printer_db_get_current E db') = fst (printer_db_get_current E db)"
proof -
  note view = keyfile_store.add_view [OF assms]
  have "ran (printers_of E db') = insert (new_record pid name addr ssid) (ran (printers_of E db))"
    using view by simp
  then show ?thesis
    using view assms(3) by (simp add: find_view list_all_ran [OF assms(1)] list_distinct [OF assms(1)]
        get_current_view)
qed

definition sample_db :: "sample_store printer_db" where
  "sample_db = \<lparr>db_path = ''p'', db_keyfile = [], db_scratch = None, db_current_cache = None\<rparr>"

text \<open>
  An add that is refused or cannot be saved leaves every group and every string of the store,
  and so the printers and the current printer, as they were; its error is one of -204, -205, -702.
\<close>

lemma printer_add_failed:
  assumes "keyfile_ok E good" "good pid" "printer_db_add E db pid name addr ssid w = (Inl e, db', w')"
  shows "same_store E db db' \<and> set (printer_db_list E db' f) = set (printer_db_list E db f)
    \<and> e \<in> {PM_ERR_PRINTER_DUPLICATE_ID, PM_ERR_PRINTER_DUPLICATE_IP, PM_ERR_PRINTER_DB_ACCESS}"
proof -
  note same = failed_add_same [OF assms]
  have e: "e \<in> {PM_ERR_PRINTER_DUPLICATE_ID, PM_ERR_PRINTER_DUPLICATE_IP, PM_ERR_PRINTER_DB_ACCESS}"
    using assms(3) by (cases rule: add_cases) auto
  have "kf_get_string E (db_keyfile db') = kf_get_string E (db_keyfile db)"
    and "kf_has_group E (db_keyfile db') = kf_has_group E (db_keyfile db)"
    using same by (simp_all add: fun_eq_iff same_store_def store_strings_def store_has_def)
  then have "set (printer_db_list E db' f) = set (printer_db_list E db f)"
    by (cases f) (simp_all add: printer_db_list_def list_groups_eq keyfile_okD(2) [OF assms(1)] record_of_def)
  with same e show ?thesis by simp
qed

text \<open>
  After a successful delete the printer is gone and every other printer is as it was; if it
  was the current printer, there is no current printer any more, otherwise the choice stands.
\<close>

lemma printer_delete_clears:
  assumes "keyfile_ok E good" "pid \<noteq> GROUP_SETTINGS"
    and "printer_db_delete E db pid ssid w = (True, db', w')"
  shows "fst (printer_db_find E db' (Some pid)) = None
    \<and> (\<forall>q. q \<noteq> pid \<and> q \<noteq> GROUP_SETTINGS \<longrightarrow>
          fst (printer_db_find E db' (Some q)) = fst (printer_db_find E db (Some q)))
    \<and> fst (printer_db_get_current E db') = (if fst (printer_db_get_current E db) = pid then []
         else fst (printer_db_get_current E db))"
  using keyfile_store.delete_view [OF assms] assms(2)
  by (auto simp: find_view get_current_view split: option.splits)

text \<open>
  The current printer that was set is the one that is read back, whether or not the file could
  be written, and it stays so until another one is set or it is deleted: adding a printer or
  deleting another one does not change it.
\<close>

lemma current_printer_kept:
  assumes "keyfile_ok E good" "g_utf8_validate E pid" "printer_db_set_current E db (Some pid) w = (b, db1, w1)"
    and "good q" "q \<noteq> GROUP_SETTINGS" "q \<noteq> pid" "utf8_opt E name" "utf8_opt E addr" "utf8_opt E ssid"
    and "printer_db_add E db1 q name addr ssid w1 = (r, db2, w2)"
    and "printer_db_delete E db2 q s w2 = (d, db3, w3)"
  shows "fst (printer_db_get_current E db1) = pid \<and> fst (printer_db_get_current E db2) = pid
    \<and> fst (printer_db_get_current E db3) = pid"
proof -
  have 1: "current_of E db1 = Some pid"
    using keyfile_store.set_view [OF assms(1-3)] by simp
  have 2: "current_of E db2 = Some pid"
    using keyfile_store.current_survives_add [OF assms(1,4,5,7-10)] 1 by simp
  have "current_of E db3 = Some pid"
    using delete_failed_current [OF assms(1,5,11)] assms(6) 2 by simp
  with 1 2 show ?thesis by (simp add: get_current_view)
qed

text \<open>Printers that share an address share the empty one, which stands for a missing address.\<close>

definition addresses_distinct :: "'k env \<Rightarrow> 'k printer_db \<Rightarrow> bool" where
  "addresses_distinct E db \<longleftrightarrow> (\<forall>p q r s a. printers_of E db p = Some r \<longrightarrow> printers_of E db q = Some s \<longrightarrow>
     rec_printer_address r = Some a \<longrightarrow> rec_printer_address s = Some a \<longrightarrow> a \<noteq> [] \<longrightarrow> p = q)"

lemma addresses_distinctD:
  "addresses_distinct E db \<Longrightarrow> printers_of E db p = Some r \<Longrightarrow> printers_of E db q = Some s \<Longrightarrow>
     rec_printer_address r = Some a \<Longrightarrow> rec_printer_address s = Some a \<Longrightarrow> a \<noteq> [] \<Longrightarrow> p = q"
  unfolding addresses_distinct_def by blast

lemma addresses_distinct_fewer:
  assumes "addresses_distinct E db" "\<And>g. printers_of E db' g \<in> {None, printers_of E db g}"
  shows "addresses_distinct E db'"
  unfolding addresses_distinct_def
proof (intro allI impI)
  fix p q r s a
  assume "printers_of E db' p = Some r" "printers_of E db' q = Some s"
    and same: "rec_printer_address r = Some a" "rec_printer_address s = Some a" "a \<noteq> []"
  then have "printers_of E db p = Some r" "printers_of E db q = Some s"
    using assms(2) [of p] assms(2) [of q] by auto
  then show "p = q" using addresses_distinctD [OF assms(1)] same by blast
qed

lemma add_address_new:
  assumes "keyfile_ok E good" "printer_db_add E db pid name (Some a) ssid w = (Inr u, db', w')"
    and "printers_of E db q = Some r"
  shows "rec_printer_address r \<noteq> Some a"
  using assms(2)
proof (cases rule: add_cases)
  case saved
  then show ?thesis
    using assms(3) by (auto simp: address_taken_iff keyfile_okD(2) [OF assms(1)] printers_of_def
        store_has_def record_of_def split: if_splits)
qed simp_all

text \<open>What an operation does to the printers, whatever the id: the group of the settings is none of them.\<close>

lemma add_printers:
  assumes "keyfile_ok E good" "good pid" "utf8_opt E addr"
    and "printer_db_add E db pid name addr ssid w = (Inr u, db', w')"
  shows "g \<noteq> pid \<Longrightarrow> printers_of E db' g = printers_of E db g"
    and "printers_of E db' pid = Some r \<Longrightarrow> rec_printer_address r = Some (case addr of None \<Rightarrow> [] | Some a \<Rightarrow> a)"
proof -
  have db': "db' = db\<lparr>db_keyfile := added_keyfile E (db_keyfile db) pid name addr ssid\<rparr>"
    using assms(4) by (cases rule: add_cases) simp_all
  show "g \<noteq> pid \<Longrightarrow> printers_of E db' g = printers_of E db g"
    by (simp add: db' printers_of_def store_has_def record_of_def added_keyfile_simps [OF assms(1,2)])
  have "kf_get_string E (added_keyfile E (db_keyfile db) pid name addr ssid) pid ''printerAddress''
      = Some (case addr of None \<Rightarrow> [] | Some a \<Rightarrow> a)"
    using keyfile_okD(10) [OF assms(1)] assms(3)
    by (cases addr) (simp_all add: added_keyfile_def has_simps [OF assms(1,2)])
  then show "printers_of E db' pid = Some r \<Longrightarrow> rec_printer_address r = Some (case addr of None \<Rightarrow> [] | Some a \<Rightarrow> a)"
    by (auto simp: db' printers_of_def record_of_def split: if_splits)
qed

lemma delete_printers:
  assumes "keyfile_ok E good" "printer_db_delete E db pid ssid w = (b, db', w')"
  shows "printers_of E db' g \<in> {None, printers_of E db g}"
proof (cases "kf_has_group E (db_keyfile db) pid")
  case True
  from keyfile_ok_remove [OF assms(1) True] obtain kf1 where kf1:
    "kf_remove_group E (db_keyfile db) pid = Some kf1"
    "\<And>h. kf_has_group E kf1 h \<longleftrightarrow> h \<noteq> pid \<and> kf_has_group E (db_keyfile db) h"
    "\<And>h k. kf_get_string E kf1 h k = (if h = pid then None else kf_get_string E (db_keyfile db) h k)"
    by blast
  consider "db' = db" | "db' = db\<lparr>db_keyfile := cleared_keyfile E kf1 pid\<rparr>"
    using delete_run [OF True kf1(1), of ssid w] assms(2) by auto
  then show ?thesis
    by cases (auto simp: printers_of_def store_has_def cleared_keyfile_def record_of_def kf1
        keyfile_okD(7,8) [OF assms(1)])
qed (use assms in \<open>simp add: printer_db_delete_def Let_def\<close>)

lemma set_current_printers:
  assumes "keyfile_ok E good" "printer_db_set_current E db choice w = (b, db', w')"
  shows "printers_of E db' = printers_of E db"
  using assms(2) by (auto simp: printer_db_set_current_def Let_def db_flush_def printers_of_def store_has_def
      fun_eq_iff record_of_def has_simps [OF assms(1) keyfile_okD(1) [OF assms(1)]])





end
