(* ===== verification/Cups_Backend.thy ===== *)
theory Cups_Backend
  imports Service_World Print_Errors Sample_Env
begin

text \<open>
  Model of \<open>src/cups_backend.h\<close> and \<open>src/cups_backend.c\<close>: discovery, capabilities, submission of
  the files of a job, cancellation, job state and queue administration, as sequences of libcups
  calls. Every call and its arguments is an event of the world, its answer comes from the
  environment. A file is read as it is when it is opened.
\<close>

unbundle bit_operations_syntax

section \<open>Data\<close>

record cups_printer =
  prn_id :: string
  prn_name :: string
  prn_address :: string
  prn_uri :: string
  prn_location :: string
  prn_make_and_model :: string
  prn_state :: string
  prn_supports_ipp :: bool
  prn_is_discovered :: bool

record cups_queue_job =
  qj_id :: int
  qj_dest :: string
  qj_title :: string
  qj_ipp_state :: int

record cups_caps =
  caps_media_sizes :: "string list"
  caps_media_types :: "string list"
  caps_trays :: "string list"
  caps_can_duplex :: bool
  caps_has_photo_tray :: bool
  caps_can_borderless :: bool
  caps_quality_draft :: bool
  caps_quality_normal :: bool
  caps_quality_high :: bool
  caps_has_color :: bool
  caps_can_grayscale :: bool
  caps_can_cancel :: bool
  caps_is_supported :: bool
  caps_max_resolution :: int

record cups_job_params =
  cp_media :: "string option"
  cp_media_type :: "string option"
  cp_media_source :: "string option"
  cp_sides :: "string option"
  cp_color_mode :: "string option"
  cp_print_scaling :: "string option"
  cp_quality :: int
  cp_copies :: int
  cp_resolution :: int
  cp_borderless :: bool
  cp_top_margin :: int
  cp_left_margin :: int
  cp_right_margin :: int
  cp_bottom_margin :: int
  cp_margins_valid :: bool

record cups_job_state =
  js_ipp_state :: int
  js_reasons :: "string list"
  js_is_toner :: bool
  js_current_page :: int
  js_total_pages :: int

definition supported_formats :: "string list" where
  "supported_formats = [''application/pdf'', ''image/jpeg'', ''image/png'']"

section \<open>States\<close>

definition printer_state_string :: "string option \<Rightarrow> string" where
  "printer_state_string raw =
     (let v = (case raw of None \<Rightarrow> 3 | Some r \<Rightarrow> c_atoi r) in
      if v = 4 then ''processing'' else if v = 5 then ''stopped'' else ''idle'')"

definition cups_backend_jobstate_string :: "int \<Rightarrow> string" where
  "cups_backend_jobstate_string ipp_state =
     (if ipp_state = 3 then ''pending''
      else if ipp_state = 4 then ''held''
      else if ipp_state = 5 then ''processing''
      else if ipp_state = 6 then ''stopped''
      else if ipp_state = 7 then ''canceled''
      else if ipp_state = 8 then ''aborted''
      else if ipp_state = 9 then ''completed''
      else ''pending'')"

section \<open>Discovery\<close>

definition address_from_uri :: "'k env \<Rightarrow> string option \<Rightarrow> string" where
  "address_from_uri E uri =
     (case uri of None \<Rightarrow> []
      | Some u \<Rightarrow> (case http_separate_host E u of None \<Rightarrow> [] | Some host \<Rightarrow> host))"

definition or_empty :: "string option \<Rightarrow> string" where
  "or_empty s = (case s of None \<Rightarrow> [] | Some x \<Rightarrow> x)"

text \<open>\<open>CUPS_PRINTER_DISCOVERED\<close> is bit 24 of the printer-type option.\<close>

definition printer_of_dest :: "'k env \<Rightarrow> cups_dest \<Rightarrow> cups_printer" where
  "printer_of_dest E d =
     (let info = cupsGetOption ''printer-info'' d;
          uri = (case cupsGetOption ''device-uri'' d of
                   None \<Rightarrow> cupsGetOption ''printer-uri-supported'' d | Some u \<Rightarrow> Some u);
          ptype = (case cupsGetOption ''printer-type'' d of
                    None \<Rightarrow> 0 | Some t \<Rightarrow> c_strtoul_unsigned t)
      in \<lparr>prn_id = dest_name d,
          prn_name = (case info of None \<Rightarrow> dest_name d
                      | Some i \<Rightarrow> if i = [] then dest_name d else i),
          prn_address = address_from_uri E uri,
          prn_uri = or_empty uri,
          prn_location = or_empty (cupsGetOption ''printer-location'' d),
          prn_make_and_model = or_empty (cupsGetOption ''printer-make-and-model'' d),
          prn_state = printer_state_string (cupsGetOption ''printer-state'' d),
          prn_supports_ipp = True,
          prn_is_discovered = (ptype AND 2 ^ 24 \<noteq> 0)\<rparr>)"

definition cups_backend_enumerate :: "'k env \<Rightarrow> world \<Rightarrow> cups_printer list \<times> world" where
  "cups_backend_enumerate E w =
     (map (printer_of_dest E) (cups_get_dests E w), w @ [Cups_get_dests])"

section \<open>Capabilities\<close>

definition option_supports ::
    "'k env \<Rightarrow> bool \<Rightarrow> string \<Rightarrow> string \<Rightarrow> string \<Rightarrow> world \<Rightarrow> bool \<times> world" where
  "option_supports E http dest attr val w =
     (cups_check_supported E w dest http attr val, w @ [Cups_check_supported dest http attr val])"

definition find_dest_supported ::
    "'k env \<Rightarrow> bool \<Rightarrow> string \<Rightarrow> string \<Rightarrow> world \<Rightarrow> ipp_value list option \<times> world" where
  "find_dest_supported E http dest attr w =
     (cups_find_supported E w dest http attr, w @ [Cups_find_supported dest http attr])"

definition collect_supported ::
    "'k env \<Rightarrow> bool \<Rightarrow> string \<Rightarrow> string \<Rightarrow> world \<Rightarrow> string list \<times> world" where
  "collect_supported E http dest attr w =
     (let (vs, w1) = find_dest_supported E http dest attr w
      in (case vs of None \<Rightarrow> [] | Some xs \<Rightarrow> List.map_filter ipp_string xs, w1))"

fun supports_any_format ::
    "'k env \<Rightarrow> bool \<Rightarrow> string \<Rightarrow> string list \<Rightarrow> world \<Rightarrow> bool \<times> world" where
  "supports_any_format E http dest [] w = (False, w)"
| "supports_any_format E http dest (f # fs) w =
     (let (ok, w1) = option_supports E http dest ''document-format'' f w
      in if ok then (True, w1) else supports_any_format E http dest fs w1)"

definition has_zero_margin :: "ipp_value list option \<Rightarrow> bool" where
  "has_zero_margin attr =
     (case attr of None \<Rightarrow> False | Some vs \<Rightarrow> list_ex (\<lambda>v. ipp_integer v = 0) vs)"

definition max_resolution_of :: "ipp_value list option \<Rightarrow> int" where
  "max_resolution_of attr =
     (case attr of None \<Rightarrow> 0
      | Some vs \<Rightarrow> foldl (\<lambda>m v. if ipp_res_per_inch v \<and> m < ipp_xres v then ipp_xres v else m) 0 vs)"

definition cups_backend_get_caps ::
    "'k env \<Rightarrow> string \<Rightarrow> world \<Rightarrow> (int + cups_caps) \<times> world" where
  "cups_backend_get_caps E printer_id w =
     (let dest = cups_get_named_dest E w printer_id;
          w1 = w @ [Cups_get_named_dest printer_id]
      in case dest of None \<Rightarrow> (Inl PM_ERR_PRINTER_UNKNOWN_ID, w1)
      | Some d \<Rightarrow>
        let n = dest_name d;
            http = cups_connect_dest E w1 n;
            w2 = w1 @ [Cups_connect_dest n];
            info = cups_copy_dest_info E w2 n http;
            w3 = w2 @ [Cups_copy_dest_info n http];
            closed = (if http then [Http_close n] else [])
        in if \<not> info then (Inl PM_ERR_COMM_GET_CAPS_FAILED, w3 @ closed)
        else
          let (sizes, w4) = collect_supported E http n ''media'' w3;
              (types, w5) = collect_supported E http n ''media-type'' w4;
              (trays, w6) = collect_supported E http n ''media-source'' w5;
              (duplex, w7) = option_supports E http n ''sides'' ''two-sided-long-edge'' w6;
              (draft, w8) = option_supports E http n ''print-quality'' ''3'' w7;
              (normal, w9) = option_supports E http n ''print-quality'' ''4'' w8;
              (high, w10) = option_supports E http n ''print-quality'' ''5'' w9;
              (color, w11) = option_supports E http n ''print-color-mode'' ''color'' w10;
              (mono, w12) = option_supports E http n ''print-color-mode'' ''monochrome'' w11;
              (margins, w13) = find_dest_supported E http n ''media-bottom-margin-supported'' w12;
              (res, w14) = find_dest_supported E http n ''printer-resolution-supported'' w13;
              (fmt, w15) = supports_any_format E http n supported_formats w14
          in (Inr \<lparr>caps_media_sizes = sizes, caps_media_types = types, caps_trays = trays,
                   caps_can_duplex = duplex, caps_has_photo_tray = (''photo'' \<in> set trays),
                   caps_can_borderless = has_zero_margin margins, caps_quality_draft = draft,
                   caps_quality_normal = normal, caps_quality_high = high,
                   caps_has_color = color, caps_can_grayscale = mono, caps_can_cancel = True,
                   caps_is_supported = fmt, caps_max_resolution = max_resolution_of res\<rparr>,
              w15 @ closed))"

section \<open>Submission\<close>

definition opt_entry :: "string \<Rightarrow> string option \<Rightarrow> (string \<times> string) list" where
  "opt_entry name v = (case v of None \<Rightarrow> [] | Some x \<Rightarrow> [(name, x)])"

text \<open>The \<open>cupsAddOption\<close> calls in their order; no name occurs twice.\<close>

definition add_options :: "cups_job_params \<Rightarrow> (string \<times> string) list" where
  "add_options p =
     opt_entry ''media'' (cp_media p) @
     opt_entry ''media-type'' (cp_media_type p) @
     opt_entry ''media-source'' (cp_media_source p) @
     opt_entry ''sides'' (cp_sides p) @
     opt_entry ''print-color-mode'' (cp_color_mode p) @
     opt_entry ''print-scaling'' (cp_print_scaling p) @
     (if cp_quality p \<noteq> 0 then [(''print-quality'', show_int (cp_quality p))] else []) @
     (if 0 < cp_copies p then [(''copies'', show_int (cp_copies p))] else []) @
     (if 0 < cp_resolution p then [(''printer-resolution'', show_int (cp_resolution p) @ ''dpi'')]
      else []) @
     (if cp_borderless p then
        [(''media-top-margin'', ''0''), (''media-left-margin'', ''0''),
         (''media-right-margin'', ''0''), (''media-bottom-margin'', ''0'')]
      else if cp_margins_valid p then
        [(''media-top-margin'', show_int (cp_top_margin p)),
         (''media-left-margin'', show_int (cp_left_margin p)),
         (''media-right-margin'', show_int (cp_right_margin p)),
         (''media-bottom-margin'', show_int (cp_bottom_margin p))]
      else [])"

text \<open>The format told from the bytes that were got of the first 16 of a file.\<close>

definition sniff :: "string \<Rightarrow> string option" where
  "sniff head =
     (let got = length head in
      if got < 4 then None
      else if take 4 head = ''%PDF'' then Some ''application/pdf''
      else if take 3 head = [CHR 0xFF, CHR 0xD8, CHR 0xFF] then Some ''image/jpeg''
      else if 8 \<le> got \<and> take 8 head =
        [CHR 0x89, CHR ''P'', CHR ''N'', CHR ''G'', CHR 0x0D, CHR 0x0A, CHR 0x1A, CHR 0x0A]
        then Some ''image/png''
      else None)"

definition cups_backend_detect_format :: "'k env \<Rightarrow> string \<Rightarrow> world \<Rightarrow> string option \<times> world" where
  "cups_backend_detect_format E path w =
     (case os_open_read E w path of None \<Rightarrow> None | Some fp \<Rightarrow> sniff (fread fp 0 16),
      w @ [Open_read path])"

abbreviation chunk_size :: nat where
  "chunk_size \<equiv> 16384"

text \<open>The loop \<open>while ((got = fread(chunk, ...)) > 0)\<close>, from the offset \<open>pos\<close> on.\<close>

function write_chunks :: "'k env \<Rightarrow> open_file \<Rightarrow> nat \<Rightarrow> world \<Rightarrow> bool \<times> world" where
  "write_chunks E fp pos w =
     (let chunk = fread fp pos chunk_size
      in if chunk = [] then (True, w)
         else let w1 = w @ [Cups_write_data chunk]
              in if \<not> cups_write_data E w chunk then (False, w1)
                 else write_chunks E fp (pos + length chunk) w1)"
  by pat_completeness auto
termination
  by (relation "measure (\<lambda>(E, fp, pos, w). length (readable fp) - pos)") (auto simp: fread_def)

declare write_chunks.simps [simp del]

abbreviation IPP_STATUS_ERROR_DOCUMENT_FORMAT_NOT_SUPPORTED :: int where
  "IPP_STATUS_ERROR_DOCUMENT_FORMAT_NOT_SUPPORTED \<equiv> 0x040A"

abbreviation IPP_STATUS_OK_EVENTS_COMPLETE :: int where
  "IPP_STATUS_OK_EVENTS_COMPLETE \<equiv> 7"

text \<open>One round of the loop over the files: an error code, or \<open>None\<close> to go on.\<close>

definition submit_file ::
    "'k env \<Rightarrow> string \<Rightarrow> int \<Rightarrow> string \<Rightarrow> bool \<Rightarrow> world \<Rightarrow> int option \<times> world" where
  "submit_file E printer_id jid path is_last w =
     (let cancel = Cups_cancel_job printer_id jid;
          (format, w1) = cups_backend_detect_format E path w
      in case format of None \<Rightarrow> (Some PM_ERR_UNSUPPORTED_MIME_TYPE, w1 @ [cancel])
      | Some fmt \<Rightarrow>
        let fp = os_open_read E w1 path;
            w2 = w1 @ [Open_read path]
        in (case fp of None \<Rightarrow> (Some PM_ERR_FILE_DOES_NOT_EXIST, w2 @ [cancel])
        | Some file \<Rightarrow>
          let started = cups_start_document E w2 printer_id jid path fmt is_last;
              w3 = w2 @ [Cups_start_document printer_id jid path fmt is_last]
          in if \<not> started then (Some PM_ERR_JOB_ADD_PAGE_FAILED, w3 @ [cancel])
          else
            let (written, w4) = write_chunks E file 0 w3
            in if \<not> written
               then (Some PM_ERR_JOB_ADD_PAGE_FAILED,
                     w4 @ [Cups_finish_document printer_id, cancel])
               else
                 let finished = cups_finish_document E w4 printer_id;
                     w5 = w4 @ [Cups_finish_document printer_id]
                 in if finished then (None, w5)
                    else (Some (if cups_last_error E w5 = IPP_STATUS_ERROR_DOCUMENT_FORMAT_NOT_SUPPORTED
                                then PM_ERR_UNSUPPORTED_MIME_TYPE else PM_ERR_JOB_ADD_PAGE_FAILED),
                          w5 @ [cancel])))"

fun submit_files ::
    "'k env \<Rightarrow> string \<Rightarrow> int \<Rightarrow> string list \<Rightarrow> world \<Rightarrow> int option \<times> world" where
  "submit_files E printer_id jid [] w = (None, w)"
| "submit_files E printer_id jid (path # rest) w =
     (let (err, w1) = submit_file E printer_id jid path (rest = []) w
      in case err of Some e \<Rightarrow> (Some e, w1) | None \<Rightarrow> submit_files E printer_id jid rest w1)"

definition cups_backend_submit ::
    "'k env \<Rightarrow> string \<Rightarrow> string option \<Rightarrow> string list \<Rightarrow> cups_job_params \<Rightarrow> world \<Rightarrow>
     (int + int) \<times> world" where
  "cups_backend_submit E printer_id title fs params w =
     (if fs = [] then (Inl PM_ERR_NO_FILES_TO_PRINT, w)
      else
        let options = add_options params;
            t = (case title of None \<Rightarrow> ''LuneOS print job'' | Some x \<Rightarrow> x);
            jid = cups_create_job E w printer_id t options;
            w1 = w @ [Cups_create_job printer_id t options]
        in if jid \<le> 0 then (Inl PM_ERR_JOB_START_FAILED, w1)
           else let (err, w2) = submit_files E printer_id jid fs w1
                in (case err of Some e \<Rightarrow> Inl e | None \<Rightarrow> Inr jid, w2))"

definition cups_backend_cancel :: "'k env \<Rightarrow> string \<Rightarrow> int \<Rightarrow> world \<Rightarrow> bool \<times> world" where
  "cups_backend_cancel E printer_id jid w =
     (cups_cancel_job E w printer_id jid, w @ [Cups_cancel_job printer_id jid])"

section \<open>Job state\<close>

fun split_commas :: "string \<Rightarrow> string \<Rightarrow> string list" where
  "split_commas acc [] = [rev acc]"
| "split_commas acc (c # cs) =
     (if c = CHR '','' then rev acc # split_commas [] cs else split_commas (c # acc) cs)"

definition ascii_space :: "char \<Rightarrow> bool" where
  "ascii_space c \<longleftrightarrow> c \<in> {CHR '' '', CHR 0x09, CHR 0x0A, CHR 0x0C, CHR 0x0D}"

definition strstrip :: "string \<Rightarrow> string" where
  "strstrip s = rev (dropWhile ascii_space (rev (dropWhile ascii_space s)))"

definition split_reasons :: "string \<Rightarrow> string list" where
  "split_reasons s = (if s = [] then [] else map strstrip (split_commas [] s))"

definition cups_backend_get_job_state ::
    "'k env \<Rightarrow> string \<Rightarrow> int \<Rightarrow> world \<Rightarrow> cups_job_state option \<times> world" where
  "cups_backend_get_job_state E printer_id jid w =
     (let jobs = cups_get_jobs E w (Some printer_id) True;
          w1 = w @ [Cups_get_jobs (Some printer_id) True]
      in case find (\<lambda>j. cj_id j = jid) jobs of None \<Rightarrow> (None, w1)
      | Some j \<Rightarrow>
        let dest = cups_get_named_dest E w1 printer_id;
            w2 = w1 @ [Cups_get_named_dest printer_id];
            reasons = (case dest of None \<Rightarrow> []
              | Some d \<Rightarrow> (case cupsGetOption ''printer-state-reasons'' d of None \<Rightarrow> []
                  | Some r \<Rightarrow> split_reasons r));
            toner = (case dest of None \<Rightarrow> False
              | Some d \<Rightarrow> (case cupsGetOption ''marker-types'' d of None \<Rightarrow> False
                  | Some m \<Rightarrow> sublist ''toner'' m))
        in (Some \<lparr>js_ipp_state = cj_state j, js_reasons = reasons, js_is_toner = toner,
                  js_current_page = -1, js_total_pages = -1\<rparr>, w2))"

definition queue_job_of :: "cups_job \<Rightarrow> cups_queue_job" where
  "queue_job_of j =
     \<lparr>qj_id = cj_id j, qj_dest = or_empty (cj_dest j), qj_title = or_empty (cj_title j),
      qj_ipp_state = cj_state j\<rparr>"

definition cups_backend_list_jobs :: "'k env \<Rightarrow> world \<Rightarrow> cups_queue_job list \<times> world" where
  "cups_backend_list_jobs E w =
     (map queue_job_of (cups_get_jobs E w None False), w @ [Cups_get_jobs None False])"

section \<open>Queue administration\<close>

text \<open>The request as its attributes; the URI buffer holds 1023 characters.\<close>

definition queue_admin_request ::
    "'k env \<Rightarrow> ipp_op \<Rightarrow> string \<Rightarrow> string option \<Rightarrow> string option \<Rightarrow> world \<Rightarrow> (int + unit) \<times> world" where
  "queue_admin_request E opn name info uri w =
     (if name = [] then (Inl PM_ERR_BAD_PARAM_SYNTAX, w)
      else
        let printer_uri = take 1023 (''ipp://localhost/printers/'' @ name);
            attrs = (if opn = CUPS_Add_Modify_Printer
              then [(''printer-info'', (case info of None \<Rightarrow> name
                                        | Some i \<Rightarrow> if i = [] then name else i)),
                    (''device-uri'', or_empty uri), (''printer-state'', ''3''),
                    (''printer-is-accepting-jobs'', ''true'')]
              else []);
            response = cups_do_request E w opn printer_uri attrs;
            w1 = w @ [Cups_do_request opn printer_uri attrs]
        in if \<not> response \<or> IPP_STATUS_OK_EVENTS_COMPLETE < cups_last_error E w1
           then (Inl PM_ERR_PRINTER_DB_ACCESS, w1) else (Inr (), w1))"

definition cups_backend_add_queue ::
    "'k env \<Rightarrow> string \<Rightarrow> string option \<Rightarrow> string option \<Rightarrow> world \<Rightarrow> (int + unit) \<times> world" where
  "cups_backend_add_queue E name info uri w =
     (if uri = None \<or> uri = Some [] then (Inl PM_ERR_BAD_PARAM_SYNTAX, w)
      else queue_admin_request E CUPS_Add_Modify_Printer name info uri w)"

definition cups_backend_remove_queue :: "'k env \<Rightarrow> string \<Rightarrow> world \<Rightarrow> (int + unit) \<times> world" where
  "cups_backend_remove_queue E name w =
     queue_admin_request E CUPS_Delete_Printer name None None w"

section \<open>Every operation only talks to CUPS\<close>

lemma enumerate_quiet [world_ext]: "extends quiet w (snd (cups_backend_enumerate E w))"
  by (simp add: cups_backend_enumerate_def)

lemma option_supports_quiet [world_ext]:
  "option_supports E http n a v w = (r, w1) \<Longrightarrow> extends quiet w w1"
  by (auto simp: option_supports_def)

lemma collect_quiet [world_ext]:
  "collect_supported E http n a w = (r, w1) \<Longrightarrow> extends quiet w w1"
  by (auto simp: collect_supported_def find_dest_supported_def)

lemma find_supported_quiet [world_ext]:
  "find_dest_supported E http n a w = (r, w1) \<Longrightarrow> extends quiet w w1"
  by (auto simp: find_dest_supported_def)

text \<open>A query of a destination is an event that neither opens nor closes its connection.\<close>

definition is_query :: "io \<Rightarrow> bool" where
  "is_query e = (case e of Cups_find_supported _ _ _ \<Rightarrow> True | Cups_check_supported _ _ _ _ \<Rightarrow> True
     | _ \<Rightarrow> False)"

lemma query_events [simp]:
  "is_query (Cups_find_supported n b a)" "is_query (Cups_check_supported n b a v)"
  by (simp_all add: is_query_def)

lemma query_quiet: "is_query e \<Longrightarrow> quiet e"
  by (cases e) (simp_all add: is_query_def)

lemma queries:
  "option_supports E http n a v w = (r, w1) \<Longrightarrow> extends is_query w w1"
  "find_dest_supported E http n a w = (attr, w1) \<Longrightarrow> extends is_query w w1"
  "collect_supported E http n a w = (vs, w1) \<Longrightarrow> extends is_query w w1"
  by (auto simp: option_supports_def find_dest_supported_def collect_supported_def)

lemma supports_any_format_queries:
  "supports_any_format E http n fs w = (r, w1) \<Longrightarrow> extends is_query w w1"
proof (induction fs arbitrary: w)
  case (Cons f fs)
  have "extends is_query (w @ [Cups_check_supported n http ''document-format'' f]) w1"
    if "\<not> cups_check_supported E w n http ''document-format'' f"
    using Cons that by (auto simp: option_supports_def)
  then show ?case
    using Cons.prems by (auto simp: option_supports_def split: if_splits dest: extends_step)
qed simp

text \<open>
  The queries of a capability call, in order; the one for the resolution is the last but for the
  formats.
\<close>

lemma get_caps_queries:
  assumes "cups_backend_get_caps E pid w = (r, v)" "cups_get_named_dest E w pid = Some d" "n = dest_name d"
    and "http = cups_connect_dest E (w @ [Cups_get_named_dest pid]) n"
    and "w3 = w @ [Cups_get_named_dest pid, Cups_connect_dest n, Cups_copy_dest_info n http]"
    and "cups_copy_dest_info E (w @ [Cups_get_named_dest pid, Cups_connect_dest n]) n http"
  obtains c res w13 w14 w15 where "extends is_query w3 w13"
    "find_dest_supported E http n ''printer-resolution-supported'' w13 = (res, w14)" "extends is_query w14 w15"
    "v = w15 @ (if http then [Http_close n] else [])" "r = Inr c" "caps_max_resolution c = max_resolution_of res"
proof -
  obtain w4 w5 w6 w7 w8 w9 w10 w11 w12 w13 w14 w15 s4 s5 s6 b7 b8 b9 b10 b11 b12 a13 a14 b15 c
    where steps: "collect_supported E http n ''media'' w3 = (s4, w4)"
      "collect_supported E http n ''media-type'' w4 = (s5, w5)"
      "collect_supported E http n ''media-source'' w5 = (s6, w6)"
      "option_supports E http n ''sides'' ''two-sided-long-edge'' w6 = (b7, w7)"
      "option_supports E http n ''print-quality'' ''3'' w7 = (b8, w8)"
      "option_supports E http n ''print-quality'' ''4'' w8 = (b9, w9)"
      "option_supports E http n ''print-quality'' ''5'' w9 = (b10, w10)"
      "option_supports E http n ''print-color-mode'' ''color'' w10 = (b11, w11)"
      "option_supports E http n ''print-color-mode'' ''monochrome'' w11 = (b12, w12)"
      "find_dest_supported E http n ''media-bottom-margin-supported'' w12 = (a13, w13)"
      "find_dest_supported E http n ''printer-resolution-supported'' w13 = (a14, w14)"
      "supports_any_format E http n supported_formats w14 = (b15, w15)"
    and v: "v = w15 @ (if http then [Http_close n] else [])"
    and c: "r = Inr c" "caps_max_resolution c = max_resolution_of a14"
    using assms by (auto simp: cups_backend_get_caps_def Let_def split: prod.splits)
  note queries(3) [OF steps(1)] also note queries(3) [OF steps(2)] also note queries(3) [OF steps(3)]
  also note queries(1) [OF steps(4)] also note queries(1) [OF steps(5)] also note queries(1) [OF steps(6)]
  also note queries(1) [OF steps(7)] also note queries(1) [OF steps(8)] also note queries(1) [OF steps(9)]
  also note queries(2) [OF steps(10)]
  finally show ?thesis by (rule that) (rule steps(11) supports_any_format_queries [OF steps(12)] v c)+
qed

text \<open>The history of a capability query: look-up, connection, queries, and the close last.\<close>

lemma get_caps_history:
  assumes "cups_backend_get_caps E pid w = (r, v)"
  obtains (unknown) "cups_get_named_dest E w pid = None" "v = w @ [Cups_get_named_dest pid]"
      "r = Inl PM_ERR_PRINTER_UNKNOWN_ID"
  | (asked) d qs where "cups_get_named_dest E w pid = Some d" "list_all is_query qs"
      "v = w @ [Cups_get_named_dest pid, Cups_connect_dest (dest_name d),
        Cups_copy_dest_info (dest_name d) (cups_connect_dest E (w @ [Cups_get_named_dest pid]) (dest_name d))]
        @ qs @ (if cups_connect_dest E (w @ [Cups_get_named_dest pid]) (dest_name d)
                then [Http_close (dest_name d)] else [])"
      "r = Inl PM_ERR_COMM_GET_CAPS_FAILED \<or> (\<exists>c. r = Inr c)"
proof (cases "cups_get_named_dest E w pid")
  case None
  then show ?thesis using assms by (intro unknown) (auto simp: cups_backend_get_caps_def)
next
  case (Some d)
  let ?n = "dest_name d"
  let ?w1 = "w @ [Cups_get_named_dest pid]"
  let ?http = "cups_connect_dest E ?w1 ?n"
  let ?w3 = "w @ [Cups_get_named_dest pid, Cups_connect_dest ?n, Cups_copy_dest_info ?n ?http]"
  let ?close = "if ?http then [Http_close ?n] else []"
  have "\<exists>u. extends is_query ?w3 u \<and> v = u @ ?close \<and>
      (r = Inl PM_ERR_COMM_GET_CAPS_FAILED \<or> (\<exists>c. r = Inr c))"
  proof (cases "cups_copy_dest_info E (?w1 @ [Cups_connect_dest ?n]) ?n ?http")
    case False
    then show ?thesis
      using assms Some by (intro exI [of _ ?w3]) (auto simp: cups_backend_get_caps_def Let_def)
  next
    case True
    then have info: "cups_copy_dest_info E (w @ [Cups_get_named_dest pid, Cups_connect_dest ?n]) ?n ?http"
      by simp
    obtain c res w13 w14 w15 where q: "extends is_query ?w3 w13"
      "find_dest_supported E ?http ?n ''printer-resolution-supported'' w13 = (res, w14)" "extends is_query w14 w15"
      and v: "v = w15 @ ?close" "r = Inr c" and "caps_max_resolution c = max_resolution_of res"
      by (rule get_caps_queries [OF assms Some refl refl refl info])
    have "extends is_query ?w3 w15"
      using extends_trans [OF extends_trans [OF q(1) queries(2) [OF q(2)]] q(3)] .
    then show ?thesis using v by blast
  qed
  then show ?thesis
    using Some by (auto simp: extends_def intro!: asked)
qed

lemma get_caps_quiet [world_ext]:
  "cups_backend_get_caps E pid w = (r, v) \<Longrightarrow> extends quiet w v"
  by (erule get_caps_history) (auto simp: extends_def list_all_iff dest: query_quiet)

lemma get_caps_error: "cups_backend_get_caps E pid w = (Inl e, v) \<Longrightarrow> known_error e"
  by (erule get_caps_history) auto

section \<open>Submission\<close>

lemma sniff_quiet [world_ext]:
  "cups_backend_detect_format E path w = (r, w1) \<Longrightarrow> w1 = w @ [Open_read path]"
  by (simp add: cups_backend_detect_format_def)

text \<open>
  A document is handed over in chunks that are neither empty nor longer than the buffer; together
  they are a prefix of what can be read of the file from \<open>pos\<close> on, all of it when every write is
  accepted.
\<close>

lemma fread_split: "drop pos (readable fp) = fread fp pos n @ drop (pos + length (fread fp pos n)) (readable fp)"
proof -
  have "xs = take n xs @ drop (length (take n xs)) xs" for xs :: string
    by (cases "n \<le> length xs") simp_all
  from this [of "drop pos (readable fp)"] show ?thesis
    by (simp only: fread_def drop_drop add.commute)
qed

lemma write_chunks_full:
  assumes "write_chunks E fp pos w = (ok, v)"
  shows "\<exists>cs rest. v = w @ map Cups_write_data cs \<and> drop pos (readable fp) = concat cs @ rest
    \<and> (\<forall>c \<in> set cs. 0 < length c \<and> length c \<le> chunk_size) \<and> (ok \<longrightarrow> rest = [])
    \<and> (\<not> ok \<longrightarrow> cs \<noteq> [] \<and> \<not> cups_write_data E (w @ map Cups_write_data (butlast cs)) (last cs))"
  using assms
proof (induction E fp pos w rule: write_chunks.induct)
  case (1 E fp pos w)
  let ?c = "fread fp pos chunk_size"
  let ?w1 = "w @ [Cups_write_data ?c]"
  let ?left = "drop (pos + length ?c) (readable fp)"
  have split: "drop pos (readable fp) = ?c @ ?left" by (rule fread_split)
  have size: "length ?c \<le> chunk_size" by (simp add: fread_def)
  consider "?c = []" | "?c \<noteq> []" "\<not> cups_write_data E w ?c" | "?c \<noteq> []" "cups_write_data E w ?c" by blast
  then show ?case
  proof cases
    case 1
    then have "drop pos (readable fp) = []" by (simp add: fread_def)
    then show ?thesis using "1.prems" 1
      by (intro exI [of _ "[]"]) (simp add: write_chunks.simps Let_def del: drop_eq_Nil)
  next
    case 2
    then have v: "ok = False" "v = ?w1"
      using "1.prems" by (simp_all add: write_chunks.simps [of E fp pos w] Let_def)
    show ?thesis
      unfolding v by (rule exI [of _ "[?c]"], rule exI [of _ ?left]) (use split size 2 in simp)
  next
    case 3
    then have "write_chunks E fp (pos + length ?c) ?w1 = (ok, v)"
      using "1.prems" by (simp add: write_chunks.simps [of E fp pos w] Let_def)
    with "1.IH" [OF refl 3(1) refl] 3(2) obtain cs rest where cs: "v = ?w1 @ map Cups_write_data cs"
      "?left = concat cs @ rest"
      "\<forall>c \<in> set cs. 0 < length c \<and> length c \<le> chunk_size" "ok \<longrightarrow> rest = []"
      "\<not> ok \<longrightarrow> cs \<noteq> [] \<and> \<not> cups_write_data E (?w1 @ map Cups_write_data (butlast cs)) (last cs)"
      by auto
    have "drop pos (readable fp) = concat (?c # cs) @ rest"
      using split cs(2) by simp
    then show ?thesis
      using cs 3(1) size by (intro exI [of _ "?c # cs"] exI [of _ rest]) auto
  qed
qed

text \<open>The calls that print one document, and the calls that print a list of them.\<close>

record printed_doc =
  doc_path :: string
  doc_format :: string
  doc_last :: bool
  doc_chunks :: "string list"

definition doc_events :: "string \<Rightarrow> int \<Rightarrow> printed_doc \<Rightarrow> io list" where
  "doc_events pid jid d =
     [Open_read (doc_path d), Open_read (doc_path d),
      Cups_start_document pid jid (doc_path d) (doc_format d) (doc_last d)] @
     map Cups_write_data (doc_chunks d) @ [Cups_finish_document pid]"

definition is_cancel :: "io \<Rightarrow> bool" where
  "is_cancel e = (case e of Cups_cancel_job _ _ \<Rightarrow> True | _ \<Rightarrow> False)"

lemma is_cancel_simps [simp]: "is_cancel (Cups_cancel_job p j)"
  by (simp add: is_cancel_def)

lemma doc_events_no_cancel: "e \<in> set (doc_events pid jid d) \<Longrightarrow> \<not> is_cancel e \<and> quiet e"
  by (auto simp: doc_events_def is_cancel_def)

text \<open>
  \<open>printed_at E w d\<close>: the document \<open>d\<close>, printed when the history is \<open>w\<close>, has the format the file
  is found to have and, cut into chunks that fit the buffer, all that reading it delivers when it is
  opened: the whole file, unless reading fails on the way.
\<close>

definition printed_at :: "'k env \<Rightarrow> world \<Rightarrow> printed_doc \<Rightarrow> bool" where
  "printed_at E w d \<longleftrightarrow> fst (cups_backend_detect_format E (doc_path d) w) = Some (doc_format d) \<and>
     (\<exists>fp. os_open_read E (w @ [Open_read (doc_path d)]) (doc_path d) = Some fp \<and>
        concat (doc_chunks d) = readable fp \<and> (file_error fp = None \<longrightarrow> concat (doc_chunks d) = file_bytes fp)) \<and>
     (\<forall>c \<in> set (doc_chunks d). c \<noteq> [] \<and> length c \<le> chunk_size)"

fun printed_from :: "'k env \<Rightarrow> string \<Rightarrow> int \<Rightarrow> world \<Rightarrow> printed_doc list \<Rightarrow> bool" where
  "printed_from E pid jid w [] = True"
| "printed_from E pid jid w (d # ds) =
     (printed_at E w d \<and> printed_from E pid jid (w @ doc_events pid jid d) ds)"

text \<open>What a failed round leaves: some calls that neither cancel nor answer, then the cancel.\<close>

definition cancelled_ending :: "string \<Rightarrow> int \<Rightarrow> world \<Rightarrow> world \<Rightarrow> bool" where
  "cancelled_ending pid jid w v \<longleftrightarrow>
     (\<exists>es. v = w @ es @ [Cups_cancel_job pid jid] \<and> list_all (\<lambda>e. quiet e \<and> \<not> is_cancel e) es)"

lemma cancelled_prepend:
  assumes "cancelled_ending pid jid (w @ pre) v" "list_all (\<lambda>e. quiet e \<and> \<not> is_cancel e) pre"
  shows "cancelled_ending pid jid w v"
proof -
  from assms(1) obtain es where "v = w @ (pre @ es) @ [Cups_cancel_job pid jid]"
    "list_all (\<lambda>e. quiet e \<and> \<not> is_cancel e) es" by (auto simp: cancelled_ending_def)
  with assms(2) show ?thesis
    unfolding cancelled_ending_def by (intro exI [of _ "pre @ es"]) simp
qed

lemma submit_file_history:
  assumes "submit_file E pid jid path l w = (r, v)"
  shows "(r = None \<and> (\<exists>d. doc_path d = path \<and> doc_last d = l \<and> printed_at E w d \<and>
            v = w @ doc_events pid jid d))
       \<or> ((\<exists>e. r = Some e \<and> known_error e) \<and> cancelled_ending pid jid w v)"
proof -
  note ending = cancelled_ending_def is_cancel_def
  obtain fmt w1 where fmt: "cups_backend_detect_format E path w = (fmt, w1)" by fastforce
  note w1 = sniff_quiet [OF this]
  show ?thesis
  proof (cases fmt)
    case None
    with assms fmt w1 show ?thesis by (auto simp: submit_file_def ending)
  next
    case f: (Some f)
    show ?thesis
    proof (cases "os_open_read E w1 path")
      case None
      with assms fmt w1 f show ?thesis by (auto simp: submit_file_def ending)
    next
      case content: (Some fp)
      let ?w3 = "w1 @ [Open_read path, Cups_start_document pid jid path f l]"
      obtain ok w4 where chunks: "write_chunks E fp 0 ?w3 = (ok, w4)" by fastforce
      from write_chunks_full [OF this] obtain cs rest where cs: "w4 = ?w3 @ map Cups_write_data cs"
        "\<forall>c \<in> set cs. 0 < length c \<and> length c \<le> chunk_size"
        "drop 0 (readable fp) = concat cs @ rest" "ok \<longrightarrow> rest = []" by blast
      let ?d = "\<lparr>doc_path = path, doc_format = f, doc_last = l, doc_chunks = cs\<rparr>"
      have "ok \<longrightarrow> printed_at E w ?d"
        using fmt f w1 content cs(2-4) by (auto simp: printed_at_def readable_def)
      moreover have "(r = None \<and> ok \<and> v = w @ doc_events pid jid ?d)
         \<or> ((\<exists>e. r = Some e \<and> known_error e) \<and> cancelled_ending pid jid w v)"
        using assms fmt w1 f content chunks cs(1)
        by (auto simp: submit_file_def ending doc_events_def Let_def list_all_iff split: if_splits)
      ultimately show ?thesis
        by (auto intro!: exI [of _ ?d])
    qed
  qed
qed

text \<open>The flags of \<open>n\<close> documents: only the last one is the last.\<close>

definition last_flags :: "nat \<Rightarrow> bool list" where
  "last_flags n = map (\<lambda>i. i + 1 = n) [0..<n]"

lemma last_flags_Cons: "0 < n \<Longrightarrow> last_flags (Suc n) = False # last_flags n"
  by (rule nth_equalityI) (auto simp: last_flags_def nth_Cons split: nat.splits simp del: upt_Suc)

lemma last_flags_1 [simp]: "last_flags 0 = []" "last_flags (Suc 0) = [True]"
  by (simp_all add: last_flags_def)

lemma submit_files_history:
  assumes "submit_files E pid jid fs w = (r, v)"
  shows "(r = None \<and> (\<exists>ds. map doc_path ds = fs \<and> map doc_last ds = last_flags (length fs) \<and>
            printed_from E pid jid w ds \<and> v = w @ concat (map (doc_events pid jid) ds)))
       \<or> ((\<exists>e. r = Some e \<and> known_error e) \<and> cancelled_ending pid jid w v)"
  using assms
proof (induction fs arbitrary: w)
  case (Cons path fs)
  obtain r1 w1 where one: "submit_file E pid jid path (fs = []) w = (r1, w1)" by fastforce
  show ?case
  proof (cases r1)
    case (Some e)
    then show ?thesis
      using Cons.prems one submit_file_history [OF one] by auto
  next
    case None
    with Cons.prems one have rest: "submit_files E pid jid fs w1 = (r, v)" by simp
    from submit_file_history [OF one] None obtain d where d: "doc_path d = path"
      "doc_last d = (fs = [])" "printed_at E w d" "w1 = w @ doc_events pid jid d" by auto
    from Cons.IH [OF rest] show ?thesis
    proof (elim disjE conjE exE)
      fix ds
      assume *: "r = None" "map doc_path ds = fs" "map doc_last ds = last_flags (length fs)"
        "printed_from E pid jid w1 ds" "v = w1 @ concat (map (doc_events pid jid) ds)"
      then show ?thesis
        using d by (intro disjI1 conjI exI [of _ "d # ds"]) (cases fs; simp add: last_flags_Cons)+
    next
      fix e
      assume "r = Some e" "known_error e" "cancelled_ending pid jid w1 v"
      moreover have "list_all (\<lambda>e. quiet e \<and> \<not> is_cancel e) (doc_events pid jid d)"
        using doc_events_no_cancel by (fastforce simp: list_all_iff)
      ultimately show ?thesis
        using d(4) cancelled_prepend by blast
    qed
  qed
qed simp

text \<open>
  \<open>printed_run\<close>: between the two histories every file was handed over, in order, as far as it could be
  read and in a supported format, exactly the last document was flagged as the last, and nothing else happened.
\<close>

definition printed_run :: "'k env \<Rightarrow> string \<Rightarrow> int \<Rightarrow> string list \<Rightarrow> world \<Rightarrow> world \<Rightarrow> bool" where
  "printed_run E pid jid fs w v \<longleftrightarrow>
     (\<exists>ds. map doc_path ds = fs \<and> map doc_last ds = last_flags (length fs) \<and>
        printed_from E pid jid w ds \<and> v = w @ concat (map (doc_events pid jid) ds))"

text \<open>
  C9: A submission that succeeds created one CUPS job with the positive number it returns and
  handed over every file of the job, in order and in the format it was found to have, and flagged
  exactly the last document as the last. It cancelled nothing. Of each file it sent all that reading it
  delivered: the whole file if reading did not fail, and the part before the error if it did, since
  a failed read is taken for the end of the file.
\<close>

theorem submit_success:
  assumes "cups_backend_submit E pid title fs p w = (Inr jid, v)"
  shows "0 < jid \<and> fs \<noteq> [] \<and> printed_run E pid jid fs
    (w @ [Cups_create_job pid (case title of None \<Rightarrow> ''LuneOS print job'' | Some x \<Rightarrow> x) (add_options p)]) v"
proof -
  let ?t = "case title of None \<Rightarrow> ''LuneOS print job'' | Some x \<Rightarrow> x"
  let ?w1 = "w @ [Cups_create_job pid ?t (add_options p)]"
  have "submit_files E pid jid fs ?w1 = (None, v)" "0 < jid" "fs \<noteq> []"
    using assms by (auto simp: cups_backend_submit_def Let_def split: if_splits prod.splits option.splits)
  with submit_files_history [OF this(1)] show ?thesis by (simp add: printed_run_def)
qed

definition sample_params :: cups_job_params where
  "sample_params = \<lparr>cp_media = None, cp_media_type = None, cp_media_source = None, cp_sides = None,
     cp_color_mode = None, cp_print_scaling = None, cp_quality = 4, cp_copies = 1, cp_resolution = 0,
     cp_borderless = False, cp_top_margin = 0, cp_left_margin = 0, cp_right_margin = 0,
     cp_bottom_margin = 0, cp_margins_valid = False\<rparr>"

lemma sample_submit:
  "fst (cups_backend_submit sample_env ''Office'' None [''a'', ''b''] sample_params []) = Inr 7"
  by (simp add: cups_backend_submit_def submit_file_def cups_backend_detect_format_def sniff_def
      write_chunks.simps fread_def readable_def sample_env_def Let_def split_beta)

theorem submit_success_witness:
  "\<exists>v. cups_backend_submit sample_env ''Office'' None [''a'', ''b''] sample_params [] = (Inr 7, v) \<and>
    printed_run sample_env ''Office'' 7 [''a'', ''b'']
      [Cups_create_job ''Office'' ''LuneOS print job'' (add_options sample_params)] v"
proof -
  obtain v where v: "cups_backend_submit sample_env ''Office'' None [''a'', ''b''] sample_params [] = (Inr 7, v)"
    using fst2E [OF sample_submit] .
  from submit_success [OF v] show ?thesis
    using v by (intro exI [of _ v]) simp
qed

text \<open>
  C8: A submission that fails leaves no CUPS job behind: either none was created, or the last
  call cancels the one that was. The error code is one of the documented ones.
\<close>

theorem submit_failure:
  assumes "cups_backend_submit E pid title fs p w = (Inl e, v)"
  shows "known_error e \<and>
    (fs = [] \<and> v = w
     \<or> (\<exists>t. v = w @ [Cups_create_job pid t (add_options p)] \<and> cups_create_job E w pid t (add_options p) \<le> 0)
     \<or> (\<exists>t jid. 0 < jid \<and> jid = cups_create_job E w pid t (add_options p) \<and>
          cancelled_ending pid jid (w @ [Cups_create_job pid t (add_options p)]) v))"
proof -
  let ?t = "case title of None \<Rightarrow> ''LuneOS print job'' | Some x \<Rightarrow> x"
  let ?w1 = "w @ [Cups_create_job pid ?t (add_options p)]"
  let ?jid = "cups_create_job E w pid ?t (add_options p)"
  consider "fs = []" | "fs \<noteq> []" "?jid \<le> 0" | "fs \<noteq> []" "0 < ?jid" by fastforce
  then show ?thesis
  proof cases
    case 3
    then have "submit_files E pid ?jid fs ?w1 = (Some e, v)"
      using assms by (auto simp: cups_backend_submit_def Let_def split: if_splits prod.splits option.splits)
    from submit_files_history [OF this] 3(2) show ?thesis by auto
  qed (use assms in \<open>auto simp: cups_backend_submit_def Let_def\<close>)
qed

theorem submit_failure_witness:
  "\<exists>e v. cups_backend_submit (sample_env\<lparr>os_open_read := (\<lambda>w p. None)\<rparr>) ''Office'' None [''a''] sample_params [] = (Inl e, v)
    \<and> known_error e \<and> (\<exists>t. cancelled_ending ''Office'' 7 [Cups_create_job ''Office'' t (add_options sample_params)] v)"
proof -
  let ?E = "sample_env\<lparr>os_open_read := (\<lambda>w p. None)\<rparr>"
  have "fst (cups_backend_submit ?E ''Office'' None [''a''] sample_params []) = Inl PM_ERR_UNSUPPORTED_MIME_TYPE"
    by (simp add: cups_backend_submit_def submit_file_def cups_backend_detect_format_def sample_env_def Let_def)
  then obtain v where v: "cups_backend_submit ?E ''Office'' None [''a''] sample_params [] = (Inl PM_ERR_UNSUPPORTED_MIME_TYPE, v)"
    by (rule fst2E)
  have "cups_create_job ?E w n t os = 7" for w n t os
    by (simp add: sample_env_def)
  with submit_failure [OF v] have "\<exists>t. cancelled_ending ''Office'' 7 [Cups_create_job ''Office'' t (add_options sample_params)] v"
    by auto
  then show ?thesis using v by auto
qed

lemma doc_events_quiet: "e \<in> set (doc_events pid jid d) \<Longrightarrow> quiet e"
  using doc_events_no_cancel by blast

lemma cancelled_quiet: "cancelled_ending pid jid w v \<Longrightarrow> extends quiet w v"
  by (auto simp: cancelled_ending_def extends_def list_all_iff)

lemma submit_files_quiet: "submit_files E pid jid fs w = (r, v) \<Longrightarrow> extends quiet w v"
  by (drule submit_files_history)
    (auto simp: extends_def list_all_iff doc_events_quiet dest!: cancelled_quiet)

lemma submit_quiet [world_ext]:
  "cups_backend_submit E pid title fs p w = (r, v) \<Longrightarrow> extends quiet w v"
  by (auto simp: cups_backend_submit_def Let_def split: if_splits prod.splits
      dest!: submit_files_quiet dest: extends_step)

lemma submit_result:
  "cups_backend_submit E pid title fs p w = (Inr jid, v) \<Longrightarrow> 0 < jid"
  "cups_backend_submit E pid title fs p w = (Inl e, v) \<Longrightarrow> known_error e"
  by (auto simp: cups_backend_submit_def Let_def split: if_splits prod.splits option.splits
      dest!: submit_files_history)

section \<open>Options\<close>

lemma opt_entry_keys: "map fst (opt_entry n v) = (if v = None then [] else [n])"
  by (simp add: opt_entry_def split: option.splits)

text \<open>The option names, in the order they are added.\<close>

definition option_names :: "string list" where
  "option_names =
     [''media'', ''media-type'', ''media-source'', ''sides'', ''print-color-mode'', ''print-scaling'',
      ''print-quality'', ''copies'', ''printer-resolution'', ''media-top-margin'',
      ''media-left-margin'', ''media-right-margin'', ''media-bottom-margin'']"

lemma option_names_distinct: "distinct option_names"
  by code_simp

lemma subseq_pieces:
  "subseq xs as \<Longrightarrow> subseq ys bs \<Longrightarrow> subseq (xs @ ys) (as @ bs)"
  by (rule list_emb_append_mono)

definition margin_options :: "cups_job_params \<Rightarrow> (string \<times> string) list" where
  "margin_options p =
     (if cp_borderless p then
        [(''media-top-margin'', ''0''), (''media-left-margin'', ''0''),
         (''media-right-margin'', ''0''), (''media-bottom-margin'', ''0'')]
      else if cp_margins_valid p then
        [(''media-top-margin'', show_int (cp_top_margin p)),
         (''media-left-margin'', show_int (cp_left_margin p)),
         (''media-right-margin'', show_int (cp_right_margin p)),
         (''media-bottom-margin'', show_int (cp_bottom_margin p))]
      else [])"

definition base_options :: "cups_job_params \<Rightarrow> (string \<times> string) list" where
  "base_options p =
     opt_entry ''media'' (cp_media p) @ opt_entry ''media-type'' (cp_media_type p) @
     opt_entry ''media-source'' (cp_media_source p) @ opt_entry ''sides'' (cp_sides p) @
     opt_entry ''print-color-mode'' (cp_color_mode p) @ opt_entry ''print-scaling'' (cp_print_scaling p) @
     (if cp_quality p \<noteq> 0 then [(''print-quality'', show_int (cp_quality p))] else []) @
     (if 0 < cp_copies p then [(''copies'', show_int (cp_copies p))] else []) @
     (if 0 < cp_resolution p then [(''printer-resolution'', show_int (cp_resolution p) @ ''dpi'')] else [])"

lemma add_options_split: "add_options p = base_options p @ margin_options p"
  by (simp only: add_options_def base_options_def margin_options_def append_assoc)

lemma base_options_names: "fst ` set (base_options p) \<subseteq> set (take 9 option_names)"
proof -
  have "fst ` set (opt_entry n v) \<subseteq> {n}" for n v
    by (auto simp: opt_entry_def split: option.splits)
  then show ?thesis
    unfolding base_options_def set_append image_Un option_names_def by fastforce
qed

lemma add_options_names: "subseq (map fst (add_options p)) option_names"
proof -
  have eq: "option_names = [''media''] @ [''media-type''] @ [''media-source''] @ [''sides''] @
      [''print-color-mode''] @ [''print-scaling''] @ [''print-quality''] @ [''copies''] @
      [''printer-resolution''] @ [''media-top-margin'', ''media-left-margin'', ''media-right-margin'',
      ''media-bottom-margin'']"
    by (simp add: option_names_def)
  show ?thesis
    unfolding eq add_options_def map_append opt_entry_keys
    by (intro subseq_pieces) simp_all
qed

lemma add_options_distinct: "distinct (map fst (add_options p))"
proof -
  have "distinct xs" if "subseq xs ys" "distinct ys" for xs ys :: "string list"
    using that by (induction rule: list_emb.induct) (auto dest: list_emb_set)
  then show ?thesis using add_options_names option_names_distinct by blast
qed

text \<open>What each option is looked up as.\<close>

lemma map_of_pieces:
  "map_of (opt_entry n v @ xs) m = (if m = n \<and> v \<noteq> None then v else map_of xs m)"
  "map_of ((if b then [(n, x)] else []) @ xs) m = (if m = n \<and> b then Some x else map_of xs m)"
  by (auto simp: opt_entry_def split: option.split)

lemma option_lookup:
  "map_of (add_options p) ''media'' = cp_media p"
  "map_of (add_options p) ''media-type'' = cp_media_type p"
  "map_of (add_options p) ''media-source'' = cp_media_source p"
  "map_of (add_options p) ''sides'' = cp_sides p"
  "map_of (add_options p) ''print-color-mode'' = cp_color_mode p"
  "map_of (add_options p) ''print-scaling'' = cp_print_scaling p"
  "map_of (add_options p) ''print-quality'' = (if cp_quality p \<noteq> 0 then Some (show_int (cp_quality p)) else None)"
  "map_of (add_options p) ''copies'' = (if 0 < cp_copies p then Some (show_int (cp_copies p)) else None)"
  "map_of (add_options p) ''printer-resolution'' =
     (if 0 < cp_resolution p then Some (show_int (cp_resolution p) @ ''dpi'') else None)"
  by (simp_all add: add_options_def map_of_pieces del: map_of_append)

lemma margin_lookup:
  "map_of (add_options p) ''media-top-margin'' =
     (if cp_borderless p then Some ''0'' else if cp_margins_valid p then Some (show_int (cp_top_margin p)) else None)"
  "map_of (add_options p) ''media-left-margin'' =
     (if cp_borderless p then Some ''0'' else if cp_margins_valid p then Some (show_int (cp_left_margin p)) else None)"
  "map_of (add_options p) ''media-right-margin'' =
     (if cp_borderless p then Some ''0'' else if cp_margins_valid p then Some (show_int (cp_right_margin p)) else None)"
  "map_of (add_options p) ''media-bottom-margin'' =
     (if cp_borderless p then Some ''0'' else if cp_margins_valid p then Some (show_int (cp_bottom_margin p)) else None)"
  by (simp_all add: add_options_def map_of_pieces del: map_of_append)

text \<open>The resolution of the capabilities is the highest one per inch that is reported.\<close>

lemma max_resolution_highest:
  "max_resolution_of (Some vs) = Max (insert 0 {ipp_xres v | v. v \<in> set vs \<and> ipp_res_per_inch v})"
proof -
  let ?f = "\<lambda>m v. if ipp_res_per_inch v \<and> m < ipp_xres v then ipp_xres v else m"
  let ?S = "\<lambda>vs. {ipp_xres v | v. v \<in> set vs \<and> ipp_res_per_inch v}"
  have "foldl ?f m vs = Max (insert m (?S vs))" for m
  proof (induction vs arbitrary: m)
    case (Cons v vs)
    have S: "?S (v # vs) = (if ipp_res_per_inch v then insert (ipp_xres v) (?S vs) else ?S vs)" by auto
    have max: "Max (insert (max m x) S) = Max (insert m (insert x S))" if "finite S" for x and S :: "int set"
      using that by (cases "S = {}") (simp_all add: max.assoc)
    have "finite (?S vs)" by simp
    from max [OF this, of "ipp_xres v"] have "Max (insert (?f m v) (?S vs)) = Max (insert m (?S (v # vs)))"
      unfolding S by (auto simp: max_def)
    then show ?case using Cons [of "?f m v"] by (simp only: foldl_Cons)
  qed simp
  then show ?thesis by (simp add: max_resolution_of_def)
qed

text \<open>
  What \<open>w\<close> shows that was reported since \<open>w0\<close>: the highest resolution per inch in the printer's answer,
  and 0 when it gave none.
\<close>

definition resolution_reported :: "'k env \<Rightarrow> world \<Rightarrow> world \<Rightarrow> int \<Rightarrow> bool" where
  "resolution_reported E w0 w best \<longleftrightarrow> (\<exists>qs n http es.
     w = w0 @ qs @ Cups_find_supported n http ''printer-resolution-supported'' # es \<and>
     best = Max (insert 0 {ipp_xres v | v vs. cups_find_supported E (w0 @ qs) n http ''printer-resolution-supported'' = Some vs
       \<and> v \<in> set vs \<and> ipp_res_per_inch v}))"

lemma get_caps_resolution:
  assumes "cups_backend_get_caps E pid w = (Inr c, v)"
  shows "resolution_reported E w v (caps_max_resolution c)"
proof -
  obtain d where d: "cups_get_named_dest E w pid = Some d"
    using assms by (cases "cups_get_named_dest E w pid") (auto simp: cups_backend_get_caps_def)
  let ?n = "dest_name d"
  let ?http = "cups_connect_dest E (w @ [Cups_get_named_dest pid]) ?n"
  let ?w3 = "w @ [Cups_get_named_dest pid, Cups_connect_dest ?n, Cups_copy_dest_info ?n ?http]"
  have info: "cups_copy_dest_info E (w @ [Cups_get_named_dest pid, Cups_connect_dest ?n]) ?n ?http"
    using assms d by (auto simp: cups_backend_get_caps_def Let_def split: if_splits)
  obtain c' res w13 w14 w15 where q: "extends is_query ?w3 w13"
    "find_dest_supported E ?http ?n ''printer-resolution-supported'' w13 = (res, w14)" "extends is_query w14 w15"
    and v: "v = w15 @ (if ?http then [Http_close ?n] else [])" "(Inr c :: int + cups_caps) = Inr c'"
      "caps_max_resolution c' = max_resolution_of res"
    by (rule get_caps_queries [OF assms d refl refl refl info])
  have "max_resolution_of res = Max (insert 0 {ipp_xres v | v vs. res = Some vs \<and> v \<in> set vs \<and> ipp_res_per_inch v})"
    by (cases res) (simp_all add: max_resolution_highest, simp add: max_resolution_of_def)
  moreover obtain es where w13: "w13 = w @ es"
    using q(1) by (auto simp: extends_def)
  moreover obtain fs where "v = w14 @ fs"
    using q(3) v(1) by (auto simp: extends_def)
  moreover have "res = cups_find_supported E (w @ es) ?n ?http ''printer-resolution-supported''"
    "w14 = (w @ es) @ [Cups_find_supported ?n ?http ''printer-resolution-supported'']"
    using q(2) w13 by (simp_all add: find_dest_supported_def)
  ultimately show ?thesis
    unfolding resolution_reported_def using v(2,3)
    by (intro exI [of _ es] exI [of _ ?n] exI [of _ ?http] exI [of _ fs]) simp
qed

lemma submit_creates:
  assumes "fs \<noteq> []" "cups_backend_submit E pid (Some title) fs p w = (r, v)"
  shows "\<exists>es. v = w @ Cups_create_job pid title (add_options p) # es"
proof -
  let ?w1 = "w @ [Cups_create_job pid title (add_options p)]"
  obtain e u where sub: "submit_files E pid (cups_create_job E w pid title (add_options p)) fs ?w1 = (e, u)" by fastforce
  then obtain es where "u = ?w1 @ es" using submit_files_quiet unfolding extends_def by blast
  then show ?thesis
    using assms sub by (auto simp: cups_backend_submit_def Let_def split: if_splits)
qed

section \<open>Job state and queues\<close>

lemma cancel_quiet [world_ext]: "cups_backend_cancel E pid jid w = (r, v) \<Longrightarrow> extends quiet w v"
  by (auto simp: cups_backend_cancel_def)

lemma job_state_quiet [world_ext]:
  "cups_backend_get_job_state E pid jid w = (r, v) \<Longrightarrow> extends quiet w v"
  by (auto simp: cups_backend_get_job_state_def Let_def extends_def split: option.splits)

lemma list_jobs_quiet [world_ext]: "cups_backend_list_jobs E w = (r, v) \<Longrightarrow> extends quiet w v"
  by (auto simp: cups_backend_list_jobs_def)

lemma admin_quiet: "queue_admin_request E opn name info uri w = (r, v) \<Longrightarrow> extends quiet w v"
  by (auto simp: queue_admin_request_def Let_def split: if_splits)

lemma admin_error: "queue_admin_request E opn name info uri w = (Inl e, v) \<Longrightarrow> known_error e"
  by (auto simp: queue_admin_request_def Let_def split: if_splits)

lemma queue_quiet [world_ext]:
  "cups_backend_add_queue E name info uri w = (r, v) \<Longrightarrow> extends quiet w v"
  "cups_backend_remove_queue E name w = (r, v) \<Longrightarrow> extends quiet w v"
  by (auto simp: cups_backend_add_queue_def cups_backend_remove_queue_def split: if_splits
      dest: admin_quiet)

lemma queue_error:
  "cups_backend_add_queue E name info uri w = (Inl e, v) \<Longrightarrow> known_error e"
  "cups_backend_remove_queue E name w = (Inl e, v) \<Longrightarrow> known_error e"
  by (auto simp: cups_backend_add_queue_def cups_backend_remove_queue_def split: if_splits
      dest: admin_error)

section \<open>Properties\<close>

definition is_close :: "io \<Rightarrow> bool" where
  "is_close e = (case e of Http_close _ \<Rightarrow> True | _ \<Rightarrow> False)"

lemma query_no_close: "list_all is_query qs \<Longrightarrow> filter is_close qs = []"
  by (induction qs) (auto simp: is_query_def is_close_def split: io.splits)

text \<open>
  C29: A capability query closes the connection it opened, exactly once and last, whether or not the
  capabilities could be read; when the printer is unknown or the connection failed it closes nothing.
\<close>

theorem get_caps_closes:
  assumes "cups_backend_get_caps E pid w = (r, v)"
  shows "\<exists>es. v = w @ es \<and>
    (if \<exists>d. cups_get_named_dest E w pid = Some d \<and> cups_connect_dest E (w @ [Cups_get_named_dest pid]) (dest_name d)
     then es \<noteq> [] \<and> is_close (last es) \<and> filter is_close es = [last es]
     else filter is_close es = [])"
  using assms
proof (cases rule: get_caps_history)
  case unknown
  then show ?thesis by (simp add: is_close_def)
next
  case (asked d qs)
  show ?thesis
    using asked(1,3) query_no_close [OF asked(2)] by (auto simp: is_close_def)
qed

theorem get_caps_closes_witness:
  "\<exists>r es. cups_backend_get_caps sample_env ''Office'' [] = (r, es) \<and> filter is_close es = [last es]"
proof -
  obtain r v where v: "cups_backend_get_caps sample_env ''Office'' [] = (r, v)" by fastforce
  from get_caps_closes [OF v] show ?thesis
    using v by (simp add: sample_env_def sample_dest_def split: if_splits)
qed

text \<open>
  C26: The options of a CUPS job name no attribute twice. A borderless job asks for four zero margins,
  and margins are sent for no other job unless the client set them.
\<close>

theorem options_well_formed:
  "distinct (map fst (add_options p)) \<and>
   (\<forall>m \<in> {''media-top-margin'', ''media-left-margin'', ''media-right-margin'', ''media-bottom-margin''}.
      (cp_borderless p \<longrightarrow> map_of (add_options p) m = Some ''0'') \<and>
      (m \<in> fst ` set (add_options p) \<longrightarrow> cp_borderless p \<or> cp_margins_valid p))"
proof -
  let ?ms = "drop 9 option_names"
  have split: "map_of (add_options p) m = map_of (margin_options p) m \<and>
      (m \<in> fst ` set (add_options p) \<longleftrightarrow> m \<in> fst ` set (margin_options p))" if "m \<in> set ?ms" for m
  proof -
    have "m \<notin> fst ` set (base_options p)"
      using base_options_names [of p] that by (auto simp: option_names_def)
    moreover from this have "map_of (base_options p) m = None"
      by (simp add: map_of_eq_None_iff)
    ultimately show ?thesis
      by (simp add: add_options_split map_add_def image_Un split: option.splits)
  qed
  have ms: "{''media-top-margin'', ''media-left-margin'', ''media-right-margin'', ''media-bottom-margin''} = set ?ms"
    by (simp add: option_names_def)
  have "(cp_borderless p \<longrightarrow> map_of (margin_options p) m = Some ''0'') \<and>
      (m \<in> fst ` set (margin_options p) \<longrightarrow> cp_borderless p \<or> cp_margins_valid p)" if "m \<in> set ?ms" for m
    using that by (cases "cp_borderless p"; cases "cp_margins_valid p")
      (auto simp: margin_options_def option_names_def)
  then have "\<forall>m \<in> set ?ms. (cp_borderless p \<longrightarrow> map_of (add_options p) m = Some ''0'') \<and>
      (m \<in> fst ` set (add_options p) \<longrightarrow> cp_borderless p \<or> cp_margins_valid p)"
    by (intro ballI) (simp only: split)
  then show ?thesis
    unfolding ms by (intro conjI add_options_distinct)
qed

theorem options_well_formed_witness:
  "map_of (add_options (sample_params\<lparr>cp_borderless := True\<rparr>)) ''media-left-margin'' = Some ''0''"
  using options_well_formed [of "sample_params\<lparr>cp_borderless := True\<rparr>"] by simp

text \<open>The environment in which every file ends where reading it fails.\<close>

definition cut_off :: "open_file \<Rightarrow> open_file" where
  "cut_off fp = \<lparr>file_bytes = readable fp, file_error = None\<rparr>"

definition cut_files :: "'k env \<Rightarrow> 'k env" where
  "cut_files E = E\<lparr>os_open_read := (\<lambda>w p. map_option cut_off (os_open_read E w p))\<rparr>"

lemma fread_cut_off [simp]: "fread (cut_off fp) pos n = fread fp pos n"
  by (simp add: fread_def readable_def cut_off_def)

lemma write_cut_off: "write_chunks (cut_files E) (cut_off fp) pos w = write_chunks E fp pos w"
proof (induction E fp pos w rule: write_chunks.induct)
  case (1 E fp pos w)
  show ?case
    using "1.IH" [OF refl _ refl]
    by (simp add: write_chunks.simps [of _ _ pos w] Let_def) (simp add: cut_files_def)
qed

lemma detect_cut_off: "cups_backend_detect_format (cut_files E) path w = cups_backend_detect_format E path w"
  by (simp add: cups_backend_detect_format_def cut_files_def split: option.split)

lemma submit_file_cut_off: "submit_file (cut_files E) pid jid path l w = submit_file E pid jid path l w"
proof -
  have same: "os_open_read (cut_files E) v p = map_option cut_off (os_open_read E v p)"
    "cups_start_document (cut_files E) = cups_start_document E"
    "cups_finish_document (cut_files E) = cups_finish_document E"
    "cups_last_error (cut_files E) = cups_last_error E" for v p
    by (simp_all add: cut_files_def)
  show ?thesis
    by (simp add: submit_file_def detect_cut_off same write_cut_off Let_def split: option.split prod.split)
qed

text \<open>
  C32: An error while a page is read goes unnoticed: a submission makes the same calls with the same
  result, success included, as if each file ended where reading it failed, so that a page that could
  be read in part only is printed in part.
\<close>

theorem read_errors_unseen:
  "cups_backend_submit (cut_files E) pid title fs p w = cups_backend_submit E pid title fs p w"
proof -
  have "submit_files (cut_files E) pid jid fs v = submit_files E pid jid fs v" for jid v
    by (induction fs arbitrary: v) (simp_all add: submit_file_cut_off split: prod.split option.split)
  moreover have "cups_create_job (cut_files E) = cups_create_job E"
    by (simp add: cut_files_def)
  ultimately show ?thesis by (simp add: cups_backend_submit_def Let_def)
qed

definition bad_disk :: "sample_store env" where
  "bad_disk = sample_env\<lparr>os_open_read := (\<lambda>w p. Some \<lparr>file_bytes = ''%PDF-1.4'', file_error = Some 5\<rparr>)\<rparr>"

theorem read_errors_unseen_witness:
  "fst (cups_backend_submit bad_disk ''Office'' None [''a''] sample_params []) = Inr 7"
proof -
  have "fst (cups_backend_submit (cut_files bad_disk) ''Office'' None [''a''] sample_params []) = Inr 7"
    by (simp add: cut_files_def cut_off_def bad_disk_def cups_backend_submit_def submit_file_def
        cups_backend_detect_format_def sniff_def write_chunks.simps fread_def readable_def sample_env_def Let_def split_beta)
  then show ?thesis unfolding read_errors_unseen .
qed

text \<open>
  The format of a file is told from its first bytes: the three signatures are recognised
  whatever follows them, and a format that is found is a supported one, starts with its signature
  and is not changed by what comes after the sixteenth byte.
\<close>

lemma sniff_signatures:
  "sniff (''%PDF'' @ x) = Some ''application/pdf''
   \<and> sniff ([CHR 0xFF, CHR 0xD8, CHR 0xFF, c] @ x) = Some ''image/jpeg''
   \<and> sniff ([CHR 0x89, CHR ''P'', CHR ''N'', CHR ''G'', CHR 0x0D, CHR 0x0A, CHR 0x1A, CHR 0x0A] @ x) = Some ''image/png''
   \<and> sniff (take 16 y) = sniff y
   \<and> (sniff y = None \<or> sniff y = Some ''application/pdf'' \<and> take 4 y = ''%PDF''
        \<or> sniff y = Some ''image/jpeg'' \<and> take 3 y = [CHR 0xFF, CHR 0xD8, CHR 0xFF]
        \<or> sniff y = Some ''image/png'' \<and> take 4 y = [CHR 0x89, CHR ''P'', CHR ''N'', CHR ''G''])"
proof (intro conjI)
  have png: "take 4 y = [CHR 0x89, CHR ''P'', CHR ''N'', CHR ''G'']"
    if "take 8 y = [CHR 0x89, CHR ''P'', CHR ''N'', CHR ''G'', CHR 0x0D, CHR 0x0A, CHR 0x1A, CHR 0x0A]"
    using arg_cong [OF that, of "take 4"] by simp
  show "sniff y = None \<or> sniff y = Some ''application/pdf'' \<and> take 4 y = ''%PDF''
        \<or> sniff y = Some ''image/jpeg'' \<and> take 3 y = [CHR 0xFF, CHR 0xD8, CHR 0xFF]
        \<or> sniff y = Some ''image/png'' \<and> take 4 y = [CHR 0x89, CHR ''P'', CHR ''N'', CHR ''G'']"
    by (simp add: sniff_def Let_def min_def png)
qed (cases "length y \<le> 16"; simp add: sniff_def Let_def min_def)+

end
