(* ===== verification/Print_Service.thy ===== *)
theory Print_Service
  imports Param_Map Luna_Service_Utils Job_Manager Printer_Db Cups_Backend
begin

text \<open>
  The first part of \<open>src/print_service.c\<close>: the service's state, the events it posts, the periodic
  browse, the flat payloads of the Settings surface and the handlers of the category
  \<open>/printers\<close>. A handler maps the state before a message to the state after it (its C result is
  always true); its output is in the history \<open>svc_world\<close>.
\<close>

section \<open>State\<close>

record 'k print_service =
  svc_ports_handle :: bool
  svc_db :: "'k printer_db"
  svc_jobs :: job_manager
  svc_known :: "cups_printer list"
  svc_browse_source :: nat
  svc_poll_source :: nat
  svc_ssid :: "string option"
  svc_world :: world

type_synonym 'k handler = "'k env \<Rightarrow> bus \<Rightarrow> lsmessage \<Rightarrow> 'k print_service \<Rightarrow> 'k print_service"

abbreviation CAT_PRINTERS :: string where "CAT_PRINTERS \<equiv> ''/printers''"
abbreviation CAT_JOBS :: string where "CAT_JOBS \<equiv> ''/jobs''"
abbreviation CAT_ROOT :: string where "CAT_ROOT \<equiv> ''/''"
abbreviation METHOD_LIST :: string where "METHOD_LIST \<equiv> ''list''"
abbreviation METHOD_GET_STATUS :: string where "METHOD_GET_STATUS \<equiv> ''getStatus''"
abbreviation METHOD_GET_RENDER_STATUS :: string where "METHOD_GET_RENDER_STATUS \<equiv> ''getRenderStatus''"
abbreviation METHOD_LIST_PRINTERS :: string where "METHOD_LIST_PRINTERS \<equiv> ''listPrinters''"
abbreviation METHOD_LIST_JOBS :: string where "METHOD_LIST_JOBS \<equiv> ''listJobs''"

text \<open>A call that only reads and extends the world.\<close>

definition call :: "(world \<Rightarrow> 'a \<times> world) \<Rightarrow> 'k print_service \<Rightarrow> 'a \<times> 'k print_service" where
  "call f s = (let (r, w) = f (svc_world s) in (r, s\<lparr>svc_world := w\<rparr>))"

definition on_world :: "(world \<Rightarrow> world) \<Rightarrow> 'k print_service \<Rightarrow> 'k print_service" where
  "on_world f s = s\<lparr>svc_world := f (svc_world s)\<rparr>"

section \<open>Helpers\<close>

definition reply_err :: "'k env \<Rightarrow> bus \<Rightarrow> lsmessage \<Rightarrow> int \<Rightarrow> 'k print_service \<Rightarrow> 'k print_service" where
  "reply_err E h m code s = on_world (luna_service_message_reply_error_code E h m code) s"

definition reply_success :: "bus \<Rightarrow> lsmessage \<Rightarrow> 'k print_service \<Rightarrow> 'k print_service" where
  "reply_success h m s = on_world (luna_service_message_reply_success h m) s"

definition send_reply :: "'k env \<Rightarrow> bus \<Rightarrow> lsmessage \<Rightarrow> json \<Rightarrow> 'k print_service \<Rightarrow> 'k print_service" where
  "send_reply E h m reply s =
     on_world (\<lambda>w. snd (luna_service_message_validate_and_send E h m reply w)) s"

definition post :: "'k env \<Rightarrow> bus \<Rightarrow> string \<Rightarrow> string \<Rightarrow> json \<Rightarrow> 'k print_service \<Rightarrow> 'k print_service" where
  "post E h cat meth obj s = on_world (luna_service_post_subscription E h cat meth obj) s"

definition parse :: "'k env \<Rightarrow> lsmessage \<Rightarrow> json option" where
  "parse E m = luna_service_message_parse_and_validate E (msg_payload m)"

definition check_subscription ::
    "'k env \<Rightarrow> bus \<Rightarrow> lsmessage \<Rightarrow> 'k print_service \<Rightarrow> bool \<times> 'k print_service" where
  "check_subscription E h m s = call (luna_service_check_for_subscription_and_process E h m) s"

definition put_subscribed :: "bool \<Rightarrow> (string \<times> json) list" where
  "put_subscribed subscribed = [(''subscribed'', JBool subscribed)]"

definition put_ok :: "(string \<times> json) list" where
  "put_ok = [(''returnValue'', JBool True)]"

definition printer_to_json :: "cups_printer \<Rightarrow> (string \<times> json) list" where
  "printer_to_json p =
     [(''printerID'', JStr (prn_id p)), (''printerName'', JStr (prn_name p)),
      (''printerAddress'', JStr (prn_address p))]"

definition source_of :: "cups_printer \<Rightarrow> json" where
  "source_of p = JStr (if prn_is_discovered p then ''fromZeroconf'' else ''fromManualAdd'')"

definition find_known :: "'k print_service \<Rightarrow> string \<Rightarrow> cups_printer option" where
  "find_known s printer_id = find (\<lambda>p. prn_id p = printer_id) (svc_known s)"

section \<open>The flat payloads of the Settings page\<close>

definition ports_printer_json :: "cups_printer \<Rightarrow> json" where
  "ports_printer_json p =
     JObj [(''printerId'', JStr (prn_id p)), (''name'', JStr (prn_name p)),
           (''uri'', JStr (prn_uri p)), (''location'', JStr (prn_location p)),
           (''makeAndModel'', JStr (prn_make_and_model p)), (''state'', JStr (prn_state p)),
           (''discovered'', JBool (prn_is_discovered p))]"

definition ports_printers_payload ::
    "'k env \<Rightarrow> 'k print_service \<Rightarrow> (string \<times> json) list \<times> 'k print_service" where
  "ports_printers_payload E s =
     (let arr = JArr (map ports_printer_json (svc_known s));
          (current, db1) = printer_db_get_current E (svc_db s)
      in (put_ok @ [(''printers'', arr), (''defaultPrinterId'', JStr current)], s\<lparr>svc_db := db1\<rparr>))"

definition queue_job_json :: "cups_queue_job \<Rightarrow> json" where
  "queue_job_json j =
     JObj [(''jobId'', JInt (qj_id j)), (''title'', JStr (qj_title j)),
           (''printerId'', JStr (qj_dest j)), (''printerName'', JStr (qj_dest j)),
           (''state'', JStr (cups_backend_jobstate_string (qj_ipp_state j))),
           (''pages'', JInt 0), (''completedPages'', JInt 0)]"

definition ports_jobs_payload ::
    "'k env \<Rightarrow> 'k print_service \<Rightarrow> (string \<times> json) list \<times> 'k print_service" where
  "ports_jobs_payload E s =
     (let (jobs, s1) = call (cups_backend_list_jobs E) s
      in (put_ok @ [(''jobs'', JArr (map queue_job_json jobs))], s1))"

definition ports_post_printers :: "'k env \<Rightarrow> 'k print_service \<Rightarrow> 'k print_service" where
  "ports_post_printers E s =
     (if \<not> svc_ports_handle s then s
      else let (obj, s1) = ports_printers_payload E s
           in post E Bus_ports CAT_ROOT METHOD_LIST_PRINTERS (JObj obj) s1)"

definition ports_post_jobs :: "'k env \<Rightarrow> 'k print_service \<Rightarrow> 'k print_service" where
  "ports_post_jobs E s =
     (if \<not> svc_ports_handle s then s
      else let (obj, s1) = ports_jobs_payload E s
           in post E Bus_ports CAT_ROOT METHOD_LIST_JOBS (JObj obj) s1)"

section \<open>Discovery\<close>

definition printer_event_json :: "cups_printer \<Rightarrow> string \<Rightarrow> json" where
  "printer_event_json p event_type =
     JObj (printer_to_json p @ [(''eventType'', JStr event_type), (''source'', source_of p)])"

definition post_printer_event ::
    "'k env \<Rightarrow> cups_printer \<Rightarrow> string \<Rightarrow> 'k print_service \<Rightarrow> 'k print_service" where
  "post_printer_event E p event_type s =
     post E Bus_legacy CAT_PRINTERS METHOD_LIST (printer_event_json p event_type) s"

text \<open>The two loops of the browse: post \<open>event_type\<close> for every printer of \<open>ps\<close> missing in \<open>others\<close>.\<close>

definition missing_in :: "cups_printer list \<Rightarrow> cups_printer list \<Rightarrow> cups_printer list" where
  "missing_in others ps = filter (\<lambda>p. \<not> list_ex (\<lambda>q. prn_id q = prn_id p) others) ps"

definition post_missing ::
    "'k env \<Rightarrow> cups_printer list \<Rightarrow> cups_printer list \<Rightarrow> string \<Rightarrow> 'k print_service \<Rightarrow> 'k print_service" where
  "post_missing E others ps event_type s =
     fold (\<lambda>p. post_printer_event E p event_type) (missing_in others ps) s"

definition browse_printers :: "'k env \<Rightarrow> 'k print_service \<Rightarrow> 'k print_service" where
  "browse_printers E s =
     (let (current, s1) = call (cups_backend_enumerate E) s;
          s2 = post_missing E (svc_known s1) current ''Add'' s1;
          s3 = post_missing E current (svc_known s2) ''Rmv'' s2
      in ports_post_printers E (s3\<lparr>svc_known := current\<rparr>))"

section \<open>/printers\<close>

definition printers_list :: "'k handler" where
  "printers_list E h m s =
     (case parse E m of None \<Rightarrow> reply_err E h m PM_ERR_BAD_PARAM_SYNTAX s
      | Some parsed \<Rightarrow>
        let (subscribed, s1) = check_subscription E h m s;
            s2 = send_reply E h m (JObj (put_ok @ put_subscribed subscribed)) s1
        in if subscribed then fold (\<lambda>p. post_printer_event E p ''Add'') (svc_known s2) s2 else s2)"

definition added_json :: "printer_record \<Rightarrow> json" where
  "added_json r =
     JObj [(''printerID'', JStr (rec_printer_id r)),
           (''printerName'', JStr (or_empty (rec_printer_name r))),
           (''printerAddress'', JStr (or_empty (rec_printer_address r))),
           (''ssid'', JStr (or_empty (rec_ssid r)))]"

definition printers_list_added :: "'k handler" where
  "printers_list_added E h m s =
     (case parse E m of None \<Rightarrow> reply_err E h m PM_ERR_BAD_PARAM_SYNTAX s
      | Some parsed \<Rightarrow>
        let ssid_all = (luna_get_bool parsed ''ssidAll'' = Some True);
            recs = printer_db_list E (svc_db s) (if ssid_all then None else svc_ssid s)
        in send_reply E h m (JObj (put_ok @ [(''addList'', JArr (map added_json recs))])) s)"

definition active_json :: "cups_printer \<Rightarrow> json" where
  "active_json p =
     JObj (printer_to_json p @
       [(''supportsIpp'', JBool (prn_supports_ipp p)), (''supportsPdl'', JBool False),
        (''source'', source_of p), (''unusableAddress'', JBool False)])"

definition printers_list_active :: "'k handler" where
  "printers_list_active E h m s =
     send_reply E h m
       (JObj (put_ok @ [(''activePrinters'', JArr (map active_json (svc_known s)))])) s"

definition printers_get_current :: "'k handler" where
  "printers_get_current E h m s =
     (let (current, db1) = printer_db_get_current E (svc_db s);
          s1 = s\<lparr>svc_db := db1\<rparr>;
          p = (if current \<noteq> [] then find_known s1 current else None)
      in case p of
           Some p \<Rightarrow> send_reply E h m (JObj (put_ok @ printer_to_json p)) s1
         | None \<Rightarrow> send_reply E h m (JObj (put_ok @
             [(''printerID'', JStr current), (''printerName'', JStr []),
              (''printerAddress'', JStr [])])) s1)"

definition set_current :: "'k env \<Rightarrow> string \<Rightarrow> 'k print_service \<Rightarrow> bool \<times> 'k print_service" where
  "set_current E printer_id s =
     (let (ok, db1, w1) = printer_db_set_current E (svc_db s) (Some printer_id) (svc_world s)
      in (ok, s\<lparr>svc_db := db1, svc_world := w1\<rparr>))"

definition printers_set_current :: "'k handler" where
  "printers_set_current E h m s =
     (case parse E m of None \<Rightarrow> reply_err E h m PM_ERR_BAD_PARAM_SYNTAX s
      | Some parsed \<Rightarrow>
        (case luna_get_string parsed ''printerID'' of
           None \<Rightarrow> reply_err E h m PM_ERR_BAD_PARAM_SYNTAX s
         | Some printer_id \<Rightarrow>
           let (ok, s1) = set_current E printer_id s
           in if \<not> ok then reply_err E h m PM_ERR_SET_CURRENT_PRINTER_FAILED s1
              else reply_success h m s1))"

definition db_add ::
    "'k env \<Rightarrow> string \<Rightarrow> string option \<Rightarrow> string \<Rightarrow> 'k print_service \<Rightarrow> (int + unit) \<times> 'k print_service" where
  "db_add E printer_id printer_name printer_address s =
     (let (r, db1, w1) = printer_db_add E (svc_db s) printer_id printer_name
                           (Some printer_address) (svc_ssid s) (svc_world s)
      in (r, s\<lparr>svc_db := db1, svc_world := w1\<rparr>))"

definition db_delete ::
    "'k env \<Rightarrow> string \<Rightarrow> string option \<Rightarrow> 'k print_service \<Rightarrow> bool \<times> 'k print_service" where
  "db_delete E printer_id ssid s =
     (let (ok, db1, w1) = printer_db_delete E (svc_db s) printer_id ssid (svc_world s)
      in (ok, s\<lparr>svc_db := db1, svc_world := w1\<rparr>))"

definition printers_add :: "'k handler" where
  "printers_add E h m s =
     (case parse E m of None \<Rightarrow> reply_err E h m PM_ERR_BAD_PARAM_SYNTAX s
      | Some parsed \<Rightarrow>
        (case (luna_get_string parsed ''printerID'', luna_get_string parsed ''printerAddress'') of
           (Some printer_id, Some printer_address) \<Rightarrow>
             if \<not> is_ip_address E printer_address
             then reply_err E h m PM_ERR_PRINTER_IP_NOT_VALID s
             else (case db_add E printer_id (luna_get_string parsed ''printerName'')
                          printer_address s of
                 (Inl err, s1) \<Rightarrow> reply_err E h m err s1
               | (Inr _, s1) \<Rightarrow> reply_success h m s1)
         | _ \<Rightarrow> reply_err E h m PM_ERR_BAD_PARAM_SYNTAX s))"

definition printers_delete :: "'k handler" where
  "printers_delete E h m s =
     (case parse E m of None \<Rightarrow> reply_err E h m PM_ERR_BAD_PARAM_SYNTAX s
      | Some parsed \<Rightarrow>
        (case luna_get_string parsed ''printerID'' of
           None \<Rightarrow> reply_err E h m PM_ERR_BAD_PARAM_SYNTAX s
         | Some printer_id \<Rightarrow>
           let (ok, s1) = db_delete E printer_id (luna_get_string parsed ''ssid'') s
           in if \<not> ok then reply_err E h m PM_ERR_PRINTER_UNKNOWN_ID s1
              else reply_success h m s1))"

text \<open>Mapped values in their order, each webOS keyword once, unmapped ones dropped.\<close>

fun append_mapped_list ::
    "string list \<Rightarrow> string list \<Rightarrow> (string option \<Rightarrow> string option) \<Rightarrow> string list" where
  "append_mapped_list seen [] f = []"
| "append_mapped_list seen (v # vs) f =
     (case f (Some v) of
        None \<Rightarrow> append_mapped_list seen vs f
      | Some webos \<Rightarrow>
          if webos \<in> set seen then append_mapped_list seen vs f
          else webos # append_mapped_list (webos # seen) vs f)"

definition capability_list :: "string list \<Rightarrow> (string option \<Rightarrow> string option) \<Rightarrow> json" where
  "capability_list vs f = JArr (map JStr (append_mapped_list [] vs f))"

definition caps_json :: "cups_caps \<Rightarrow> json" where
  "caps_json c =
     JObj (put_ok @
       [(''mediaSize'', capability_list (caps_media_sizes c) pm_media_pwg_to_webos),
        (''mediaType'', capability_list (caps_media_types c) pm_mediatype_ipp_to_webos),
        (''trays'', capability_list (caps_trays c) pm_tray_ipp_to_webos),
        (''canDuplex'', JBool (caps_can_duplex c)),
        (''hasPhotoTray'', JBool (caps_has_photo_tray c)),
        (''canPrintBorderless'', JBool (caps_can_borderless c)),
        (''canPrintQualityDraft'', JBool (caps_quality_draft c)),
        (''canPrintQualityNormal'', JBool (caps_quality_normal c)),
        (''canPrintQualityHigh'', JBool (caps_quality_high c)),
        (''hasColor'', JBool (caps_has_color c)),
        (''hasFaceDownTray'', JBool False),
        (''isSupported'', JBool (caps_is_supported c)),
        (''canCancel'', JBool (caps_can_cancel c)),
        (''canGrayscale'', JBool (caps_can_grayscale c))])"

definition printers_get_capabilities :: "'k handler" where
  "printers_get_capabilities E h m s =
     (case parse E m of None \<Rightarrow> reply_err E h m PM_ERR_BAD_PARAM_SYNTAX s
      | Some parsed \<Rightarrow>
        (case luna_get_string parsed ''printerID'' of
           None \<Rightarrow> reply_err E h m PM_ERR_BAD_PARAM_SYNTAX s
         | Some printer_id \<Rightarrow>
           (case call (cups_backend_get_caps E printer_id) s of
              (Inl err, s1) \<Rightarrow> reply_err E h m err s1
            | (Inr caps, s1) \<Rightarrow> send_reply E h m (caps_json caps) s1)))"

end
