(* ===== verification/Print_Jobs.thy ===== *)
theory Print_Jobs
  imports Print_Service
begin

text \<open>
  The second part of \<open>src/print_service.c\<close>: the job status stream, the poll that feeds it from
  CUPS, and the handlers of the category \<open>/jobs\<close>. A handler that works on a job reads it from
  the table, computes on the copy and puts it back where the C code assigns through the pointer.
\<close>

section \<open>Job status\<close>

definition put_job :: "print_job \<Rightarrow> 'k print_service \<Rightarrow> 'k print_service" where
  "put_job job s = s\<lparr>svc_jobs := jm_put (svc_jobs s) job\<rparr>"

definition find_job :: "'k print_service \<Rightarrow> int \<Rightarrow> print_job option" where
  "find_job s k = job_manager_find (svc_jobs s) k"

definition get_time :: "'k env \<Rightarrow> 'k print_service \<Rightarrow> int \<times> 'k print_service" where
  "get_time E s = (monotonic_time E (svc_world s), on_world (\<lambda>w. w @ [Clock]) s)"

definition job_status_base :: "print_job \<Rightarrow> (string \<times> json) list" where
  "job_status_base job =
     [(''jobID'', JInt (job_id job)), (''printerID'', JStr (job_printer_id job)),
      (''description'', JStr (description job)), (''appName'', JStr (app_name job))]"

abbreviation G_USEC_PER_SEC :: int where "G_USEC_PER_SEC \<equiv> 1000000"

definition job_state_json ::
    "print_job \<Rightarrow> string \<Rightarrow> string option \<Rightarrow> string list \<Rightarrow> int \<Rightarrow> json" where
  "job_state_json job printer_state job_status blocked now =
     JObj (job_status_base job @
       [(''statusId'', JStr ''JOBSTATE''), (''printerState'', JStr printer_state)] @
       (case job_status of None \<Rightarrow> [] | Some st \<Rightarrow> [(''jobStatus'', JStr st)]) @
       (if printer_state = ''DONE''
        then [(''timeActive'', JInt (if started_at job \<noteq> 0
                then int32 (c_div (now - started_at job) G_USEC_PER_SEC) else 0)),
              (''timeFromQueued'', JInt (int32 (c_div (now - queued_at job) G_USEC_PER_SEC)))]
        else [(''currentPage'', JInt (current_page job)), (''totalPages'', JInt (total_pages job)),
              (''blockedReasons'', JArr (map JStr blocked))]))"

definition post_job_state ::
    "'k env \<Rightarrow> print_job \<Rightarrow> string \<Rightarrow> string option \<Rightarrow> string list \<Rightarrow> 'k print_service \<Rightarrow> 'k print_service" where
  "post_job_state E job printer_state job_status blocked s =
     (let (now, s1) = (if printer_state = ''DONE'' then get_time E s else (0, s))
      in post E Bus_legacy CAT_JOBS METHOD_GET_STATUS
           (job_state_json job printer_state job_status blocked now) s1)"

definition page_info_json :: "print_job \<Rightarrow> string \<Rightarrow> int \<Rightarrow> json" where
  "page_info_json job status_id page =
     JObj (job_status_base job @
       [(''statusId'', JStr status_id), (''pageNum'', JInt page), (''copyNum'', JInt 1),
        (''currentPage'', JInt page), (''totalPages'', JInt (total_pages job)),
        (''pageCorrupted'', JStr ''false''), (''pageTime'', JInt 0)])"

definition post_page_info ::
    "'k env \<Rightarrow> print_job \<Rightarrow> string \<Rightarrow> int \<Rightarrow> 'k print_service \<Rightarrow> 'k print_service" where
  "post_page_info E job status_id page s =
     post E Bus_legacy CAT_JOBS METHOD_GET_STATUS (page_info_json job status_id page) s"

section \<open>The poll\<close>

definition blocked_reasons :: "cups_job_state \<Rightarrow> string list" where
  "blocked_reasons st =
     List.map_filter (\<lambda>r. pm_reason_ipp_to_webos (Some r) (js_is_toner st)) (js_reasons st)"

text \<open>One job of the loop in \<open>poll_jobs\<close>, already known to be submitted.\<close>

definition poll_job :: "'k env \<Rightarrow> print_job \<Rightarrow> 'k print_service \<Rightarrow> 'k print_service" where
  "poll_job E job s =
     (case call (cups_backend_get_job_state E (job_printer_id job) (cups_job_id job)) s of
        (None, s1) \<Rightarrow>
          let job1 = job\<lparr>phase := JOB_PHASE_DONE\<rparr>
          in post_job_state E job1 ''DONE'' (Some ''Success'') [] (put_job job1 s1)
      | (Some st, s1) \<Rightarrow>
          let (printer_state, job_status) = pm_jobstate_ipp_to_webos (js_ipp_state st);
              blocked = blocked_reasons st
          in if last_printer_state job = Some printer_state then s1
             else
               let (job1, s2) =
                     (if printer_state = ''RUNNING'' \<and> started_at job = 0
                      then let (now, s') = get_time E s1 in (job\<lparr>started_at := now\<rparr>, s')
                      else (job, s1));
                   s3 = post_job_state E job1 printer_state job_status blocked s2;
                   job2 = job1\<lparr>last_printer_state := Some printer_state\<rparr>;
                   job3 = (if printer_state = ''DONE'' then job2\<lparr>phase := JOB_PHASE_DONE\<rparr> else job2)
               in put_job job3 s3)"

fun poll_loop :: "'k env \<Rightarrow> int list \<Rightarrow> bool \<Rightarrow> 'k print_service \<Rightarrow> bool \<times> 'k print_service" where
  "poll_loop E [] any_active s = (any_active, s)"
| "poll_loop E (k # ks) any_active s =
     (case find_job s k of
        None \<Rightarrow> poll_loop E ks any_active s
      | Some job \<Rightarrow>
          if phase job \<noteq> JOB_PHASE_SUBMITTED then poll_loop E ks any_active s
          else poll_loop E ks True (poll_job E job s))"

text \<open>The result false is G_SOURCE_REMOVE: the timer is gone.\<close>

definition poll_jobs :: "'k env \<Rightarrow> 'k print_service \<Rightarrow> bool \<times> 'k print_service" where
  "poll_jobs E s =
     (let (any_active, s1) = poll_loop E (job_manager_list E (svc_jobs s)) False s;
          s2 = ports_post_jobs E s1
      in if \<not> any_active then (False, s2\<lparr>svc_poll_source := 0\<rparr>) else (True, s2))"

abbreviation JOB_POLL_INTERVAL_MS :: nat where "JOB_POLL_INTERVAL_MS \<equiv> 1000"

definition ensure_polling :: "'k env \<Rightarrow> 'k print_service \<Rightarrow> 'k print_service" where
  "ensure_polling E s =
     (if svc_poll_source s \<noteq> 0 then s
      else s\<lparr>svc_poll_source := timeout_add E (svc_world s),
             svc_world := svc_world s @ [Timer_add JOB_POLL_INTERVAL_MS]\<rparr>)"

section \<open>open, params and areas\<close>

definition open_job ::
    "'k env \<Rightarrow> string \<Rightarrow> string \<Rightarrow> string \<Rightarrow> 'k print_service \<Rightarrow> print_job \<times> 'k print_service" where
  "open_job E pid desc app s =
     (let (job, jm, w) = job_manager_open E (svc_jobs s) pid desc app (svc_world s)
      in (job, s\<lparr>svc_jobs := jm, svc_world := w\<rparr>))"

definition remove_job :: "int \<Rightarrow> 'k print_service \<Rightarrow> 'k print_service" where
  "remove_job k s =
     (let (jm, w) = job_manager_remove (svc_jobs s) k (svc_world s)
      in s\<lparr>svc_jobs := jm, svc_world := w\<rparr>)"

text \<open>The branch for an open that fails is dead: \<open>job_manager_open\<close> never returns NULL.\<close>

definition jobs_open :: "'k handler" where
  "jobs_open E h m s =
     (case parse E m of None \<Rightarrow> reply_err E h m PM_ERR_BAD_PARAM_SYNTAX s
      | Some parsed \<Rightarrow>
        (case (luna_get_string parsed ''printerID'', luna_get_string parsed ''description'',
               luna_get_string parsed ''appName'') of
           (Some printer_id, Some desc, Some app) \<Rightarrow>
             let (job, s1) = open_job E printer_id desc app s;
                 (subscribed, s2) = check_subscription E h m s1
             in send_reply E h m
                  (JObj (put_ok @ [(''jobID'', JInt (job_id job))] @ put_subscribed subscribed)) s2
         | _ \<Rightarrow> reply_err E h m PM_ERR_BAD_PARAM_SYNTAX s))"

definition put_params :: "print_params \<Rightarrow> (string \<times> json) list" where
  "put_params p =
     [(''mediaSize'', JStr (media_size p)), (''mediaType'', JStr (media_type p)),
      (''printQuality'', JStr (print_quality p)), (''duplex'', JStr (duplex p)),
      (''dryTime'', JStr (dry_time p)), (''color'', JStr (color p)), (''tray'', JStr (tray p)),
      (''numCopies'', JInt (num_copies p)), (''borderless'', JBool (borderless p)),
      (''autoRotate'', JBool (auto_rotate p)), (''autoScale'', JBool (auto_scale p)),
      (''topInset'', JDouble (top_inset p)), (''leftInset'', JDouble (left_inset p)),
      (''rightInset'', JDouble (right_inset p)), (''bottomInset'', JDouble (bottom_inset p))]"

definition put_margins :: "printable_area \<Rightarrow> (string \<times> json) list" where
  "put_margins a =
     [(''pageTopMargin'', JDouble (page_top_margin a)),
      (''pageLeftMargin'', JDouble (page_left_margin a)),
      (''pageRightMargin'', JDouble (page_right_margin a)),
      (''pageBottomMargin'', JDouble (page_bottom_margin a))]"

text \<open>The common prefix of the handlers that name a job: parse, jobID, lookup.\<close>

definition with_job ::
    "'k env \<Rightarrow> bus \<Rightarrow> lsmessage \<Rightarrow> (json \<Rightarrow> print_job \<Rightarrow> 'k print_service) \<Rightarrow>
     'k print_service \<Rightarrow> 'k print_service" where
  "with_job E h m body s =
     (case parse E m of None \<Rightarrow> reply_err E h m PM_ERR_BAD_PARAM_SYNTAX s
      | Some parsed \<Rightarrow>
        (case luna_get_int parsed ''jobID'' of
           None \<Rightarrow> reply_err E h m PM_ERR_BAD_PARAM_SYNTAX s
         | Some k \<Rightarrow>
           (case find_job s k of
              None \<Rightarrow> reply_err E h m PM_ERR_UNKNOWN_JOB_ID s
            | Some job \<Rightarrow> body parsed job)))"

definition jobs_get_current_params :: "'k handler" where
  "jobs_get_current_params E h m s =
     with_job E h m (\<lambda>parsed job.
       let p = params job;
           sheet = (case job_compute_area (oor E) (Some (media_size p)) p 300 of
               Inl _ \<Rightarrow> []
             | Inr a \<Rightarrow> [(''pageWidth'', JDouble (page_width a)),
                         (''pageHeight'', JDouble (page_height a))] @ put_margins a)
       in send_reply E h m (JObj (put_ok @ put_params p @ sheet)) s) s"

text \<open>
  \<open>editPrintParams\<close> changes the job field by field and stops at the first value it rejects; what
  was changed before stays. An edit maps the parameters to a possible error code and the
  parameters left behind.
\<close>

type_synonym edit = "print_params \<Rightarrow> int option \<times> print_params"

fun run_edits :: "edit list \<Rightarrow> edit" where
  "run_edits [] p = (None, p)"
| "run_edits (f # fs) p =
     (case f p of (Some e, p1) \<Rightarrow> (Some e, p1) | (None, p1) \<Rightarrow> run_edits fs p1)"

definition take_enum ::
    "json \<Rightarrow> string \<Rightarrow> (string \<Rightarrow> print_params \<Rightarrow> print_params) \<Rightarrow> (string option \<Rightarrow> bool) \<Rightarrow> int \<Rightarrow> edit" where
  "take_enum parsed key update validator errcode p =
     (case luna_get_string parsed key of
        None \<Rightarrow> (None, p)
      | Some str \<Rightarrow> if \<not> validator (Some str) then (Some errcode, p) else (None, update str p))"

definition take_copies :: "json \<Rightarrow> edit" where
  "take_copies parsed p =
     (case luna_get_int parsed ''numCopies'' of
        None \<Rightarrow> (None, p)
      | Some n \<Rightarrow> if n < 1 \<or> 99 < n then (Some PM_ERR_BAD_PARAM_SYNTAX, p)
                  else (None, p\<lparr>num_copies := n\<rparr>))"

definition take_bool ::
    "json \<Rightarrow> string \<Rightarrow> (bool \<Rightarrow> print_params \<Rightarrow> print_params) \<Rightarrow> edit" where
  "take_bool parsed key update p =
     (None, case luna_get_bool parsed key of None \<Rightarrow> p | Some b \<Rightarrow> update b p)"

text \<open>An inset that is given also marks the insets as set by the client.\<close>

definition take_inset ::
    "json \<Rightarrow> string \<Rightarrow> (double \<Rightarrow> print_params \<Rightarrow> print_params) \<Rightarrow> edit" where
  "take_inset parsed key update p =
     (None, case luna_get_double parsed key of None \<Rightarrow> p
            | Some d \<Rightarrow> (update d p)\<lparr>insets_set := True\<rparr>)"

definition check_borderless :: edit where
  "check_borderless p =
     (if borderless p \<and> insets_set p then (Some PM_ERR_INSETS_WITH_BORDERLESS, p) else (None, p))"

definition param_edits :: "json \<Rightarrow> edit list" where
  "param_edits parsed =
     [take_enum parsed ''mediaSize'' (\<lambda>x. media_size_update (\<lambda>_. x)) pm_media_is_valid PM_ERR_BAD_MEDIA_SIZE,
      take_enum parsed ''mediaType'' (\<lambda>x. media_type_update (\<lambda>_. x)) pm_mediatype_is_valid PM_ERR_BAD_MEDIA_TYPE,
      take_enum parsed ''printQuality'' (\<lambda>x. print_quality_update (\<lambda>_. x)) pm_quality_is_valid PM_ERR_BAD_PRINT_QUALITY,
      take_enum parsed ''duplex'' (\<lambda>x. duplex_update (\<lambda>_. x)) pm_duplex_is_valid PM_ERR_BAD_DUPLEX,
      take_enum parsed ''dryTime'' (\<lambda>x. dry_time_update (\<lambda>_. x)) pm_drytime_is_valid PM_ERR_BAD_DRYTIME,
      take_enum parsed ''color'' (\<lambda>x. color_update (\<lambda>_. x)) pm_color_is_valid PM_ERR_BAD_COLOR,
      take_enum parsed ''tray'' (\<lambda>x. tray_update (\<lambda>_. x)) pm_tray_is_valid PM_ERR_BAD_TRAY,
      take_copies parsed,
      take_bool parsed ''borderless'' (\<lambda>b. borderless_update (\<lambda>_. b)),
      take_bool parsed ''autoRotate'' (\<lambda>b. auto_rotate_update (\<lambda>_. b)),
      take_bool parsed ''autoScale'' (\<lambda>b. auto_scale_update (\<lambda>_. b)),
      take_inset parsed ''topInset'' (\<lambda>d. top_inset_update (\<lambda>_. d)),
      take_inset parsed ''leftInset'' (\<lambda>d. left_inset_update (\<lambda>_. d)),
      take_inset parsed ''rightInset'' (\<lambda>d. right_inset_update (\<lambda>_. d)),
      take_inset parsed ''bottomInset'' (\<lambda>d. bottom_inset_update (\<lambda>_. d)),
      check_borderless]"

definition edit_params :: "json \<Rightarrow> edit" where
  "edit_params parsed = run_edits (param_edits parsed)"

definition jobs_edit_params :: "'k handler" where
  "jobs_edit_params E h m s =
     with_job E h m (\<lambda>parsed job.
       if phase job \<noteq> JOB_PHASE_OPEN then reply_err E h m PM_ERR_JOB_ALREADY_CLOSED s
       else
         let (err, p) = edit_params parsed (params job);
             s1 = put_job (job\<lparr>params := p\<rparr>) s
         in case err of Some e \<Rightarrow> reply_err E h m e s1 | None \<Rightarrow> reply_success h m s1) s"

definition jobs_get_final_params :: "'k handler" where
  "jobs_get_final_params E h m s =
     with_job E h m (\<lambda>parsed job.
       let (caps, s1) = call (cups_backend_get_caps E (job_printer_id job)) s;
           dpi = (case caps of Inl _ \<Rightarrow> 300
             | Inr c \<Rightarrow> if 0 < caps_max_resolution c then caps_max_resolution c else 300);
           p = params job
       in case job_compute_area (oor E) (Some (media_size p)) p dpi of
            Inl err \<Rightarrow> reply_err E h m err s1
          | Inr a \<Rightarrow> send_reply E h m (JObj (put_ok @ put_params p @
              [(''paramsAdjusted'', JBool (params_adjusted a))] @ put_margins a @
              [(''pixelUnits'', JInt (pixel_units a)), (''rawWidth'', JInt (raw_width a)),
               (''rawHeight'', JInt (raw_height a)), (''width'', JInt (area_width a)),
               (''height'', JInt (area_height a)), (''renderInReverseOrder'', JBool False)])) s1) s"

definition overlay :: "json \<Rightarrow> string \<Rightarrow> double \<Rightarrow> double" where
  "overlay parsed key old = (case luna_get_double parsed key of None \<Rightarrow> old | Some d \<Rightarrow> d)"

definition probe_params :: "json \<Rightarrow> print_params \<Rightarrow> print_params" where
  "probe_params parsed p =
     p\<lparr>top_inset := overlay parsed ''topInset'' (top_inset p),
       left_inset := overlay parsed ''leftInset'' (left_inset p),
       right_inset := overlay parsed ''rightInset'' (right_inset p),
       bottom_inset := overlay parsed ''bottomInset'' (bottom_inset p)\<rparr>"

definition jobs_get_area_for_insets :: "'k handler" where
  "jobs_get_area_for_insets E h m s =
     with_job E h m (\<lambda>parsed job.
       let probe = probe_params parsed (params job)
       in case job_compute_area (oor E) (Some (media_size probe)) probe 300 of
            Inl err \<Rightarrow> reply_err E h m err s
          | Inr a \<Rightarrow> send_reply E h m (JObj (put_ok @
              [(''width'', JInt (area_width a)), (''height'', JInt (area_height a))])) s) s"

end
