(* ===== verification/Job_Submission.thy ===== *)
theory Job_Submission
  imports Print_Jobs
begin

text \<open>
  The third part of \<open>src/print_service.c\<close>: spool files, adding pages, the translation of the
  print parameters to IPP, submission, close, cancel, render status and \<open>allAtOnce\<close>.
\<close>

section \<open>Spool files\<close>

definition new_temp_file ::
    "'k env \<Rightarrow> print_job \<Rightarrow> string \<Rightarrow> int \<Rightarrow> 'k print_service \<Rightarrow> (int + string) \<times> 'k print_service" where
  "new_temp_file E job extension fsize s =
     (let (r, job1, w1) = job_manager_new_temp_file E job (Some extension) fsize (svc_world s)
      in (r, put_job job1 (s\<lparr>svc_world := w1\<rparr>)))"

definition jobs_new_temp_file :: "'k handler" where
  "jobs_new_temp_file E h m s =
     (case parse E m of None \<Rightarrow> reply_err E h m PM_ERR_BAD_PARAM_SYNTAX s
      | Some parsed \<Rightarrow>
        (case (luna_get_int parsed ''jobID'', luna_get_string parsed ''fileExtension'') of
           (Some k, Some extension) \<Rightarrow>
             (case find_job s k of
                None \<Rightarrow> reply_err E h m PM_ERR_UNKNOWN_JOB_ID s
              | Some job \<Rightarrow>
                  let fsize = (case luna_get_int parsed ''size'' of None \<Rightarrow> 0 | Some n \<Rightarrow> n)
                  in (case new_temp_file E job extension fsize s of
                        (Inl err, s1) \<Rightarrow> reply_err E h m err s1
                      | (Inr path, s1) \<Rightarrow>
                          send_reply E h m (JObj (put_ok @ [(''pathName'', JStr path)])) s1))
         | _ \<Rightarrow> reply_err E h m PM_ERR_BAD_PARAM_SYNTAX s))"

text \<open>
  The search for the owner of a path: every job is asked in turn until one has resized the file;
  the error is that of the last job asked.
\<close>

fun resize_loop ::
    "'k env \<Rightarrow> int list \<Rightarrow> string \<Rightarrow> int \<Rightarrow> int \<Rightarrow> 'k print_service \<Rightarrow> (int + unit) \<times> 'k print_service" where
  "resize_loop E [] path new_size err s = (Inl err, s)"
| "resize_loop E (k # ks) path new_size err s =
     (case find_job s k of
        None \<Rightarrow> resize_loop E ks path new_size err s
      | Some job \<Rightarrow>
          (case call (job_manager_resize_temp_file E job path new_size) s of
             (Inl e, s1) \<Rightarrow> resize_loop E ks path new_size e s1
           | (Inr _, s1) \<Rightarrow> (Inr (), s1)))"

definition jobs_resize_temp_file :: "'k handler" where
  "jobs_resize_temp_file E h m s =
     (case parse E m of None \<Rightarrow> reply_err E h m PM_ERR_BAD_PARAM_SYNTAX s
      | Some parsed \<Rightarrow>
        (case (luna_get_string parsed ''pathName'', luna_get_int parsed ''newSize'') of
           (Some path, Some new_size) \<Rightarrow>
             (case resize_loop E (job_manager_list E (svc_jobs s)) path new_size
                     PM_ERR_FILE_NOT_IN_ANY_JOB s of
                (Inl err, s1) \<Rightarrow> reply_err E h m err s1
              | (Inr _, s1) \<Rightarrow> reply_success h m s1)
         | _ \<Rightarrow> reply_err E h m PM_ERR_BAD_PARAM_SYNTAX s))"

section \<open>Adding a page\<close>

text \<open>The checks \<open>addFile\<close> and \<open>allAtOnce\<close> make of a path: it exists, is not empty, is printable.\<close>

definition check_path :: "'k env \<Rightarrow> string \<Rightarrow> world \<Rightarrow> int option \<times> world" where
  "check_path E path w =
     (let st = os_stat E w path; w1 = w @ [Stat path]
      in case st of
           None \<Rightarrow> (Some PM_ERR_FILE_DOES_NOT_EXIST, w1)
         | Some n \<Rightarrow>
             if n = 0 then (Some PM_ERR_FILE_ZERO_LENGTH, w1)
             else let (fmt, w2) = cups_backend_detect_format E path w1
                  in (if fmt = None then Some PM_ERR_UNSUPPORTED_MIME_TYPE else None, w2))"

definition jobs_add_file :: "'k handler" where
  "jobs_add_file E h m s =
     (case parse E m of None \<Rightarrow> reply_err E h m PM_ERR_BAD_PARAM_SYNTAX s
      | Some parsed \<Rightarrow>
        (case (luna_get_int parsed ''jobID'', luna_get_string parsed ''pathName'') of
           (Some k, Some path) \<Rightarrow>
             (case find_job s k of
                None \<Rightarrow> reply_err E h m PM_ERR_UNKNOWN_JOB_ID s
              | Some job \<Rightarrow>
                  if phase job \<noteq> JOB_PHASE_OPEN then reply_err E h m PM_ERR_JOB_ALREADY_CLOSED s
                  else (case call (check_path E path) s of
                      (Some err, s1) \<Rightarrow> reply_err E h m err s1
                    | (None, s1) \<Rightarrow>
                        let page = luna_get_int parsed ''currentPage'';
                            next_page = int (length (files job)) + 1
                        in if page \<noteq> None \<and> page \<noteq> Some next_page
                           then reply_err E h m PM_ERR_OUT_OF_ORDER_CURRENTPAGE s1
                           else
                             let job1 = (case page of None \<Rightarrow> job
                                   | Some n \<Rightarrow> job\<lparr>current_page := n\<rparr>);
                                 job2 = (case luna_get_int parsed ''totalPages'' of None \<Rightarrow> job1
                                   | Some n \<Rightarrow> job1\<lparr>total_pages := n\<rparr>);
                                 job3 = job2\<lparr>files := files job2 @ [path]\<rparr>;
                                 s2 = post_page_info E job3 ''PAGESTARTINFO''
                                        (int (length (files job3))) (put_job job3 s1)
                             in reply_success h m s2))
         | _ \<Rightarrow> reply_err E h m PM_ERR_BAD_PARAM_SYNTAX s))"

section \<open>Submission\<close>

definition margin_units :: "(double \<Rightarrow> int) \<Rightarrow> double \<Rightarrow> int" where
  "margin_units conv inset = int_trunc conv (fl (inset * 2540))"

definition build_cups_params :: "(double \<Rightarrow> int) \<Rightarrow> print_job \<Rightarrow> int \<Rightarrow> cups_job_params" where
  "build_cups_params conv job max_resolution =
     (let p = params job;
          margins = (insets_set p \<and> \<not> borderless p)
      in \<lparr>cp_media = pm_media_webos_to_pwg (Some (media_size p)),
          cp_media_type = pm_mediatype_webos_to_ipp (Some (media_type p)),
          cp_media_source = pm_tray_webos_to_ipp (Some (tray p)),
          cp_sides = pm_duplex_webos_to_ipp (Some (duplex p)),
          cp_color_mode = pm_color_webos_to_ipp (Some (color p)),
          cp_print_scaling = Some (if auto_scale p then ''auto'' else ''none''),
          cp_quality = pm_quality_webos_to_ipp (Some (print_quality p)),
          cp_copies = num_copies p,
          cp_resolution = (if print_quality p = ''MaxDpi'' then max_resolution else 0),
          cp_borderless = borderless p,
          cp_top_margin = (if margins then margin_units conv (top_inset p) else 0),
          cp_left_margin = (if margins then margin_units conv (left_inset p) else 0),
          cp_right_margin = (if margins then margin_units conv (right_inset p) else 0),
          cp_bottom_margin = (if margins then margin_units conv (bottom_inset p) else 0),
          cp_margins_valid = margins\<rparr>)"

definition submit_job ::
    "'k env \<Rightarrow> print_job \<Rightarrow> 'k print_service \<Rightarrow> (int + unit) \<times> 'k print_service" where
  "submit_job E job s =
     (if files job = [] then (Inl PM_ERR_NO_FILES_TO_PRINT, s)
      else
        let (caps, s1) = call (cups_backend_get_caps E (job_printer_id job)) s;
            max_res = (case caps of Inl _ \<Rightarrow> 0 | Inr c \<Rightarrow> caps_max_resolution c);
            cparams = build_cups_params (oor E) job max_res
        in case call (cups_backend_submit E (job_printer_id job) (Some (description job))
                        (files job) cparams) s1 of
             (Inl err, s2) \<Rightarrow> (Inl err, s2)
           | (Inr cups_id, s2) \<Rightarrow>
               let job1 = job\<lparr>cups_job_id := cups_id, phase := JOB_PHASE_SUBMITTED\<rparr>;
                   job2 = (if total_pages job1 < 0
                           then job1\<lparr>total_pages := int (length (files job1))\<rparr> else job1);
                   s3 = post_job_state E job2 ''QUEUED'' None [] s2;
                   job3 = job2\<lparr>last_printer_state := Some ''QUEUED''\<rparr>
               in (Inr (), ensure_polling E (put_job job3 s3)))"

definition jobs_close :: "'k handler" where
  "jobs_close E h m s =
     with_job E h m (\<lambda>parsed job.
       if phase job \<noteq> JOB_PHASE_OPEN then reply_err E h m PM_ERR_JOB_ALREADY_CLOSED s
       else
         let done_job = job\<lparr>phase := JOB_PHASE_DONE\<rparr>
         in if files job = []
            then reply_success h m
                   (post_job_state E done_job ''DONE'' (Some ''Success'') [] (put_job done_job s))
            else (case submit_job E job s of
                (Inl err, s1) \<Rightarrow>
                  reply_err E h m err
                    (post_job_state E done_job ''DONE'' (Some ''Error'') [] (put_job done_job s1))
              | (Inr _, s1) \<Rightarrow> reply_success h m s1)) s"

definition jobs_cancel :: "'k handler" where
  "jobs_cancel E h m s =
     with_job E h m (\<lambda>parsed job.
       let (ok, s1) =
             (if phase job = JOB_PHASE_SUBMITTED \<and> 0 < cups_job_id job
              then call (cups_backend_cancel E (job_printer_id job) (cups_job_id job)) s
              else (True, s))
       in if \<not> ok then reply_err E h m PM_ERR_JOB_CANCEL_FAILED s1
          else
            let job1 = job\<lparr>phase := JOB_PHASE_CANCELLED\<rparr>
            in reply_success h m
                 (post_job_state E job1 ''DONE'' (Some ''Cancelled'') [] (put_job job1 s1))) s"

section \<open>Status queries\<close>

definition jobs_get_status :: "'k handler" where
  "jobs_get_status E h m s =
     (case parse E m of None \<Rightarrow> reply_err E h m PM_ERR_BAD_PARAM_SYNTAX s
      | Some parsed \<Rightarrow>
        let (subscribed, s1) = check_subscription E h m s
        in send_reply E h m (JObj (put_ok @ put_subscribed subscribed)) s1)"

definition jobs_get_render_status :: "'k handler" where
  "jobs_get_render_status E h m s =
     (case parse E m of None \<Rightarrow> reply_err E h m PM_ERR_BAD_PARAM_SYNTAX s
      | Some parsed \<Rightarrow>
        let (subscribed, s1) = check_subscription E h m s
        in send_reply E h m (JObj (put_ok @ put_subscribed subscribed)) s1)"

definition jobs_set_render_status :: "'k handler" where
  "jobs_set_render_status E h m s =
     (case parse E m of None \<Rightarrow> reply_err E h m PM_ERR_BAD_PARAM_SYNTAX s
      | Some parsed \<Rightarrow>
        (case (luna_get_int parsed ''jobID'', luna_get_int parsed ''renderResultCode'') of
           (Some k, Some code) \<Rightarrow>
             (case find_job s k of
                None \<Rightarrow> reply_err E h m PM_ERR_UNKNOWN_JOB_ID s
              | Some job \<Rightarrow>
                  let txt = or_empty (luna_get_string parsed ''renderResultText'');
                      job1 = job\<lparr>render_result_code := code, render_result_set := True,
                                 render_result_text := Some txt\<rparr>;
                      s1 = post E Bus_legacy CAT_JOBS METHOD_GET_RENDER_STATUS
                             (JObj [(''jobID'', JInt k), (''renderResultCode'', JInt code),
                                    (''renderResultText'', JStr txt)]) (put_job job1 s)
                  in reply_success h m s1)
         | _ \<Rightarrow> reply_err E h m PM_ERR_BAD_PARAM_SYNTAX s))"

definition jobs_list_all :: "'k handler" where
  "jobs_list_all E h m s =
     (let jobs = List.map_filter (find_job s) (job_manager_list E (svc_jobs s))
      in send_reply E h m
           (JObj (put_ok @ [(''jobs'', JArr (map (\<lambda>job. JObj (job_status_base job)) jobs))])) s)"

section \<open>allAtOnce\<close>

text \<open>The loop over the paths: an error code, or \<open>None\<close> with every path added to the job.\<close>

fun add_paths ::
    "'k env \<Rightarrow> json list \<Rightarrow> print_job \<Rightarrow> 'k print_service \<Rightarrow> (int + print_job) \<times> 'k print_service" where
  "add_paths E [] job s = (Inr job, s)"
| "add_paths E (item # items) job s =
     (case item of
        JStr buf \<Rightarrow>
          let path = c_string buf
          in (case call (check_path E path) s of
                (Some err, s1) \<Rightarrow> (Inl err, s1)
              | (None, s1) \<Rightarrow>
                  let job1 = job\<lparr>files := files job @ [path]\<rparr>
                  in add_paths E items job1 (put_job job1 s1))
      | _ \<Rightarrow> (Inl PM_ERR_BAD_PARAM_SYNTAX, s))"

definition path_array :: "json \<Rightarrow> json list option" where
  "path_array parsed =
     (case jobject_get_exists parsed ''pathNames'' of
        None \<Rightarrow> None
      | Some v \<Rightarrow> (case v of JArr xs \<Rightarrow> Some xs | _ \<Rightarrow> None))"

definition all_at_once_run ::
    "'k env \<Rightarrow> bus \<Rightarrow> lsmessage \<Rightarrow> json \<Rightarrow> json list \<Rightarrow> string \<Rightarrow> string \<Rightarrow> string \<Rightarrow>
     'k print_service \<Rightarrow> 'k print_service" where
  "all_at_once_run E h m parsed paths printer_id desc app s =
     (let (job0, s0) = open_job E printer_id desc app s;
          job = (case luna_get_bool parsed ''autoScale'' of None \<Rightarrow> job0
            | Some b \<Rightarrow> job0\<lparr>params := (params job0)\<lparr>auto_scale := b\<rparr>\<rparr>)
      in case add_paths E paths job (put_job job s0) of
           (Inl err, s1) \<Rightarrow> reply_err E h m err (remove_job (job_id job) s1)
         | (Inr job1, s1) \<Rightarrow>
             let job2 = job1\<lparr>total_pages := int (length paths)\<rparr>
             in (case submit_job E job2 (put_job job2 s1) of
                   (Inl err, s2) \<Rightarrow>
                     reply_err E h m err (remove_job (job_id job2)
                       (post_job_state E job2 ''DONE'' (Some ''Error'') [] s2))
                 | (Inr _, s2) \<Rightarrow>
                     send_reply E h m (JObj (put_ok @ [(''jobID'', JInt (job_id job2))])) s2))"

definition jobs_all_at_once :: "'k handler" where
  "jobs_all_at_once E h m s =
     (case parse E m of None \<Rightarrow> reply_err E h m PM_ERR_BAD_PARAM_SYNTAX s
      | Some parsed \<Rightarrow>
        (case (luna_get_string parsed ''printerID'', luna_get_string parsed ''description'',
               luna_get_string parsed ''appName'') of
           (Some printer_id, Some desc, Some app) \<Rightarrow>
             (case path_array parsed of
                None \<Rightarrow> reply_err E h m PM_ERR_BAD_PARAM_SYNTAX s
              | Some paths \<Rightarrow>
                  if length paths < 1 then reply_err E h m PM_ERR_NO_FILES_TO_PRINT s
                  else all_at_once_run E h m parsed paths printer_id desc app s)
         | _ \<Rightarrow> reply_err E h m PM_ERR_BAD_PARAM_SYNTAX s))"

end
