(* ===== verification/Ports_Service.thy ===== *)
theory Ports_Service
  imports Job_Submission
begin

text \<open>
  The last part of \<open>src/print_service.c\<close>: the handlers of org.webosports.service.print, which the
  Settings page calls.
\<close>

definition ports_list_printers :: "'k handler" where
  "ports_list_printers E h m s =
     (let (subscribed, s1) = check_subscription E h m s;
          (reply, s2) = ports_printers_payload E s1
      in send_reply E h m (JObj (reply @ put_subscribed subscribed)) s2)"

definition ports_list_jobs :: "'k handler" where
  "ports_list_jobs E h m s =
     (let (subscribed, s1) = check_subscription E h m s;
          (reply, s2) = ports_jobs_payload E s1
      in send_reply E h m (JObj (reply @ put_subscribed subscribed)) s2)"

text \<open>The display name folded into the characters a CUPS queue name may have.\<close>

definition ascii_isalnum :: "char \<Rightarrow> bool" where
  "ascii_isalnum c \<longleftrightarrow> (let n = (of_char c :: nat) in
     (48 \<le> n \<and> n \<le> 57) \<or> (65 \<le> n \<and> n \<le> 90) \<or> (97 \<le> n \<and> n \<le> 122))"

definition queue_char :: "char \<Rightarrow> bool" where
  "queue_char c \<longleftrightarrow> ascii_isalnum c \<or> c = CHR ''_'' \<or> c = CHR ''-'' \<or> c = CHR ''.''"

definition fold_queue_name :: "string \<Rightarrow> string" where
  "fold_queue_name name = map (\<lambda>c. if queue_char c then c else CHR ''_'') name"

definition ports_add_printer :: "'k handler" where
  "ports_add_printer E h m s =
     (case parse E m of None \<Rightarrow> reply_err E h m PM_ERR_BAD_PARAM_SYNTAX s
      | Some parsed \<Rightarrow>
        (case (luna_get_string parsed ''name'', luna_get_string parsed ''uri'') of
           (Some name, Some uri) \<Rightarrow>
             let queue_name = fold_queue_name name
             in if queue_name = [] then reply_err E h m PM_ERR_BAD_PARAM_SYNTAX s
                else (case call (cups_backend_add_queue E queue_name (Some name) (Some uri)) s of
                    (Inl err, s1) \<Rightarrow> reply_err E h m err s1
                  | (Inr _, s1) \<Rightarrow>
                      let (r, s2) = db_add E queue_name (Some name) uri s1;
                          s3 = send_reply E h m
                                 (JObj (put_ok @ [(''printerId'', JStr queue_name)])) s2
                      in ports_post_printers E (browse_printers E s3))
         | _ \<Rightarrow> reply_err E h m PM_ERR_BAD_PARAM_SYNTAX s))"

definition ports_remove_printer :: "'k handler" where
  "ports_remove_printer E h m s =
     (case parse E m of None \<Rightarrow> reply_err E h m PM_ERR_BAD_PARAM_SYNTAX s
      | Some parsed \<Rightarrow>
        (case luna_get_string parsed ''printerId'' of
           None \<Rightarrow> reply_err E h m PM_ERR_BAD_PARAM_SYNTAX s
         | Some printer_id \<Rightarrow>
           (case call (cups_backend_remove_queue E printer_id) s of
              (Inl err, s1) \<Rightarrow> reply_err E h m err s1
            | (Inr _, s1) \<Rightarrow>
                let (r, s2) = db_delete E printer_id None s1
                in ports_post_printers E (browse_printers E (reply_success h m s2)))))"

definition ports_set_default_printer :: "'k handler" where
  "ports_set_default_printer E h m s =
     (case parse E m of None \<Rightarrow> reply_err E h m PM_ERR_BAD_PARAM_SYNTAX s
      | Some parsed \<Rightarrow>
        (case luna_get_string parsed ''printerId'' of
           None \<Rightarrow> reply_err E h m PM_ERR_BAD_PARAM_SYNTAX s
         | Some printer_id \<Rightarrow>
           let (ok, s1) = set_current E printer_id s
           in if \<not> ok then reply_err E h m PM_ERR_SET_CURRENT_PRINTER_FAILED s1
              else ports_post_printers E (reply_success h m s1)))"

definition ports_cancel_job :: "'k handler" where
  "ports_cancel_job E h m s =
     (case parse E m of None \<Rightarrow> reply_err E h m PM_ERR_BAD_PARAM_SYNTAX s
      | Some parsed \<Rightarrow>
        (case luna_get_int parsed ''jobId'' of
           None \<Rightarrow> reply_err E h m PM_ERR_BAD_PARAM_SYNTAX s
         | Some k \<Rightarrow>
           let (jobs, s1) = call (cups_backend_list_jobs E) s;
               (ok, s2) = (case find (\<lambda>j. qj_id j = k) jobs of
                   None \<Rightarrow> (False, s1)
                 | Some j \<Rightarrow> call (cups_backend_cancel E (qj_dest j) (qj_id j)) s1)
           in if \<not> ok then reply_err E h m PM_ERR_JOB_CANCEL_FAILED s2
              else ports_post_jobs E (reply_success h m s2)))"

definition ports_cancel_all_jobs :: "'k handler" where
  "ports_cancel_all_jobs E h m s =
     (let (jobs, s1) = call (cups_backend_list_jobs E) s;
          s2 = fold (\<lambda>j t. snd (call (cups_backend_cancel E (qj_dest j) (qj_id j)) t)) jobs s1
      in ports_post_jobs E (reply_success h m s2))"

end
