(* ===== verification/Service_Laws.thy ===== *)
theory Service_Laws
  imports Ports_Service
begin

text \<open>
  What the handlers keep. Three relations between the state before and after a piece of a
  handler: \<open>steady\<close> (the jobs and the timer are untouched and nothing is replied), \<open>silent\<close> (jobs may
  evolve, nothing is replied) and \<open>answered\<close> (besides, exactly one proper reply goes out). Each
  operation of the service gets one of them, and the handlers are composed of these.
\<close>

section \<open>Environment\<close>

text \<open>
  What the theorems on the whole service rely on: the schema \<open>{}\<close> is accepted by pbnjson, GLib's
  source ids are never 0, and a walk over a hash table visits the keys there are.
\<close>

definition env_ok :: "'k env \<Rightarrow> bool" where
  "env_ok E \<longleftrightarrow> jschema_ok E \<and> (\<forall>w. timeout_add E w \<noteq> 0) \<and> (\<forall>ks. set (hash_order E ks) = set ks)"

lemma env_okD [dest]:
  "env_ok E \<Longrightarrow> jschema_ok E" "env_ok E \<Longrightarrow> timeout_add E w \<noteq> 0"
  "env_ok E \<Longrightarrow> set (hash_order E ks) = set ks"
  by (simp_all add: env_ok_def)

lemma sample_env_ok [simp]: "env_ok sample_env" "env_ok (sample_env_with fs)"
  by (simp_all add: env_ok_def sample_env_def sample_env_with_def)

section \<open>Jobs\<close>

definition params_valid :: "print_params \<Rightarrow> bool" where
  "params_valid p \<longleftrightarrow> pm_media_is_valid (Some (media_size p)) \<and>
     pm_mediatype_is_valid (Some (media_type p)) \<and> pm_quality_is_valid (Some (print_quality p)) \<and>
     pm_duplex_is_valid (Some (duplex p)) \<and> pm_drytime_is_valid (Some (dry_time p)) \<and>
     pm_color_is_valid (Some (color p)) \<and> pm_tray_is_valid (Some (tray p)) \<and>
     1 \<le> num_copies p \<and> num_copies p \<le> 99"

lemma params_valid_init [simp]: "params_valid print_params_init"
  by code_simp

lemma params_valid_scale [simp]: "params_valid (p\<lparr>auto_scale := b\<rparr>) = params_valid p"
  by (simp add: params_valid_def)

text \<open>What is true of every job; a job that is not over has not been reported as over.\<close>

definition job_ok :: "print_job \<Rightarrow> bool" where
  "job_ok j \<longleftrightarrow> params_valid (params j) \<and>
     (phase j = JOB_PHASE_SUBMITTED \<longrightarrow> 0 < cups_job_id j \<and> files j \<noteq> []) \<and>
     (phase j \<in> {JOB_PHASE_OPEN, JOB_PHASE_SUBMITTED} \<longrightarrow> last_printer_state j \<noteq> Some ''DONE'')"

text \<open>
  How a job may change while a message is handled: its identity stays, its phase goes forward,
  its lists of files only grow, and once it is no longer open its parameters, its pages and its
  CUPS job are fixed.
\<close>

definition job_evolves :: "print_job \<Rightarrow> print_job \<Rightarrow> bool" where
  "job_evolves i j \<longleftrightarrow> job_id j = job_id i \<and> job_printer_id j = job_printer_id i \<and>
     description j = description i \<and> app_name j = app_name i \<and> temp_dir j = temp_dir i \<and>
     queued_at j = queued_at i \<and> phase i \<le> phase j \<and> prefix (files i) (files j) \<and>
     prefix (temp_files i) (temp_files j) \<and>
     (phase i \<noteq> JOB_PHASE_OPEN \<longrightarrow> params j = params i \<and> files j = files i \<and> cups_job_id j = cups_job_id i)"

lemma phase_le_open [simp]: "p \<le> JOB_PHASE_OPEN \<longleftrightarrow> p = JOB_PHASE_OPEN"
  by (cases p) (simp_all add: less_eq_job_phase_def)

lemma job_evolves_refl [simp]: "job_evolves i i"
  by (simp add: job_evolves_def)

lemma job_evolves_trans [trans]: "job_evolves i j \<Longrightarrow> job_evolves j k \<Longrightarrow> job_evolves i k"
  unfolding job_evolves_def
  by (elim conjE, intro conjI impI; simp?) (auto intro: prefix_order.trans order_trans)

text \<open>A job that is over, and that the subscribers of \<open>getStatus\<close> have been told a final state of.\<close>

abbreviation over :: "print_job \<Rightarrow> bool" where
  "over j \<equiv> phase j = JOB_PHASE_DONE \<or> phase j = JOB_PHASE_CANCELLED"

definition final_post :: "int \<Rightarrow> io \<Rightarrow> bool" where
  "final_post k e \<longleftrightarrow> (\<exists>job outcome blocked now. job_id job = k \<and>
     e = Post Bus_legacy CAT_JOBS METHOD_GET_STATUS (job_state_json job ''DONE'' (Some outcome) blocked now))"

definition announced :: "int \<Rightarrow> world \<Rightarrow> bool" where
  "announced k w \<longleftrightarrow> (\<exists>e \<in> set w. final_post k e)"

lemma announced_append [simp]: "announced k (u @ v) \<longleftrightarrow> announced k u \<or> announced k v"
  by (auto simp: announced_def)

lemma announced_extends: "announced k w \<Longrightarrow> extends P w v \<Longrightarrow> announced k v"
  by (auto simp: extends_def)

definition svc_inv :: "'k print_service \<Rightarrow> bool" where
  "svc_inv s \<longleftrightarrow> jm_inv (svc_jobs s) \<and> (\<forall>k j. find_job s k = Some j \<longrightarrow> job_ok j) \<and>
     (\<forall>k j. find_job s k = Some j \<longrightarrow> phase j = JOB_PHASE_SUBMITTED \<longrightarrow> svc_poll_source s \<noteq> 0) \<and>
     (\<forall>k j. find_job s k = Some j \<longrightarrow> over j \<longrightarrow> announced k (svc_world s))"

text \<open>
  From \<open>s\<close> to \<open>t\<close> no job is lost and every job evolves; numbers are only handed out upwards, and none
  is given to a second job.
\<close>

definition keeps :: "'k print_service \<Rightarrow> 'k print_service \<Rightarrow> bool" where
  "keeps s t \<longleftrightarrow> svc_ssid t = svc_ssid s \<and> svc_ports_handle t = svc_ports_handle s \<and>
     next_job_id (svc_jobs s) \<le> next_job_id (svc_jobs t) \<and>
     (\<forall>k i. find_job s k = Some i \<longrightarrow> (\<exists>j. find_job t k = Some j \<and> job_evolves i j)) \<and>
     (\<forall>k. k < next_job_id (svc_jobs s) \<longrightarrow> find_job s k = None \<longrightarrow> find_job t k = None)"

lemma keeps_refl [simp]: "keeps s s"
  by (simp add: keeps_def)

lemma keeps_trans: "keeps s t \<Longrightarrow> keeps t u \<Longrightarrow> keeps s u"
  unfolding keeps_def by (fastforce intro: job_evolves_trans)

section \<open>The three relations\<close>

definition proper_reply :: "json \<Rightarrow> bool" where
  "proper_reply r \<longleftrightarrow> (\<exists>fs. r = JObj fs \<and> map_of fs ''returnValue'' = Some (JBool True)) \<or>
     (\<exists>c. known_error c \<and> r = JObj [(''returnValue'', JBool False), (''errorCode'', JInt c),
        (''errorText'', JStr (pm_error_text c))])"

definition steady :: "'k print_service \<Rightarrow> 'k print_service \<Rightarrow> bool" where
  "steady s t \<longleftrightarrow> svc_jobs t = svc_jobs s \<and> svc_ssid t = svc_ssid s \<and>
     svc_ports_handle t = svc_ports_handle s \<and> svc_poll_source t = svc_poll_source s \<and>
     replies (svc_world t) = replies (svc_world s) \<and>
     (\<forall>k. announced k (svc_world s) \<longrightarrow> announced k (svc_world t))"

definition silent :: "'k print_service \<Rightarrow> 'k print_service \<Rightarrow> bool" where
  "silent s t \<longleftrightarrow> (svc_inv s \<longrightarrow> svc_inv t \<and> keeps s t \<and> replies (svc_world t) = replies (svc_world s))"

definition answered :: "bus \<times> lsmessage \<Rightarrow> 'k print_service \<Rightarrow> 'k print_service \<Rightarrow> bool" where
  "answered q s t \<longleftrightarrow> (svc_inv s \<longrightarrow> svc_inv t \<and> keeps s t \<and>
     (\<exists>r. proper_reply r \<and> replies (svc_world t) = replies (svc_world s) @ [Reply (fst q) (snd q) r]))"

text \<open>
  The pattern of a handler, independent of the service: quiet pieces compose, and one reply
  among quiet pieces answers the request.
\<close>

locale request_reply =
  fixes quietly :: "'s \<Rightarrow> 's \<Rightarrow> bool"
    and replied :: "'q \<Rightarrow> 's \<Rightarrow> 's \<Rightarrow> bool"
  assumes quietly_refl: "quietly s s"
    and quietly_trans: "quietly s t \<Longrightarrow> quietly t u \<Longrightarrow> quietly s u"
    and before: "quietly s t \<Longrightarrow> replied q t u \<Longrightarrow> replied q s u"
    and after: "replied q s t \<Longrightarrow> quietly t u \<Longrightarrow> replied q s u"
begin

lemma quietly_fold: "(\<And>x t. x \<in> set xs \<Longrightarrow> quietly t (f x t)) \<Longrightarrow> quietly s (fold f xs s)"
proof (induction xs arbitrary: s)
  case (Cons x xs)
  have "quietly s (f x s)" by (simp add: Cons.prems)
  moreover have "quietly (f x s) (fold f xs (f x s))" by (rule Cons.IH) (simp add: Cons.prems)
  ultimately show ?case using quietly_trans by simp
qed (simp add: quietly_refl)

lemma replied_fold: "replied q s t \<Longrightarrow> (\<And>x t. x \<in> set xs \<Longrightarrow> quietly t (f x t)) \<Longrightarrow> replied q s (fold f xs t)"
  by (rule after [OF _ quietly_fold])

lemma between: "quietly s t \<Longrightarrow> replied q t u \<Longrightarrow> quietly u v \<Longrightarrow> replied q s v"
  by (rule after [OF before])

end

lemma steady_refl [simp]: "steady s s"
  by (simp add: steady_def)

lemma steady_trans: "steady s t \<Longrightarrow> steady t u \<Longrightarrow> steady s u"
  by (simp add: steady_def)

lemma steady_find: "steady s t \<Longrightarrow> find_job t = find_job s"
  by (simp add: steady_def find_job_def fun_eq_iff)

lemma steady_silent: "steady s t \<Longrightarrow> silent s t"
  using steady_find [of s t] by (auto simp: silent_def svc_inv_def keeps_def steady_def)

lemma silent_refl [simp]: "silent s s"
  by (simp add: silent_def)

lemma silent_trans: "silent s t \<Longrightarrow> silent t u \<Longrightarrow> silent s u"
  using keeps_trans by (fastforce simp: silent_def)

lemma silent_answered: "silent s t \<Longrightarrow> answered q t u \<Longrightarrow> answered q s u"
  using keeps_trans by (fastforce simp: silent_def answered_def)

lemma answered_silent: "answered q s t \<Longrightarrow> silent t u \<Longrightarrow> answered q s u"
  using keeps_trans by (fastforce simp: silent_def answered_def)

interpretation handling: request_reply silent answered
  using silent_trans silent_answered answered_silent by unfold_locales simp_all

lemma steady_answered: "steady s t \<Longrightarrow> answered q t u \<Longrightarrow> answered q s u"
  by (rule handling.before [OF steady_silent])

lemma answered_steady: "answered q s t \<Longrightarrow> steady t u \<Longrightarrow> answered q s u"
  by (rule handling.after [OF _ steady_silent])

section \<open>Replies\<close>

lemma answered_world:
  assumes "svc_world t = svc_world s @ [Reply (fst q) (snd q) r]" "proper_reply r"
    and "svc_jobs t = svc_jobs s" "svc_ssid t = svc_ssid s" "svc_ports_handle t = svc_ports_handle s"
    and "svc_poll_source t = svc_poll_source s"
  shows "answered q s t"
proof -
  have "find_job t = find_job s" using assms(3) by (simp add: fun_eq_iff find_job_def)
  then show ?thesis
    using assms by (auto simp: answered_def svc_inv_def keeps_def)
qed

lemma answered_err [simp]:
  assumes "env_ok E" "known_error c"
  shows "answered (h, m) s (reply_err E h m c s)"
proof (rule answered_world)
  show "proper_reply (JObj [(''returnValue'', JBool False), (''errorCode'', JInt c),
        (''errorText'', JStr (pm_error_text c))])"
    using assms(2) by (auto simp: proper_reply_def)
qed (use assms in \<open>auto simp: reply_err_def on_world_def luna_service_message_reply_error_code_def\<close>)

lemma answered_success [simp]: "answered (h, m) s (reply_success h m s)"
proof (rule answered_world)
  show "proper_reply (JObj [(''returnValue'', JBool True)])" by (simp add: proper_reply_def)
qed (simp_all add: reply_success_def on_world_def luna_service_message_reply_success_def)

lemma answered_send [simp]:
  assumes "env_ok E"
  shows "answered (h, m) s (send_reply E h m (JObj (put_ok @ fs)) s)"
proof (rule answered_world)
  show "proper_reply (JObj (put_ok @ fs))" by (simp add: proper_reply_def put_ok_def)
qed (use assms in \<open>auto simp: send_reply_def on_world_def luna_service_message_validate_and_send_def\<close>)

text \<open>A reply after a steady piece, in the forms the handlers have.\<close>

lemma then_err: "steady s t \<Longrightarrow> env_ok E \<Longrightarrow> known_error c \<Longrightarrow> answered (h, m) s (reply_err E h m c t)"
  by (rule steady_answered [OF _ answered_err])

lemma then_success: "steady s t \<Longrightarrow> answered (h, m) s (reply_success h m t)"
  by (rule steady_answered [OF _ answered_success])

lemma then_send: "steady s t \<Longrightarrow> env_ok E \<Longrightarrow> answered (h, m) s (send_reply E h m (JObj (put_ok @ fs)) t)"
  by (rule steady_answered [OF _ answered_send])

section \<open>Steady operations\<close>

lemma call_steady:
  assumes "call f s = (r, t)" "\<And>r v. f (svc_world s) = (r, v) \<Longrightarrow> extends quiet (svc_world s) v"
  shows "steady s t"
proof -
  obtain v where v: "f (svc_world s) = (r, v)" "t = s\<lparr>svc_world := v\<rparr>"
    using assms(1) by (auto simp: call_def Let_def split: prod.splits)
  then show ?thesis
    using quiet_replies [OF assms(2)] announced_extends [OF _ assms(2)] by (simp add: steady_def)
qed

lemma callE:
  assumes "call f s = (r, t)"
  obtains v where "f (svc_world s) = (r, v)" "t = s\<lparr>svc_world := v\<rparr>"
  using assms by (auto simp: call_def Let_def split: prod.splits)

lemma backend_steady:
  "call (cups_backend_enumerate E) s = (ps, t) \<Longrightarrow> steady s t"
  "call (cups_backend_get_caps E pid) s = (caps, t) \<Longrightarrow> steady s t"
  "call (cups_backend_submit E pid title fs p) s = (jid, t) \<Longrightarrow> steady s t"
  "call (cups_backend_cancel E pid n) s = (ok, t) \<Longrightarrow> steady s t"
  "call (cups_backend_get_job_state E pid n) s = (st, t) \<Longrightarrow> steady s t"
  "call (cups_backend_list_jobs E) s = (js, t) \<Longrightarrow> steady s t"
  "call (cups_backend_add_queue E name info uri) s = (a, t) \<Longrightarrow> steady s t"
  "call (cups_backend_remove_queue E name) s = (b, t) \<Longrightarrow> steady s t"
  by (erule call_steady; auto simp: cups_backend_enumerate_def dest: get_caps_quiet submit_quiet cancel_quiet job_state_quiet
      list_jobs_quiet queue_quiet)+

lemma backend_error:
  "call (cups_backend_get_caps E pid) s = (Inl e, t) \<Longrightarrow> known_error e"
  "call (cups_backend_submit E pid title fs p) s = (Inl e, t) \<Longrightarrow> known_error e"
  "call (cups_backend_add_queue E name info uri) s = (Inl e, t) \<Longrightarrow> known_error e"
  "call (cups_backend_remove_queue E name) s = (Inl e, t) \<Longrightarrow> known_error e"
  by (erule callE; auto dest: get_caps_error submit_result queue_error)+

lemma subscription_steady: "check_subscription E h m s = (b, t) \<Longrightarrow> steady s t"
  unfolding check_subscription_def
  by (erule call_steady) (metis check_sub_quiet snd_conv)

lemma on_world_steady: "extends quiet (svc_world s) (f (svc_world s)) \<Longrightarrow> steady s (on_world f s)"
  using quiet_replies announced_extends by (auto simp: on_world_def steady_def)

lemma post_steady [simp]: "steady s (post E h cat meth obj s)"
  by (simp add: post_def on_world_def steady_def luna_service_post_subscription_def)

lemma time_steady: "get_time E s = (now, t) \<Longrightarrow> steady s t"
  by (auto simp: get_time_def steady_def on_world_def is_reply_def)

lemma post_event_steady [simp]: "steady s (post_printer_event E p ev s)"
  by (simp add: post_printer_event_def)

lemma post_state_steady [simp]: "steady s (post_job_state E job st js bs s)"
  by (auto simp: post_job_state_def Let_def split: prod.splits intro: steady_trans [OF time_steady])

lemma post_page_steady [simp]: "steady s (post_page_info E job st n s)"
  by (simp add: post_page_info_def)

lemma steady_fold: "(\<And>x t. steady t (f x t)) \<Longrightarrow> steady s (fold f xs s)"
proof (induction xs arbitrary: s)
  case (Cons x xs)
  show ?case using steady_trans [OF Cons.prems Cons.IH [OF Cons.prems]] by simp
qed simp

lemma payload_steady: "ports_printers_payload E s = (r, t) \<Longrightarrow> steady s t"
  by (auto simp: ports_printers_payload_def Let_def steady_def split: prod.splits)

lemma jobs_payload_steady: "ports_jobs_payload E s = (r, t) \<Longrightarrow> steady s t"
  by (auto simp: ports_jobs_payload_def Let_def split: prod.splits dest: backend_steady)

lemma ports_post_steady [simp]:
  "steady s (ports_post_printers E s)" "steady s (ports_post_jobs E s)"
  by (auto simp: ports_post_printers_def ports_post_jobs_def Let_def split: prod.splits
      intro: steady_trans [OF payload_steady] steady_trans [OF jobs_payload_steady])

lemma known_steady: "steady s (s\<lparr>svc_known := ps\<rparr>)"
  by (simp add: steady_def)

lemma browse_steady [simp]: "steady s (browse_printers E s)"
proof -
  obtain cur s1 where 1: "call (cups_backend_enumerate E) s = (cur, s1)" by fastforce
  let ?s2 = "post_missing E (svc_known s1) cur ''Add'' s1"
  let ?s3 = "post_missing E cur (svc_known ?s2) ''Rmv'' ?s2"
  have 2: "steady s1 ?s2" by (simp add: post_missing_def steady_fold)
  have 3: "steady ?s2 ?s3" by (simp add: post_missing_def steady_fold)
  have "steady s (?s3\<lparr>svc_known := cur\<rparr>)"
    using steady_trans [OF steady_trans [OF steady_trans [OF backend_steady(1) [OF 1] 2] 3] known_steady] .
  then show ?thesis
    using 1 by (simp add: browse_printers_def Let_def steady_trans)
qed

lemma db_flush_replies: "db_flush E db w = (b, w1) \<Longrightarrow> replies w1 = replies w"
  by (auto simp: db_flush_def is_reply_def)

lemma db_steady:
  "set_current E pid s = (b, t) \<Longrightarrow> steady s t"
  "db_add E pid name addr s = (r, t) \<Longrightarrow> steady s t"
  "db_delete E pid ssid s = (b, t) \<Longrightarrow> steady s t"
  by (auto simp: set_current_def db_add_def db_delete_def steady_def printer_db_set_current_def
      printer_db_delete_def Let_def is_reply_def db_flush_def add_eq split: prod.splits if_splits option.splits)

lemma db_add_error: "db_add E pid name addr s = (Inl e, t) \<Longrightarrow> known_error e"
  by (auto simp: db_add_def add_eq Let_def split: prod.splits if_splits)

section \<open>Changing a job\<close>

lemma put_job_find [simp]: "find_job (put_job j s) k = (if k = job_id j then Some j else find_job s k)"
  by (simp add: put_job_def find_job_def)

lemma put_job_fields [simp]:
  "svc_ssid (put_job j s) = svc_ssid s" "svc_ports_handle (put_job j s) = svc_ports_handle s"
  "svc_poll_source (put_job j s) = svc_poll_source s" "svc_world (put_job j s) = svc_world s"
  "next_job_id (svc_jobs (put_job j s)) = next_job_id (svc_jobs s)"
  by (simp_all add: put_job_def)

definition job_step :: "print_job \<Rightarrow> print_job \<Rightarrow> bool" where
  "job_step i j \<longleftrightarrow> job_evolves i j \<and> (job_ok i \<longrightarrow> job_ok j) \<and> (\<forall>r. job_wf r i \<longrightarrow> job_wf r j)"

lemma put_job_inv:
  assumes "svc_inv s" "find_job s (job_id j) = Some i" "job_step i j"
    and "phase j = JOB_PHASE_SUBMITTED \<Longrightarrow> n \<noteq> 0" "svc_poll_source s \<noteq> 0 \<Longrightarrow> n \<noteq> 0"
    and "over j \<Longrightarrow> over i \<or> announced (job_id j) (svc_world s)"
  shows "svc_inv ((put_job j s)\<lparr>svc_poll_source := n\<rparr>)"
proof -
  let ?t = "(put_job j s)\<lparr>svc_poll_source := n\<rparr>"
  have find: "find_job ?t k = (if k = job_id j then Some j else find_job s k)" for k
    by (simp add: find_job_def put_job_def)
  have i: "job_ok i" "job_wf (spool_root (svc_jobs s)) i" "over i \<Longrightarrow> announced (job_id j) (svc_world s)"
    using assms(1,2) by (auto simp: svc_inv_def find_job_def dest: jm_invD)
  have "jm_inv (svc_jobs ?t)"
    using assms(1,2,3) i store.inv_put [of "svc_jobs s" j]
    by (auto simp: svc_inv_def find_job_def put_job_def job_step_def)
  moreover have "job_ok j" using assms(3) i(1) by (simp add: job_step_def)
  moreover have "over j \<Longrightarrow> announced (job_id j) (svc_world s)" using assms(6) i(3) by blast
  ultimately show ?thesis
    using assms(1,4,5) unfolding svc_inv_def find by (auto simp: split: if_splits)
qed

lemma put_job_keeps:
  assumes "find_job s (job_id j) = Some i" "job_evolves i j"
  shows "keeps s (put_job j s)"
  using assms by (auto simp: keeps_def)

lemma silent_put:
  assumes "find_job s (job_id j) = Some i" "job_step i j" "phase j = JOB_PHASE_SUBMITTED \<Longrightarrow> phase i = JOB_PHASE_SUBMITTED"
    and "over j \<Longrightarrow> over i \<or> announced (job_id j) (svc_world s)"
  shows "silent s (put_job j s)"
  unfolding silent_def
proof (intro impI conjI)
  assume inv: "svc_inv s"
  have "phase j = JOB_PHASE_SUBMITTED \<Longrightarrow> svc_poll_source s \<noteq> 0"
    using assms(1,3) inv by (auto simp: svc_inv_def)
  then have "svc_inv ((put_job j s)\<lparr>svc_poll_source := svc_poll_source s\<rparr>)"
    by (rule put_job_inv [OF inv assms(1,2) _ _ assms(4)])
  moreover have "(put_job j s)\<lparr>svc_poll_source := svc_poll_source s\<rparr> = put_job j s"
    by (simp add: put_job_def)
  ultimately show "svc_inv (put_job j s)" by simp
  show "keeps s (put_job j s)"
    using put_job_keeps assms(1,2) by (auto simp: job_step_def)
qed simp

text \<open>Ending a job and telling the subscribers, in the order the code does it.\<close>

lemma state_announced:
  assumes "env_ok E"
  shows "announced (job_id j) (svc_world (post_job_state E j ''DONE'' (Some outcome) bs s))"
  using assms by (auto simp: post_job_state_def get_time_def on_world_def post_def announced_def final_post_def
      luna_service_post_subscription_def env_ok_def Let_def)

lemma put_post: "post_job_state E j st js bs (put_job i s) = put_job i (post_job_state E j st js bs s)"
  by (simp add: post_job_state_def get_time_def on_world_def post_def put_job_def Let_def split: prod.split)

lemma silent_over:
  assumes "env_ok E" "find_job s (job_id j) = Some i" "job_step i j" "phase j \<noteq> JOB_PHASE_SUBMITTED"
  shows "silent s (post_job_state E j ''DONE'' (Some outcome) bs (put_job j s))"
proof -
  let ?u = "post_job_state E j ''DONE'' (Some outcome) bs s"
  have u: "steady s ?u" by simp
  have "silent ?u (put_job j ?u)"
    using assms(2-4) state_announced [OF assms(1)] by (intro silent_put [of _ _ i]) (simp_all add: steady_find [OF u])
  then show ?thesis
    unfolding put_post by (rule silent_trans [OF steady_silent [OF u]])
qed

text \<open>A job may become submitted if the poll timer is started with it.\<close>

lemma silent_put_polling:
  assumes "env_ok E" "find_job s (job_id j) = Some i" "job_step i j" "phase j = JOB_PHASE_SUBMITTED"
  shows "silent s (ensure_polling E (put_job j s))"
  unfolding silent_def
proof (intro impI conjI)
  assume inv: "svc_inv s"
  let ?t = "ensure_polling E (put_job j s)"
  define n w where "n = svc_poll_source ?t" and "w = svc_world ?t"
  have t: "?t = (put_job j s)\<lparr>svc_poll_source := n, svc_world := w\<rparr>" "n \<noteq> 0"
    "replies w = replies (svc_world s)"
    using env_okD(2) [OF assms(1)] by (simp_all add: n_def w_def ensure_polling_def put_job_def is_reply_def)
  have grown: "announced k w" if "announced k (svc_world s)" for k
    using that by (auto simp: w_def ensure_polling_def put_job_def)
  have eq: "svc_inv u \<Longrightarrow> svc_world u = svc_world s \<Longrightarrow> svc_inv (u\<lparr>svc_world := w\<rparr>)" for u :: "'a print_service"
    using grown by (simp add: svc_inv_def find_job_def)
  have "svc_inv ((put_job j s)\<lparr>svc_poll_source := n\<rparr>)"
    by (rule put_job_inv [OF inv assms(2,3)]) (use t(2) assms(4) in simp_all)
  then show "svc_inv ?t"
    unfolding t(1) by (drule_tac eq) simp_all
  show "keeps s ?t"
    using put_job_keeps [OF assms(2)] assms(3) by (simp add: t(1) keeps_def find_job_def job_step_def)
  show "replies (svc_world ?t) = replies (svc_world s)"
    by (simp add: t)
qed

lemma job_wf_cong:
  "temp_files j = temp_files i \<Longrightarrow> temp_dir j = temp_dir i \<Longrightarrow> job_id j = job_id i \<Longrightarrow> job_wf r j = job_wf r i"
  by (simp add: job_wf_def)

section \<open>The table and new jobs\<close>

lemma open_silent:
  assumes "open_job E pid desc app s = (job, t)" "ids_left (svc_jobs s)"
  shows "silent s t" "svc_inv s \<Longrightarrow> find_job t (job_id job) = Some job"
    "svc_inv s \<Longrightarrow> job_id job = next_job_id (svc_jobs s)"
    "svc_inv s \<Longrightarrow> job_ok job \<and> phase job = JOB_PHASE_OPEN \<and> files job = []"
proof -
  have *: "svc_inv t \<and> keeps s t \<and> replies (svc_world t) = replies (svc_world s) \<and>
    find_job t (job_id job) = Some job \<and> job_id job = next_job_id (svc_jobs s) \<and>
    job_ok job \<and> phase job = JOB_PHASE_OPEN \<and> files job = []" if "svc_inv s"
  proof -
    have jm: "jm_inv (svc_jobs s)" using that by (simp add: svc_inv_def)
    let ?f = "fresh_job E (svc_jobs s) pid desc app (svc_world s)"
    let ?m = "(svc_jobs s)\<lparr>next_job_id := next_job_id (svc_jobs s) + 1\<rparr>"
    have t: "job = ?f" "svc_jobs t = jm_put ?m ?f" "svc_poll_source t = svc_poll_source s"
      "svc_ssid t = svc_ssid s" "svc_ports_handle t = svc_ports_handle s"
      "replies (svc_world t) = replies (svc_world s)"
      and told: "announced k (svc_world s) \<Longrightarrow> announced k (svc_world t)" for k
      using assms(1) unfolding open_job_def open_eq [OF jm assms(2)] by (auto simp: is_reply_def replies_def)
    have find: "find_job t k = (if k = next_job_id (svc_jobs s) then Some ?f else find_job s k)" for k
      by (simp add: find_job_def t)
    have none: "find_job s (next_job_id (svc_jobs s)) = None"
      using store.fresh [OF jm order_refl] by (simp add: find_job_def)
    have ok: "job_ok ?f" by (simp add: job_ok_def)
    have "svc_inv t"
      using that open_inv [OF jm] ok told unfolding svc_inv_def find by (auto simp: t(2,3))
    moreover have "keeps s t"
      using none by (auto simp: keeps_def find t)
    ultimately show ?thesis
      using t ok by (simp add: find)
  qed
  then show "silent s t" "svc_inv s \<Longrightarrow> find_job t (job_id job) = Some job"
    "svc_inv s \<Longrightarrow> job_id job = next_job_id (svc_jobs s)"
    "svc_inv s \<Longrightarrow> job_ok job \<and> phase job = JOB_PHASE_OPEN \<and> files job = []"
    by (auto simp: silent_def)
qed

text \<open>Removing a job that was not there when the handler started loses nothing.\<close>

lemma remove_after:
  assumes "svc_inv s" "svc_inv t" "keeps s t" "find_job s k = None"
    "replies (svc_world t) = replies (svc_world s)"
  shows "svc_inv (remove_job k t)" "keeps s (remove_job k t)"
    "replies (svc_world (remove_job k t)) = replies (svc_world s)"
proof -
  let ?u = "remove_job k t"
  have u: "svc_jobs ?u = jm_del (svc_jobs t) k" "svc_poll_source ?u = svc_poll_source t"
    "svc_ssid ?u = svc_ssid t" "svc_ports_handle ?u = svc_ports_handle t"
    by (simp_all add: remove_job_def remove_eq)
  have find: "find_job ?u l = (if l = k then None else find_job t l)" for l
    by (simp add: find_job_def u)
  have "extends quiet (svc_world t) (svc_world ?u)"
    using remove_quiet [of "svc_world t" "svc_jobs t" k] by (simp add: remove_job_def split_beta)
  then have "announced l (svc_world t) \<Longrightarrow> announced l (svc_world ?u)" for l
    using announced_extends by blast
  then show "svc_inv ?u"
    using assms(2) store.inv_del [of "svc_jobs t" k] unfolding svc_inv_def find by (auto simp: u)
  show "keeps s ?u"
    using assms(3,4) unfolding keeps_def find by (auto simp: u)
  show "replies (svc_world ?u) = replies (svc_world s)"
    using quiet_replies [OF remove_quiet [of "svc_world t" "svc_jobs t" k]] assms(5)
    by (simp add: remove_job_def split_beta)
qed

end
