(* ===== verification/Handler_Laws.thy ===== *)
theory Handler_Laws
  imports Service_Laws
begin

text \<open>
  Every handler answers its message with exactly one proper reply and keeps the service's
  invariant; the two timers run silently.
\<close>

section \<open>Printers and the Settings page\<close>

named_theorems answers \<open>a handler answers its message\<close>

lemma printers_list_answers [answers]:
  "env_ok E \<Longrightarrow> answered (h, m) s (printers_list E h m s)"
  by (auto simp: printers_list_def Let_def split: option.splits prod.splits
      intro: handling.replied_fold [OF then_send steady_silent [OF post_event_steady]] then_send
      dest: subscription_steady)

lemma printers_get_capabilities_answers [answers]:
  "env_ok E \<Longrightarrow> answered (h, m) s (printers_get_capabilities E h m s)"
  by (auto simp: printers_get_capabilities_def caps_json_def split: option.splits prod.splits sum.splits
      intro: then_err then_send dest: backend_steady backend_error)

lemma printers_set_current_answers [answers]:
  "env_ok E \<Longrightarrow> answered (h, m) s (printers_set_current E h m s)"
  by (auto simp: printers_set_current_def Let_def split: option.splits prod.splits
      intro: then_err then_success dest: db_steady)

lemma printers_add_answers [answers]:
  "env_ok E \<Longrightarrow> answered (h, m) s (printers_add E h m s)"
  by (auto simp: printers_add_def split: option.splits prod.splits sum.splits
      intro: then_err then_success dest: db_steady db_add_error)

lemma printers_delete_answers [answers]:
  "env_ok E \<Longrightarrow> answered (h, m) s (printers_delete E h m s)"
  by (auto simp: printers_delete_def Let_def split: option.splits prod.splits
      intro: then_err then_success dest: db_steady)

lemma printers_lists_answer [answers]:
  "env_ok E \<Longrightarrow> answered (h, m) s (printers_list_added E h m s)"
  "env_ok E \<Longrightarrow> answered (h, m) s (printers_list_active E h m s)"
  by (auto simp: printers_list_added_def printers_list_active_def Let_def split: option.splits)

lemma get_current_steady: "steady s (s\<lparr>svc_db := db\<rparr>)"
  by (simp add: steady_def)

lemma printers_get_current_answers [answers]:
  "env_ok E \<Longrightarrow> answered (h, m) s (printers_get_current E h m s)"
  by (auto simp: printers_get_current_def Let_def split: option.splits prod.splits
      intro: then_send [OF get_current_steady])

lemma ports_lists_answer [answers]:
  "env_ok E \<Longrightarrow> answered (h, m) s (ports_list_printers E h m s)"
  "env_ok E \<Longrightarrow> answered (h, m) s (ports_list_jobs E h m s)"
  by (auto simp: ports_list_printers_def ports_list_jobs_def ports_printers_payload_def
      ports_jobs_payload_def Let_def split: prod.splits
      intro!: then_send intro: steady_trans get_current_steady dest!: subscription_steady backend_steady)

lemma ports_add_printer_answers [answers]:
  "env_ok E \<Longrightarrow> answered (h, m) s (ports_add_printer E h m s)"
  by (auto simp: ports_add_printer_def Let_def split: option.splits prod.splits sum.splits
      intro: then_err answered_steady [OF _ steady_trans [OF browse_steady ports_post_steady(1)]]
        then_send steady_trans dest: backend_steady backend_error db_steady)

lemma ports_remove_printer_answers [answers]:
  "env_ok E \<Longrightarrow> answered (h, m) s (ports_remove_printer E h m s)"
  by (auto simp: ports_remove_printer_def Let_def split: option.splits prod.splits sum.splits
      intro: then_err answered_steady [OF _ steady_trans [OF browse_steady ports_post_steady(1)]]
        then_success steady_trans dest: backend_steady backend_error db_steady)

lemma ports_set_default_answers [answers]:
  "env_ok E \<Longrightarrow> answered (h, m) s (ports_set_default_printer E h m s)"
  by (auto simp: ports_set_default_printer_def Let_def split: option.splits prod.splits
      intro: then_err answered_steady [OF then_success ports_post_steady(1)] dest: db_steady)

lemma ports_cancel_job_answers [answers]:
  "env_ok E \<Longrightarrow> answered (h, m) s (ports_cancel_job E h m s)"
  by (auto simp: ports_cancel_job_def Let_def split: option.splits prod.splits
      intro: then_err answered_steady [OF then_success ports_post_steady(2)]
        then_err [OF steady_trans] answered_steady [OF then_success [OF steady_trans] ports_post_steady(2)]
      dest!: backend_steady)

lemma ports_cancel_all_answers [answers]:
  "env_ok E \<Longrightarrow> answered (h, m) s (ports_cancel_all_jobs E h m s)"
proof -
  have "steady t (snd (call (cups_backend_cancel E p n) t))" for p n t
    using backend_steady(4) by (metis prod.collapse)
  then show "env_ok E \<Longrightarrow> answered (h, m) s (ports_cancel_all_jobs E h m s)"
    by (auto simp: ports_cancel_all_jobs_def Let_def split: prod.splits
        intro!: answered_steady [OF then_success ports_post_steady(2)]
        intro: steady_trans [OF backend_steady(6) steady_fold])
qed

section \<open>Jobs: open, parameters and areas\<close>

lemma with_job_answers:
  assumes "env_ok E"
    and "\<And>parsed k job. find_job s k = Some job \<Longrightarrow> luna_get_int parsed ''jobID'' = Some k \<Longrightarrow>
      svc_inv s \<Longrightarrow> job_id job = k \<Longrightarrow> answered (h, m) s (body parsed job)"
  shows "answered (h, m) s (with_job E h m body s)"
proof -
  have id: "job_id job = k" if "svc_inv s" "find_job s k = Some job" for k job
    using that by (auto simp: svc_inv_def find_job_def dest: jm_invD(1))
  have *: "answered (h, m) s (body parsed job)"
    if "find_job s k = Some job" "luna_get_int parsed ''jobID'' = Some k" for parsed k job
    using assms(2) [OF that _ id [OF _ that(1)]] by (auto simp: answered_def)
  show ?thesis
    using assms(1) by (auto simp: with_job_def * split: option.splits)
qed

lemma jobs_open_answers [answers]:
  "env_ok E \<Longrightarrow> ids_left (svc_jobs s) \<Longrightarrow> answered (h, m) s (jobs_open E h m s)"
  by (auto simp: jobs_open_def Let_def split: option.splits prod.splits
      intro: silent_answered [OF open_silent(1) then_send] dest: subscription_steady)

lemma jobs_get_current_params_answers [answers]:
  "env_ok E \<Longrightarrow> answered (h, m) s (jobs_get_current_params E h m s)"
  unfolding jobs_get_current_params_def
  by (rule with_job_answers) (simp_all add: Let_def)

lemma jobs_get_final_params_answers [answers]:
  assumes "env_ok E"
  shows "answered (h, m) s (jobs_get_final_params E h m s)"
  unfolding jobs_get_final_params_def
proof (rule with_job_answers [OF assms])
  fix parsed k job
  obtain caps s1 where caps: "call (cups_backend_get_caps E (job_printer_id job)) s = (caps, s1)"
    by fastforce
  have err: "known_error e" if "job_compute_area c m p u = Inl e" for c m p u e
    using area_error_cases [OF that] by auto
  show "answered (h, m) s (let (caps, s1) = call (cups_backend_get_caps E (job_printer_id job)) s;
           dpi = (case caps of Inl _ \<Rightarrow> 300
             | Inr c \<Rightarrow> if 0 < caps_max_resolution c then caps_max_resolution c else 300);
           p = params job
       in case job_compute_area (oor E) (Some (media_size p)) p dpi of
            Inl err \<Rightarrow> reply_err E h m err s1
          | Inr a \<Rightarrow> send_reply E h m (JObj (put_ok @ put_params p @
              [(''paramsAdjusted'', JBool (params_adjusted a))] @ put_margins a @
              [(''pixelUnits'', JInt (pixel_units a)), (''rawWidth'', JInt (raw_width a)),
               (''rawHeight'', JInt (raw_height a)), (''width'', JInt (area_width a)),
               (''height'', JInt (area_height a)), (''renderInReverseOrder'', JBool False)])) s1)"
    unfolding caps Let_def prod.case
    using backend_steady(2) [OF caps] assms err by (auto split: sum.splits intro: then_err then_send)
qed

lemma jobs_get_area_answers [answers]:
  assumes "env_ok E"
  shows "answered (h, m) s (jobs_get_area_for_insets E h m s)"
  unfolding jobs_get_area_for_insets_def
  by (rule with_job_answers [OF assms])
    (use assms in \<open>auto simp: Let_def split: sum.splits dest: area_error_cases\<close>)

text \<open>An edit rejects with a documented code and leaves valid parameters valid.\<close>

definition edit_ok :: "edit \<Rightarrow> bool" where
  "edit_ok f \<longleftrightarrow> (\<forall>p e p1. f p = (e, p1) \<longrightarrow>
     (params_valid p \<longrightarrow> params_valid p1) \<and> (\<forall>c. e = Some c \<longrightarrow> known_error c))"

lemma run_edits_ok: "list_all edit_ok fs \<Longrightarrow> edit_ok (run_edits fs)"
proof (induction fs)
  case (Cons f fs)
  then show ?case
    unfolding edit_ok_def by (fastforce split: prod.splits option.splits)
qed (simp add: edit_ok_def)

lemma take_enum_ok:
  assumes "known_error c" "\<And>str p. v (Some str) \<Longrightarrow> params_valid p \<Longrightarrow> params_valid (upd str p)"
  shows "edit_ok (take_enum parsed key upd v c)"
  using assms by (auto simp: edit_ok_def take_enum_def split: option.splits if_splits)

lemma take_bool_ok:
  assumes "\<And>b p. params_valid (upd b p) = params_valid p"
  shows "edit_ok (take_bool parsed key upd)"
  using assms by (auto simp: edit_ok_def take_bool_def split: option.splits)

lemma params_valid_insets_set [simp]: "params_valid (p\<lparr>insets_set := b\<rparr>) = params_valid p"
  by (simp add: params_valid_def)

lemma take_inset_ok:
  assumes "\<And>d p. params_valid (upd d p) = params_valid p"
  shows "edit_ok (take_inset parsed key upd)"
  using assms by (auto simp: edit_ok_def take_inset_def split: option.splits)

lemma take_copies_ok: "edit_ok (take_copies parsed)"
  by (auto simp: edit_ok_def take_copies_def params_valid_def split: option.splits if_splits)

lemma check_borderless_ok: "edit_ok check_borderless"
  by (auto simp: edit_ok_def check_borderless_def split: if_splits)

lemma edit_params_ok: "edit_ok (edit_params parsed)"
  unfolding edit_params_def param_edits_def
  by (rule run_edits_ok, unfold list.pred_inject(2), intro conjI)
    ((rule take_enum_ok take_bool_ok take_inset_ok take_copies_ok check_borderless_ok;
      simp add: params_valid_def)+, simp)

lemma job_step_params:
  assumes "phase job = JOB_PHASE_OPEN" "params_valid (params job) \<Longrightarrow> params_valid p"
  shows "job_step job (job\<lparr>params := p\<rparr>)"
  using assms job_wf_cong [of "job\<lparr>params := p\<rparr>" job]
  by (auto simp: job_step_def job_evolves_def job_ok_def)

lemma jobs_edit_params_answers [answers]:
  assumes "env_ok E"
  shows "answered (h, m) s (jobs_edit_params E h m s)"
  unfolding jobs_edit_params_def
proof (rule with_job_answers [OF assms])
  fix parsed k job
  assume job: "find_job s k = Some job" "job_id job = k"
  obtain e p where e: "edit_params parsed (params job) = (e, p)" by fastforce
  have ok: "params_valid (params job) \<Longrightarrow> params_valid p" "\<And>c. e = Some c \<Longrightarrow> known_error c"
    using edit_params_ok [of parsed] e by (auto simp: edit_ok_def)
  have "silent s (put_job (job\<lparr>params := p\<rparr>) s)" if "phase job = JOB_PHASE_OPEN"
    using job that by (intro silent_put [OF _ job_step_params [OF that ok(1)]]) simp_all
  then show "answered (h, m) s
       (if phase job \<noteq> JOB_PHASE_OPEN then reply_err E h m PM_ERR_JOB_ALREADY_CLOSED s
       else
         let (err, p) = edit_params parsed (params job);
             s1 = put_job (job\<lparr>params := p\<rparr>) s
         in case err of Some e \<Rightarrow> reply_err E h m e s1 | None \<Rightarrow> reply_success h m s1)"
    using assms ok(2) by (auto simp: e Let_def split: option.splits intro: silent_answered)
qed

section \<open>Jobs: files\<close>

lemma new_temp_file_silent:
  assumes "find_job s k = Some job" "job_id job = k" "new_temp_file E job x n s = (r, t)"
  shows "silent s t" "r = Inl e \<Longrightarrow> known_error e"
proof -
  obtain job1 w1 where new: "job_manager_new_temp_file E job (Some x) n (svc_world s) = (r, job1, w1)"
    by (cases "job_manager_new_temp_file E job (Some x) n (svc_world s)")
      (use assms(3) in \<open>auto simp: new_temp_file_def\<close>)
  have t: "t = put_job job1 (s\<lparr>svc_world := w1\<rparr>)"
    using assms(3) new by (simp add: new_temp_file_def)
  have step: "job_step job job1" "job_id job1 = job_id job" "phase job1 = phase job"
    using new_temp_file_job [OF new]
    by (auto simp: job_step_def job_evolves_def job_ok_def job_wf_temp_file [simplified])
  have 1: "steady s (s\<lparr>svc_world := w1\<rparr>)"
    using quiet_replies [OF new_temp_file_quiet [OF new]] announced_extends [OF _ new_temp_file_quiet [OF new]]
    by (simp add: steady_def)
  have 2: "silent (s\<lparr>svc_world := w1\<rparr>) t"
    unfolding t by (rule silent_put [OF _ step(1)]) (use assms step in \<open>simp_all add: steady_find [OF 1]\<close>)
  show "silent s t" by (rule silent_trans [OF steady_silent [OF 1] 2])
  show "r = Inl e \<Longrightarrow> known_error e"
    using new_temp_file_error new by blast
qed

lemma find_job_id: "svc_inv s \<Longrightarrow> find_job s k = Some job \<Longrightarrow> job_id job = k"
  by (auto simp: svc_inv_def find_job_def dest: jm_invD(1))

lemma answered_with_inv: "(svc_inv s \<Longrightarrow> answered q s t) \<Longrightarrow> answered q s t"
  by (auto simp: answered_def)

lemma jobs_new_temp_file_answers [answers]:
  "env_ok E \<Longrightarrow> answered (h, m) s (jobs_new_temp_file E h m s)"
  by (rule answered_with_inv)
    (auto simp: jobs_new_temp_file_def Let_def split: option.splits prod.splits sum.splits
      intro: silent_answered [OF new_temp_file_silent(1) answered_err]
        silent_answered [OF new_temp_file_silent(1) answered_send]
      dest: find_job_id new_temp_file_silent(2))

lemma resize_loop_steady:
  assumes "resize_loop E ks path n e0 s = (r, t)" "known_error e0"
  shows "steady s t \<and> (\<forall>e. r = Inl e \<longrightarrow> known_error e)"
  using assms
proof (induction ks arbitrary: s e0)
  case (Cons k ks)
  have step: "steady s u" if "call (job_manager_resize_temp_file E job path n) s = (r', u)" for job r' u
    by (rule call_steady [OF that]) (metis resize_quiet snd_conv)
  have err: "known_error e" if "call (job_manager_resize_temp_file E job path n) s = (Inl e, u)" for job e u
    using that by (auto elim!: callE dest: resize_error)
  show ?case
    using Cons.prems Cons.IH
    by (auto split: option.splits prod.splits sum.splits intro: steady_trans dest: step err)
qed auto

lemma resize_steady:
  "resize_loop E ks path n PM_ERR_FILE_NOT_IN_ANY_JOB s = (r, t) \<Longrightarrow> steady s t"
  "resize_loop E ks path n PM_ERR_FILE_NOT_IN_ANY_JOB s = (Inl e, t) \<Longrightarrow> known_error e"
  using resize_loop_steady by fastforce+

lemma jobs_resize_temp_file_answers [answers]:
  "env_ok E \<Longrightarrow> answered (h, m) s (jobs_resize_temp_file E h m s)"
  by (auto simp: jobs_resize_temp_file_def split: option.splits prod.splits sum.splits
      intro: then_err then_success dest: resize_steady)

lemma check_path_steady:
  assumes "call (check_path E path) s = (r, t)"
  shows "steady s t" "r = Some e \<Longrightarrow> known_error e"
proof -
  obtain v where v: "check_path E path (svc_world s) = (r, v)" "t = s\<lparr>svc_world := v\<rparr>"
    using assms by (rule callE)
  then show "steady s t"
    by (auto simp: check_path_def Let_def steady_def replies_def is_reply_def dest!: sniff_quiet
        split: option.splits if_splits prod.splits)
  show "r = Some e \<Longrightarrow> known_error e"
    using v by (auto simp: check_path_def Let_def split: option.splits if_splits prod.splits)
qed

lemma job_step_page:
  assumes "job_step job j" "phase job = JOB_PHASE_OPEN" "phase j = JOB_PHASE_OPEN"
  shows "job_step job (j\<lparr>files := files j @ [path]\<rparr>)"
  using assms job_wf_cong [of "j\<lparr>files := files j @ [path]\<rparr>" j]
  by (auto simp: job_step_def job_evolves_def job_ok_def prefix_def)

text \<open>Fields nothing depends on.\<close>

lemma job_step_counts [simp]:
  "job_step i (j\<lparr>current_page := n\<rparr>) = job_step i j"
  "job_step i (j\<lparr>total_pages := n\<rparr>) = job_step i j"
  "job_step i (j\<lparr>started_at := now\<rparr>) = job_step i j"
  "job_step i (j\<lparr>render_result_code := c, render_result_set := b, render_result_text := x\<rparr>) = job_step i j"
  by (simp_all add: job_step_def job_evolves_def job_ok_def job_wf_def)

lemma job_step_told:
  assumes "job_step i j" "st \<noteq> Some ''DONE'' \<or> phase j \<notin> {JOB_PHASE_OPEN, JOB_PHASE_SUBMITTED}"
  shows "job_step i (j\<lparr>last_printer_state := st\<rparr>)"
  using assms by (auto simp: job_step_def job_evolves_def job_ok_def job_wf_def)

lemma job_step_refl [simp]: "job_step i i"
  by (simp add: job_step_def)

lemma add_page_silent:
  assumes "find_job s k = Some job" "job_id job = k" "phase job = JOB_PHASE_OPEN"
  shows "silent s (put_job (job\<lparr>files := files job @ [path]\<rparr>) s)"
    and "silent s (put_job (job\<lparr>current_page := c, files := files job @ [path]\<rparr>) s)"
    and "silent s (put_job (job\<lparr>total_pages := n, files := files job @ [path]\<rparr>) s)"
    and "silent s (put_job (job\<lparr>current_page := c, total_pages := n, files := files job @ [path]\<rparr>) s)"
proof -
  have *: "silent s (put_job (j\<lparr>files := files j @ [path]\<rparr>) s)"
    if "job_step job j" "phase j = JOB_PHASE_OPEN" "job_id j = k" for j
    using that assms by (intro silent_put [of _ _ job] job_step_page) simp_all
  show "silent s (put_job (job\<lparr>files := files job @ [path]\<rparr>) s)"
    and "silent s (put_job (job\<lparr>current_page := c, files := files job @ [path]\<rparr>) s)"
    and "silent s (put_job (job\<lparr>total_pages := n, files := files job @ [path]\<rparr>) s)"
    and "silent s (put_job (job\<lparr>current_page := c, total_pages := n, files := files job @ [path]\<rparr>) s)"
    using * [of job] * [of "job\<lparr>current_page := c\<rparr>"] * [of "job\<lparr>total_pages := n\<rparr>"]
      * [of "job\<lparr>current_page := c, total_pages := n\<rparr>"] assms by simp_all
qed

lemma jobs_add_file_answers [answers]:
  assumes "env_ok E"
  shows "answered (h, m) s (jobs_add_file E h m s)"
proof (rule answered_with_inv)
  assume inv: "svc_inv s"
  have page: "answered (h, m) s (reply_success h m (post_page_info E j st n (put_job j t)))"
    if "steady s t" "silent t (put_job j t)" for j st n t
    using that by (intro handling.before [OF steady_silent silent_answered [OF _ then_success]]) auto
  show "answered (h, m) s (jobs_add_file E h m s)"
    using assms find_job_id [OF inv]
    by (auto simp: jobs_add_file_def Let_def steady_find
        intro!: page add_page_silent intro: then_err dest: check_path_steady
        split: option.splits prod.splits if_splits)
qed

section \<open>Jobs: submission, close and cancel\<close>

lemma job_step_submitted:
  assumes "phase job = JOB_PHASE_OPEN" "0 < n" "files job \<noteq> []"
  shows "job_step job (job\<lparr>cups_job_id := n, phase := JOB_PHASE_SUBMITTED\<rparr>)"
  using assms job_wf_cong [of "job\<lparr>cups_job_id := n, phase := JOB_PHASE_SUBMITTED\<rparr>" job]
  by (auto simp: job_step_def job_evolves_def job_ok_def)

lemma job_step_phase:
  assumes "phase job \<le> p" "p \<noteq> JOB_PHASE_SUBMITTED"
  shows "job_step job (job\<lparr>phase := p\<rparr>)"
  using assms job_wf_cong [of "job\<lparr>phase := p\<rparr>" job]
  by (auto simp: job_step_def job_evolves_def job_ok_def)

lemma job_step_trans: "job_step i j \<Longrightarrow> job_step j k \<Longrightarrow> job_step i k"
  unfolding job_step_def by (blast intro: job_evolves_trans)

lemma silent_phase:
  assumes "env_ok E" "find_job s k = Some job" "job_id job = k" "phase job \<le> p" "p \<noteq> JOB_PHASE_SUBMITTED"
  shows "silent s (post_job_state E (job\<lparr>phase := p\<rparr>) ''DONE'' (Some outcome) bs (put_job (job\<lparr>phase := p\<rparr>) s))"
  by (rule silent_over [OF assms(1) _ job_step_phase]) (use assms in simp_all)

lemma submit_job_cases:
  assumes "submit_job E job s = (r, t)"
  obtains (failed) e where "r = Inl e" "known_error e" "steady s t"
  | (queued) n job2 u where "r = Inr ()" "0 < n" "files job \<noteq> []" "steady s u"
      "job2 = job\<lparr>cups_job_id := n, phase := JOB_PHASE_SUBMITTED\<rparr> \<or>
       job2 = job\<lparr>cups_job_id := n, phase := JOB_PHASE_SUBMITTED, total_pages := int (length (files job))\<rparr>"
      "t = ensure_polling E (put_job (job2\<lparr>last_printer_state := Some ''QUEUED''\<rparr>) u)"
proof (cases "files job = []")
  case True
  then show ?thesis using assms by (intro failed) (auto simp: submit_job_def)
next
  case False
  obtain caps s1 where caps: "call (cups_backend_get_caps E (job_printer_id job)) s = (caps, s1)" by fastforce
  let ?p = "build_cups_params (oor E) job (case caps of Inl _ \<Rightarrow> 0 | Inr c \<Rightarrow> caps_max_resolution c)"
  obtain r2 s2 where sub: "call (cups_backend_submit E (job_printer_id job) (Some (description job))
    (files job) ?p) s1 = (r2, s2)" by fastforce
  have st: "steady s s2"
    using steady_trans [OF backend_steady(2) [OF caps] backend_steady(3) [OF sub]] .
  show ?thesis
  proof (cases r2)
    case (Inl e)
    then show ?thesis
      using assms False caps sub st backend_error(2) [OF sub [unfolded Inl]]
      by (intro failed) (auto simp: submit_job_def Let_def)
  next
    case (Inr n)
    have n: "0 < n"
      using sub Inr by (auto elim!: callE dest: submit_result)
    let ?j1 = "job\<lparr>cups_job_id := n, phase := JOB_PHASE_SUBMITTED\<rparr>"
    let ?j2 = "if total_pages ?j1 < 0 then ?j1\<lparr>total_pages := int (length (files ?j1))\<rparr> else ?j1"
    have "r = Inr ()" "t = ensure_polling E (put_job (?j2\<lparr>last_printer_state := Some ''QUEUED''\<rparr>)
        (post_job_state E ?j2 ''QUEUED'' None [] s2))"
      using assms False caps sub Inr by (simp_all add: submit_job_def Let_def)
    then show ?thesis
      using n False steady_trans [OF st post_state_steady]
      by (intro queued [of n "post_job_state E ?j2 ''QUEUED'' None [] s2" ?j2]) auto
  qed
qed

lemma submit_silent:
  assumes "env_ok E" "find_job s k = Some job" "job_id job = k" "phase job = JOB_PHASE_OPEN"
    and "submit_job E job s = (r, t)"
  shows "silent s t"
  using assms(5)
proof (cases rule: submit_job_cases)
  case (queued n job2 u)
  let ?j = "job2\<lparr>last_printer_state := Some ''QUEUED''\<rparr>"
  have "job_step job ?j" "job_id ?j = k" "phase ?j = JOB_PHASE_SUBMITTED"
    using queued(5) job_step_submitted [OF assms(4) queued(2,3)] assms(3)
    by (auto intro!: job_step_told [of job job2])
  then have "silent u t"
    unfolding queued(6) using assms(1,2) steady_find [OF queued(4)]
    by (intro silent_put_polling) simp_all
  then show ?thesis
    by (rule silent_trans [OF steady_silent [OF queued(4)]])
qed (rule steady_silent)

lemma submit_failed:
  assumes "submit_job E job s = (Inl e, t)"
  shows "steady s t" "known_error e"
  using assms by (cases rule: submit_job_cases; simp)+

lemma jobs_close_answers [answers]:
  assumes "env_ok E"
  shows "answered (h, m) s (jobs_close E h m s)"
  unfolding jobs_close_def
proof (rule with_job_answers [OF assms])
  fix parsed k job
  assume job: "find_job s k = Some job" "job_id job = k"
  let ?done = "job\<lparr>phase := JOB_PHASE_DONE\<rparr>"
  have put: "silent s (post_job_state E ?done ''DONE'' (Some outcome) [] (put_job ?done t))"
    if "phase job = JOB_PHASE_OPEN" "steady s t" for outcome t
    by (rule silent_trans [OF steady_silent [OF that(2)] silent_phase [OF assms]])
      (use job that in \<open>simp_all add: steady_find [OF that(2)]\<close>)
  obtain r t where sub: "submit_job E job s = (r, t)" by fastforce
  have "answered (h, m) s (case r of Inl err \<Rightarrow> reply_err E h m err
           (post_job_state E ?done ''DONE'' (Some ''Error'') [] (put_job ?done t))
       | Inr _ \<Rightarrow> reply_success h m t)" if "phase job = JOB_PHASE_OPEN"
    using silent_answered [OF submit_silent [OF assms job that sub] answered_success]
      silent_answered [OF put [OF that submit_failed(1)] answered_err [OF assms submit_failed(2)]] sub
    by (auto split: sum.splits)
  moreover have "answered (h, m) s (reply_success h m
      (post_job_state E ?done ''DONE'' (Some ''Success'') [] (put_job ?done s)))" if "phase job = JOB_PHASE_OPEN"
    by (rule silent_answered [OF put [OF that steady_refl] answered_success])
  ultimately show "answered (h, m) s
       (if phase job \<noteq> JOB_PHASE_OPEN then reply_err E h m PM_ERR_JOB_ALREADY_CLOSED s
       else
         let done_job = ?done
         in if files job = []
            then reply_success h m
                   (post_job_state E done_job ''DONE'' (Some ''Success'') [] (put_job done_job s))
            else (case submit_job E job s of
                (Inl err, s1) \<Rightarrow>
                  reply_err E h m err
                    (post_job_state E done_job ''DONE'' (Some ''Error'') [] (put_job done_job s1))
              | (Inr _, s1) \<Rightarrow> reply_success h m s1))"
    using assms by (cases r) (simp_all add: Let_def sub)
qed

lemma jobs_cancel_answers [answers]:
  assumes "env_ok E"
  shows "answered (h, m) s (jobs_cancel E h m s)"
  unfolding jobs_cancel_def
proof (rule with_job_answers [OF assms])
  fix parsed k job
  assume job: "find_job s k = Some job" "job_id job = k"
  obtain ok t where c: "(if phase job = JOB_PHASE_SUBMITTED \<and> 0 < cups_job_id job
              then call (cups_backend_cancel E (job_printer_id job) (cups_job_id job)) s
              else (True, s)) = (ok, t)" by fastforce
  then have st: "steady s t" by (auto split: if_splits dest: backend_steady)
  let ?j = "job\<lparr>phase := JOB_PHASE_CANCELLED\<rparr>"
  have "silent t (post_job_state E ?j ''DONE'' (Some ''Cancelled'') [] (put_job ?j t))"
    by (rule silent_phase [OF assms]) (use job in \<open>simp_all add: steady_find [OF st]\<close>)
  then have "answered (h, m) s (reply_success h m
      (post_job_state E ?j ''DONE'' (Some ''Cancelled'') [] (put_job ?j t)))"
    using silent_answered [OF silent_trans [OF steady_silent [OF st]] answered_success] by blast
  then show "answered (h, m) s (let (ok, s1) =
             (if phase job = JOB_PHASE_SUBMITTED \<and> 0 < cups_job_id job
              then call (cups_backend_cancel E (job_printer_id job) (cups_job_id job)) s
              else (True, s))
       in if \<not> ok then reply_err E h m PM_ERR_JOB_CANCEL_FAILED s1
          else
            let job1 = job\<lparr>phase := JOB_PHASE_CANCELLED\<rparr>
            in reply_success h m
                 (post_job_state E job1 ''DONE'' (Some ''Cancelled'') [] (put_job job1 s1)))"
    unfolding c using assms st by (simp add: Let_def then_err)
qed

section \<open>Jobs: status\<close>

lemma jobs_status_answer [answers]:
  "env_ok E \<Longrightarrow> answered (h, m) s (jobs_get_status E h m s)"
  "env_ok E \<Longrightarrow> answered (h, m) s (jobs_get_render_status E h m s)"
  "env_ok E \<Longrightarrow> answered (h, m) s (jobs_list_all E h m s)"
  by (auto simp: jobs_get_status_def jobs_get_render_status_def jobs_list_all_def Let_def
      split: option.splits prod.splits intro: then_send dest: subscription_steady)

lemma render_silent:
  assumes "find_job s k = Some job" "job_id job = k"
  shows "silent s (post E h c n o' (put_job (job\<lparr>render_result_code := code, render_result_set := True,
    render_result_text := txt\<rparr>) s))"
proof -
  have "silent s (put_job (job\<lparr>render_result_code := code, render_result_set := True,
    render_result_text := txt\<rparr>) s)"
    by (rule silent_put [of _ _ job]) (use assms in simp_all)
  then show ?thesis
    using silent_trans [OF _ steady_silent [OF post_steady]] by blast
qed

lemma jobs_set_render_status_answers [answers]:
  "env_ok E \<Longrightarrow> answered (h, m) s (jobs_set_render_status E h m s)"
  by (rule answered_with_inv)
    (auto simp: jobs_set_render_status_def Let_def split: option.splits
      intro: silent_answered [OF render_silent answered_success] dest: find_job_id)

section \<open>Jobs: allAtOnce\<close>

lemma add_paths_silent:
  assumes "add_paths E items job s = (r, t)" "find_job s k = Some job" "job_id job = k"
    "phase job = JOB_PHASE_OPEN"
  shows "silent s t \<and> (\<forall>e. r = Inl e \<longrightarrow> known_error e) \<and>
    (\<forall>job1. r = Inr job1 \<longrightarrow> find_job t k = Some job1 \<and> job_id job1 = k \<and> phase job1 = JOB_PHASE_OPEN)"
  using assms
proof (induction items arbitrary: job s)
  case (Cons item items)
  show ?case
  proof (cases item)
    case (JStr buf)
    obtain r1 s1 where c: "call (check_path E (c_string buf)) s = (r1, s1)" by fastforce
    note st = check_path_steady [OF c]
    show ?thesis
    proof (cases r1)
      case (Some e)
      then show ?thesis
        using Cons.prems JStr c st by (auto simp: Let_def steady_silent)
    next
      case None
      let ?j = "job\<lparr>files := files job @ [c_string buf]\<rparr>"
      have rest: "add_paths E items ?j (put_job ?j s1) = (r, t)"
        using Cons.prems(1) JStr c None by (simp add: Let_def)
      have "find_job s1 k = Some job"
        using Cons.prems(2) steady_find [OF st(1)] by simp
      then have "silent s1 (put_job ?j s1)"
        using Cons.prems(3,4) by (rule add_page_silent)
      then have "silent s (put_job ?j s1)"
        by (rule silent_trans [OF steady_silent [OF st(1)]])
      then show ?thesis
        using Cons.IH [OF rest] Cons.prems(3,4) by (auto intro: silent_trans)
    qed
  qed (use Cons.prems in auto)
qed auto

lemma submit_keeps_job:
  assumes "submit_job E job s = (Inl e, t)"
  shows "silent s (post_job_state E job st js [] t)" "known_error e"
  using steady_silent [OF steady_trans [OF submit_failed(1) post_state_steady]] submit_failed(2) assms
  by blast+

text \<open>What is silent from \<open>s\<close> on stays so when a job that \<open>s\<close> has not is removed.\<close>

lemma remove_silent:
  assumes "silent s t" "find_job s k = None"
  shows "silent s (remove_job k t)"
  using assms remove_after [of s t k] by (auto simp: silent_def)

lemma all_at_once_run_answers:
  assumes "env_ok E" "ids_left (svc_jobs s)"
  shows "answered (h, m) s (all_at_once_run E h m parsed paths pid desc app s)"
proof (rule answered_with_inv)
  assume inv: "svc_inv s"
  obtain job0 s0 where o0: "open_job E pid desc app s = (job0, s0)" by fastforce
  note op = open_silent(1) [OF o0 assms(2)] open_silent(2-4) [OF o0 assms(2) inv]
  let ?k = "job_id job0"
  define job where "job = (case luna_get_bool parsed ''autoScale'' of None \<Rightarrow> job0
            | Some b \<Rightarrow> job0\<lparr>params := (params job0)\<lparr>auto_scale := b\<rparr>\<rparr>)"
  have job: "job_id job = ?k" "phase job = JOB_PHASE_OPEN" "job_step job0 job"
    using op(4) job_step_params [of job0] by (auto simp: job_def split: option.splits)
  have none: "find_job s ?k = None"
    using store.fresh [of "svc_jobs s" ?k] op(3) inv by (simp add: svc_inv_def find_job_def)
  have "silent s0 (put_job job s0)"
    by (rule silent_put [of _ _ job0]) (use op job in simp_all)
  with op(1) have sil: "silent s (put_job job s0)" by (rule silent_trans)
  obtain r s1 where a: "add_paths E paths job (put_job job s0) = (r, s1)" by fastforce
  note ap = add_paths_silent [OF a _ job(1,2)]
  from ap sil have sil1: "silent s s1"
    using job(1) by (auto intro: silent_trans)
  show "answered (h, m) s (all_at_once_run E h m parsed paths pid desc app s)"
  proof (cases r)
    case (Inl e)
    have "known_error e" using ap job(1) Inl by simp
    then have "answered (h, m) s (reply_err E h m e (remove_job (job_id job) s1))"
      unfolding job(1) by (rule silent_answered [OF remove_silent [OF sil1 none] answered_err [OF assms(1)]])
    then show ?thesis
      using o0 a Inl by (simp add: all_at_once_run_def Let_def job_def [symmetric])
  next
    case (Inr job1)
    let ?j = "job1\<lparr>total_pages := int (length paths)\<rparr>"
    have job1: "find_job s1 ?k = Some job1" "job_id job1 = ?k" "phase job1 = JOB_PHASE_OPEN"
      using ap Inr job(1) by simp_all
    have "silent s1 (put_job ?j s1)"
      by (rule silent_put [of _ _ job1]) (use job1 in simp_all)
    with sil1 have sil2: "silent s (put_job ?j s1)" by (rule silent_trans)
    obtain r2 s2 where sub: "submit_job E ?j (put_job ?j s1) = (r2, s2)" by fastforce
    have run: "all_at_once_run E h m parsed paths pid desc app s =
      (case r2 of Inl err \<Rightarrow> reply_err E h m err (remove_job (job_id ?j)
           (post_job_state E ?j ''DONE'' (Some ''Error'') [] s2))
       | Inr _ \<Rightarrow> send_reply E h m (JObj (put_ok @ [(''jobID'', JInt (job_id ?j))])) s2)"
      using o0 a Inr sub by (simp add: all_at_once_run_def Let_def job_def [symmetric])
    show ?thesis
    proof (cases r2)
      case (Inl e)
      note sil3 = silent_trans [OF sil2 submit_keeps_job(1) [OF sub [unfolded Inl]]]
      note known = submit_keeps_job(2) [OF sub [unfolded Inl]]
      have k: "job_id ?j = ?k" using job1(2) by simp
      show ?thesis
        unfolding run Inl sum.case k
        by (rule silent_answered [OF remove_silent [OF sil3 none] answered_err [OF assms(1) known]])
    next
      case (Inr u)
      have "silent (put_job ?j s1) s2"
        by (rule submit_silent [OF assms(1) _ _ _ sub, of ?k]) (use job1 in simp_all)
      then show ?thesis
        unfolding run Inr sum.case
        by (rule silent_answered [OF silent_trans [OF sil2] answered_send [OF assms(1)]])
    qed
  qed
qed

lemma jobs_all_at_once_answers [answers]:
  "env_ok E \<Longrightarrow> ids_left (svc_jobs s) \<Longrightarrow> answered (h, m) s (jobs_all_at_once E h m s)"
  by (auto simp: jobs_all_at_once_def all_at_once_run_answers split: option.splits)

section \<open>The poll timer\<close>

text \<open>The ways one poll of a job can go.\<close>

definition told :: "string \<Rightarrow> print_job \<Rightarrow> print_job" where
  "told ps job = (if ps = ''DONE'' then job\<lparr>last_printer_state := Some ps, phase := JOB_PHASE_DONE\<rparr>
     else job\<lparr>last_printer_state := Some ps\<rparr>)"

lemma poll_job_cases:
  assumes "t = poll_job E job s"
  obtains (gone) s1 where
      "call (cups_backend_get_job_state E (job_printer_id job) (cups_job_id job)) s = (None, s1)"
      "t = post_job_state E (job\<lparr>phase := JOB_PHASE_DONE\<rparr>) ''DONE'' (Some ''Success'') []
        (put_job (job\<lparr>phase := JOB_PHASE_DONE\<rparr>) s1)"
  | (known) x ps js where
      "call (cups_backend_get_job_state E (job_printer_id job) (cups_job_id job)) s = (Some x, t)"
      "pm_jobstate_ipp_to_webos (js_ipp_state x) = (ps, js)" "last_printer_state job = Some ps"
  | (posted) x ps js s1 s2 i where
      "call (cups_backend_get_job_state E (job_printer_id job) (cups_job_id job)) s = (Some x, s1)"
      "pm_jobstate_ipp_to_webos (js_ipp_state x) = (ps, js)" "last_printer_state job \<noteq> Some ps"
      "i = job \<and> s2 = s1 \<or> (\<exists>now. i = job\<lparr>started_at := now\<rparr> \<and> get_time E s1 = (now, s2))"
      "t = put_job (told ps i) (post_job_state E i ps js (blocked_reasons x) s2)"
proof -
  obtain st s1 where c: "call (cups_backend_get_job_state E (job_printer_id job) (cups_job_id job)) s = (st, s1)"
    by fastforce
  show ?thesis
  proof (cases st)
    case None
    then show ?thesis using assms c by (intro gone) (simp_all add: poll_job_def Let_def)
  next
    case (Some x)
    obtain ps js where m: "pm_jobstate_ipp_to_webos (js_ipp_state x) = (ps, js)" by fastforce
    obtain i s2 where r: "(if ps = ''RUNNING'' \<and> started_at job = 0
                      then let (now, s') = get_time E s1 in (job\<lparr>started_at := now\<rparr>, s')
                      else (job, s1)) = (i, s2)" by fastforce
    have t: "t = (if last_printer_state job = Some ps then s1
        else put_job (told ps i) (post_job_state E i ps js (blocked_reasons x) s2))"
      using assms c Some m r by (simp add: poll_job_def Let_def split_beta told_def)
    show ?thesis
    proof (cases "last_printer_state job = Some ps")
      case True
      then show ?thesis using c Some m t by (intro known) simp_all
    next
      case False
      then show ?thesis using c Some m t r by (intro posted) (auto split: if_splits prod.splits)
    qed
  qed
qed

lemma poll_job_silent:
  assumes "env_ok E" "find_job s k = Some job" "job_id job = k" "phase job = JOB_PHASE_SUBMITTED"
  shows "silent s (poll_job E job s)"
proof -
  define t where "t = poll_job E job s"
  have "silent s t"
    using t_def
  proof (cases rule: poll_job_cases)
    case (gone s1)
    note steady = backend_steady(5) [OF gone(1)]
    show ?thesis
      unfolding gone(2)
      by (rule silent_trans [OF steady_silent [OF steady] silent_phase [OF assms(1)]])
        (use assms in \<open>simp_all add: steady_find [OF steady]\<close>)
  next
    case (known x ps js)
    then show ?thesis by (intro steady_silent backend_steady(5))
  next
    case (posted x ps js s1 s2 i)
    let ?u = "post_job_state E i ps js (blocked_reasons x) s2"
    have u: "steady s ?u"
      using posted(4) backend_steady(5) [OF posted(1)]
      by (auto intro: steady_trans [OF steady_trans post_state_steady] dest: time_steady)
    have i: "job_step job i" "phase i = JOB_PHASE_SUBMITTED" "job_id i = k"
      using posted(4) assms(3,4) by auto
    have finish: "job_step job (i\<lparr>phase := JOB_PHASE_DONE\<rparr>)"
      by (rule job_step_trans [OF i(1) job_step_phase]) (simp_all add: i(2))
    have "told ps i = (if ps = ''DONE'' then i\<lparr>phase := JOB_PHASE_DONE\<rparr>\<lparr>last_printer_state := Some ps\<rparr>
        else i\<lparr>last_printer_state := Some ps\<rparr>)"
      by (simp add: told_def)
    then have step: "job_step job (told ps i)" "job_id (told ps i) = k"
      using job_step_told [OF finish] job_step_told [OF i(1)] i(3) by (auto split: if_splits)
    have final: "announced k (svc_world ?u)" if "ps = ''DONE''"
    proof -
      have "js \<noteq> None" using posted(2) that by (auto simp: pm_jobstate_ipp_to_webos_def split: if_splits)
      then show ?thesis using state_announced [OF assms(1), of i] i(3) that by auto
    qed
    have "silent ?u (put_job (told ps i) ?u)"
      by (rule silent_put [of _ _ job])
        (use step final i(2) assms in \<open>auto simp: steady_find [OF u] told_def split: if_splits\<close>)
    then show ?thesis
      unfolding posted(5) by (rule silent_trans [OF steady_silent [OF u]])
  qed
  then show ?thesis by (simp add: t_def)
qed

lemma poll_loop_silent:
  assumes "env_ok E" "poll_loop E ks a s = (b, t)"
  shows "silent s t" "\<not> b \<Longrightarrow> t = s \<and> (\<forall>k \<in> set ks. \<forall>job. find_job s k = Some job \<longrightarrow> phase job \<noteq> JOB_PHASE_SUBMITTED)"
proof -
  have active: "poll_loop E ks True s = (b, t) \<Longrightarrow> b" for ks s b and t :: "'a print_service"
    by (induction ks arbitrary: s) (auto split: option.splits if_splits)
  have *: "svc_inv s \<Longrightarrow> silent s t"
    using assms(2)
  proof (induction ks arbitrary: a s)
    case (Cons k ks)
    show ?case
    proof (cases "find_job s k")
      case (Some job)
      have id: "job_id job = k" using find_job_id Cons.prems(1) Some .
      show ?thesis
      proof (cases "phase job = JOB_PHASE_SUBMITTED")
        case True
        have p: "silent s (poll_job E job s)" by (rule poll_job_silent [OF assms(1) Some id True])
        then have "svc_inv (poll_job E job s)" using Cons.prems(1) by (simp add: silent_def)
        from Cons.IH [OF this] Cons.prems(2) Some True p show ?thesis
          by (auto intro: silent_trans)
      qed (use Cons Some in auto)
    qed (use Cons in auto)
  qed simp
  then show "silent s t" by (auto simp: silent_def)
  show "\<not> b \<Longrightarrow> t = s \<and> (\<forall>k \<in> set ks. \<forall>job. find_job s k = Some job \<longrightarrow> phase job \<noteq> JOB_PHASE_SUBMITTED)"
    using assms(2)
  proof (induction ks arbitrary: a s)
    case (Cons k ks)
    then show ?case using active by (fastforce split: option.splits if_splits)
  qed auto
qed

lemma find_some_key: "find_job s k = Some job \<Longrightarrow> k \<in> set (map fst (jm_jobs (svc_jobs s)))"
  by (auto simp: find_job_def job_manager_find_def dest: map_of_SomeD intro: rev_image_eqI)

lemma poll_silent:
  assumes "env_ok E"
  shows "silent s (snd (poll_jobs E s))"
proof -
  obtain b s1 where p: "poll_loop E (job_manager_list E (svc_jobs s)) False s = (b, s1)" by fastforce
  let ?s2 = "ports_post_jobs E s1"
  have 2: "silent s ?s2"
    by (rule silent_trans [OF poll_loop_silent(1) [OF assms p] steady_silent [OF ports_post_steady(2)]])
  show ?thesis
  proof (cases b)
    case True
    then show ?thesis using 2 p by (simp add: poll_jobs_def Let_def)
  next
    case False
    have idle: "phase job \<noteq> JOB_PHASE_SUBMITTED" if "find_job s k = Some job" for k job
      using poll_loop_silent(2) [OF assms p False] find_some_key [OF that] that
      by (auto simp: job_manager_list_def env_okD(3) [OF assms])
    have s2: "steady s ?s2"
      using poll_loop_silent(2) [OF assms p False] by simp
    have "silent s (?s2\<lparr>svc_poll_source := 0\<rparr>)"
      using s2 idle by (auto simp: silent_def svc_inv_def keeps_def steady_def find_job_def)
    then show ?thesis using p False by (simp add: poll_jobs_def Let_def)
  qed
qed

lemma poll_job_extends: "extends (\<lambda>_. True) (svc_world s) (svc_world (poll_job E job s))"
proof -
  have any: "extends (\<lambda>_. True) u v" if "extends quiet u v" for u v
    using that by (rule extends_mono) simp
  have post: "extends (\<lambda>_. True) (svc_world u) (svc_world (post_job_state E j st js bs u))"
    for u :: "'a print_service" and j st js bs
    by (auto simp: post_job_state_def get_time_def on_world_def post_def luna_service_post_subscription_def
        Let_def extends_def)
  have asked: "extends (\<lambda>_. True) (svc_world s) (svc_world u)"
    if c: "call (cups_backend_get_job_state E pid n) s = (r, u)" for pid n r u
    using c by (auto elim!: callE intro: any [OF job_state_quiet])
  define t where "t = poll_job E job s"
  have "extends (\<lambda>_. True) (svc_world s) (svc_world t)"
    using t_def
  proof (cases rule: poll_job_cases)
    case (gone s1)
    show ?thesis
      unfolding gone(2) put_post
      using extends_trans [OF asked [OF gone(1)] post] by (simp add: put_job_def)
  next
    case (known x ps js)
    then show ?thesis using asked by blast
  next
    case (posted x ps js s1 s2 i)
    have "extends (\<lambda>_. True) (svc_world s1) (svc_world s2)"
      using posted(4) by (auto simp: get_time_def on_world_def)
    then show ?thesis
      using extends_trans [OF extends_trans [OF asked [OF posted(1)]] post] by (simp add: posted(5) put_job_def)
  qed
  then show ?thesis by (simp add: t_def)
qed

lemma poll_loop_next: "next_job_id (svc_jobs (snd (poll_loop E ks a s))) = next_job_id (svc_jobs s)"
proof (induction ks arbitrary: a s)
  case (Cons k ks)
  have "next_job_id (svc_jobs (poll_job E job s)) = next_job_id (svc_jobs s)" for job
  proof -
    define t where "t = poll_job E job s"
    have "next_job_id (svc_jobs t) = next_job_id (svc_jobs s)"
      using t_def
      by (cases rule: poll_job_cases)
        (auto simp: call_def get_time_def on_world_def post_job_state_def post_def put_job_def Let_def split: prod.splits)
    then show ?thesis by (simp add: t_def)
  qed
  then show ?case using Cons by (simp split: option.split)
qed simp

lemma poll_next: "next_job_id (svc_jobs (snd (poll_jobs E s))) = next_job_id (svc_jobs s)"
proof -
  obtain b s1 where p: "poll_loop E (job_manager_list E (svc_jobs s)) False s = (b, s1)" by fastforce
  have "svc_jobs (ports_post_jobs E s1) = svc_jobs s1"
    using ports_post_steady(2) [of s1 E] by (simp only: steady_def)
  then show ?thesis
    using poll_loop_next [of E "job_manager_list E (svc_jobs s)" False s] p
    by (simp add: poll_jobs_def Let_def)
qed

text \<open>
  CUPS is through with the jobs that wait: from now on, whatever is called before it is asked, each of
  them is canceled, aborted, completed or forgotten.
\<close>

definition settled :: "'k env \<Rightarrow> 'k print_service \<Rightarrow> bool" where
  "settled E s \<longleftrightarrow> (\<forall>k job es. find_job s k = Some job \<longrightarrow> phase job = JOB_PHASE_SUBMITTED \<longrightarrow>
     (case fst (cups_backend_get_job_state E (job_printer_id job) (cups_job_id job) (svc_world s @ es)) of
        None \<Rightarrow> True | Some st \<Rightarrow> js_ipp_state st \<in> {7, 8, 9}))"

lemma settledD:
  assumes "settled E s" "find_job s k = Some job" "phase job = JOB_PHASE_SUBMITTED"
    and "fst (cups_backend_get_job_state E (job_printer_id job) (cups_job_id job) (svc_world s @ es)) = Some st"
  shows "js_ipp_state st \<in> {7, 8, 9}"
  using assms unfolding settled_def by (metis option.simps(5))

lemma settled_later:
  assumes "settled E s" "svc_world t = svc_world s @ es"
    and "\<And>k job. find_job t k = Some job \<Longrightarrow> phase job = JOB_PHASE_SUBMITTED \<Longrightarrow> find_job s k = Some job"
  shows "settled E t"
  using assms unfolding settled_def by (metis append_assoc)

lemma poll_job_final:
  assumes "svc_inv s" "find_job s k = Some job" "phase job = JOB_PHASE_SUBMITTED" "settled E s"
  shows "\<exists>j. find_job (poll_job E job s) = (find_job s)(k \<mapsto> j) \<and> phase j = JOB_PHASE_DONE"
proof -
  define t where "t = poll_job E job s"
  have id: "job_id job = k" by (rule find_job_id [OF assms(1,2)])
  have over: "fst (pm_jobstate_ipp_to_webos (js_ipp_state x)) = ''DONE''"
    if c: "call (cups_backend_get_job_state E (job_printer_id job) (cups_job_id job)) s = (Some x, u)" for x u
  proof -
    have "fst (cups_backend_get_job_state E (job_printer_id job) (cups_job_id job) (svc_world s @ [])) = Some x"
      using c by (auto elim: callE)
    then have "js_ipp_state x \<in> {7, 8, 9}" by (rule settledD [OF assms(4,2,3)])
    then show ?thesis by (auto simp: pm_jobstate_ipp_to_webos_def)
  qed
  have "\<exists>j. find_job t = (find_job s)(k \<mapsto> j) \<and> phase j = JOB_PHASE_DONE"
    using t_def
  proof (cases rule: poll_job_cases)
    case (gone s1)
    show ?thesis
      by (rule exI [of _ "job\<lparr>phase := JOB_PHASE_DONE\<rparr>"])
        (simp add: gone(2) fun_eq_iff steady_find [OF post_state_steady] id steady_find [OF backend_steady(5) [OF gone(1)]])
  next
    case (known x ps js)
    then have "last_printer_state job = Some ''DONE''" using over [OF known(1)] by simp
    then show ?thesis using assms(1-3) by (auto simp: svc_inv_def job_ok_def)
  next
    case (posted x ps js s1 s2 i)
    have u: "find_job (post_job_state E i ps js (blocked_reasons x) s2) = find_job s"
      using posted(4) steady_find [OF backend_steady(5) [OF posted(1)]]
      by (auto simp: steady_find [OF post_state_steady] dest: steady_find [OF time_steady])
    have "job_id (told ps i) = k" using posted(4) id by (auto simp: told_def)
    then have "find_job t = (find_job s)(k \<mapsto> told ps i)"
      by (simp add: posted(5) fun_eq_iff u)
    moreover have "phase (told ps i) = JOB_PHASE_DONE"
      using posted(2) over [OF posted(1)] by (simp add: told_def)
    ultimately show ?thesis by blast
  qed
  then show ?thesis by (simp add: t_def)
qed

text \<open>The job \<open>k\<close> after a poll: done when it waited, and not touched otherwise.\<close>

definition polled :: "'k print_service \<Rightarrow> 'k print_service \<Rightarrow> int \<Rightarrow> bool" where
  "polled s t k \<longleftrightarrow>
     (if \<exists>i. find_job s k = Some i \<and> phase i = JOB_PHASE_SUBMITTED
      then \<exists>j. find_job t k = Some j \<and> phase j = JOB_PHASE_DONE else find_job t k = find_job s k)"

lemma poll_loop_final:
  assumes "env_ok E" "svc_inv s" "settled E s" "poll_loop E ks a s = (b, t)"
  shows "if k \<in> set ks then polled s t k else find_job t k = find_job s k"
  using assms(2-4)
proof (induction ks arbitrary: a s)
  case (Cons l ks)
  show ?case
  proof (cases "\<exists>job. find_job s l = Some job \<and> phase job = JOB_PHASE_SUBMITTED")
    case True
    then obtain job where job: "find_job s l = Some job" "phase job = JOB_PHASE_SUBMITTED" by blast
    let ?u = "poll_job E job s"
    obtain i where i: "find_job ?u = (find_job s)(l \<mapsto> i)" "phase i = JOB_PHASE_DONE"
      using poll_job_final [OF Cons.prems(1) job Cons.prems(2)] by blast
    have inv: "svc_inv ?u"
      using poll_job_silent [OF assms(1) job(1) find_job_id [OF Cons.prems(1) job(1)] job(2)] Cons.prems(1)
      by (simp add: silent_def)
    obtain es where "svc_world ?u = svc_world s @ es"
      using poll_job_extends [of s E job] by (auto simp: extends_def)
    then have "settled E ?u"
      by (rule settled_later [OF Cons.prems(2)]) (use i in \<open>auto split: if_splits\<close>)
    moreover have "poll_loop E ks True ?u = (b, t)" using Cons.prems(3) job by simp
    ultimately have "if k \<in> set ks then polled ?u t k else find_job t k = find_job ?u k"
      using Cons.IH [OF inv] by blast
    then show ?thesis using i job by (auto simp: polled_def split: if_splits)
  next
    case False
    then have "poll_loop E ks a s = (b, t)" using Cons.prems(3) by (auto split: option.splits)
    then have "if k \<in> set ks then polled s t k else find_job t k = find_job s k"
      using Cons.IH Cons.prems(1,2) by blast
    then show ?thesis using False by (auto simp: polled_def split: if_splits)
  qed
qed simp

lemma poll_final:
  assumes "env_ok E" "svc_inv s" "settled E s"
  shows "polled s (snd (poll_jobs E s)) k"
proof -
  obtain b s1 where p: "poll_loop E (job_manager_list E (svc_jobs s)) False s = (b, s1)" by fastforce
  have "find_job (u\<lparr>svc_poll_source := n\<rparr>) = find_job u" for u :: "'a print_service" and n
    by (simp add: fun_eq_iff find_job_def)
  then have same: "find_job (snd (poll_jobs E s)) = find_job s1"
    using p steady_find [OF ports_post_steady(2) [of s1 E]] by (simp add: poll_jobs_def Let_def)
  have "polled s s1 k \<or> find_job s k = None \<and> find_job s1 k = None"
    using poll_loop_final [OF assms p, of k] find_some_key [of s k]
    by (cases "find_job s k") (auto simp: job_manager_list_def env_okD(3) [OF assms(1)] split: if_splits)
  then show ?thesis by (auto simp: polled_def same)
qed

lemma poll_idle:
  assumes "\<And>k j. find_job s k = Some j \<Longrightarrow> phase j \<noteq> JOB_PHASE_SUBMITTED"
  shows "\<not> fst (poll_jobs E s) \<and> svc_poll_source (snd (poll_jobs E s)) = 0"
proof -
  have "poll_loop E ks a s = (a, s)" for ks a
    by (induction ks) (use assms in \<open>auto split: option.split\<close>)
  then show ?thesis by (simp add: poll_jobs_def Let_def)
qed

end
