(* ===== verification/Service_Run.thy ===== *)
theory Service_Run
  imports Handler_Laws
begin

text \<open>
  The registration part of \<open>src/print_service.c\<close>: the method tables, the creation of the service
  and its end, and the main loop as a step relation: a message is dispatched, or one of the two
  timers fires.
\<close>

section \<open>Method tables\<close>

definition printer_methods :: "(string \<times> 'k handler) list" where
  "printer_methods =
     [(''list'', printers_list), (''getCapabilities'', printers_get_capabilities),
      (''getCurrent'', printers_get_current), (''setCurrent'', printers_set_current),
      (''add'', printers_add), (''delete'', printers_delete),
      (''listAddedPrinters'', printers_list_added), (''listActive'', printers_list_active)]"

definition job_methods :: "(string \<times> 'k handler) list" where
  "job_methods =
     [(''getCurrentPrintParams'', jobs_get_current_params), (''editPrintParams'', jobs_edit_params),
      (''getFinalParamsAndArea'', jobs_get_final_params), (''newTempFile'', jobs_new_temp_file),
      (''resizeTempFile'', jobs_resize_temp_file), (''open'', jobs_open),
      (''addFile'', jobs_add_file), (''close'', jobs_close), (''cancel'', jobs_cancel),
      (''getStatus'', jobs_get_status), (''getRenderStatus'', jobs_get_render_status),
      (''setRenderStatus'', jobs_set_render_status), (''allAtOnce'', jobs_all_at_once),
      (''getAreaForInsets'', jobs_get_area_for_insets), (''listAll'', jobs_list_all)]"

definition ports_methods :: "(string \<times> 'k handler) list" where
  "ports_methods =
     [(''listPrinters'', ports_list_printers), (''listJobs'', ports_list_jobs),
      (''addPrinter'', ports_add_printer), (''removePrinter'', ports_remove_printer),
      (''setDefaultPrinter'', ports_set_default_printer), (''cancelJob'', ports_cancel_job),
      (''cancelAllJobs'', ports_cancel_all_jobs)]"

text \<open>The handler registered for a method of a category on one of the two handles.\<close>

definition handler_of :: "bus \<Rightarrow> string \<Rightarrow> string \<Rightarrow> 'k handler option" where
  "handler_of h cat meth =
     (case h of
        Bus_legacy \<Rightarrow>
          if cat = CAT_PRINTERS then map_of printer_methods meth
          else if cat = CAT_JOBS then map_of job_methods meth else None
      | Bus_ports \<Rightarrow> if cat = CAT_ROOT then map_of ports_methods meth else None)"

section \<open>Creation\<close>

abbreviation PRINT_SERVICE_LEGACY_NAME :: string where
  "PRINT_SERVICE_LEGACY_NAME \<equiv> ''com.palm.printmgr''"

abbreviation PORTS_SERVICE_NAME :: string where
  "PORTS_SERVICE_NAME \<equiv> ''org.webosports.service.print''"

abbreviation PRINTER_DB_PATH :: string where
  "PRINTER_DB_PATH \<equiv> ''/var/preferences/com.palm.printmgr/printers.conf''"

abbreviation SPOOL_ROOT :: string where
  "SPOOL_ROOT \<equiv> ''/var/spool/luneos-print''"

text \<open>Registration calls in a row; the first one that fails ends it.\<close>

fun run_setup :: "'k env \<Rightarrow> setup_call list \<Rightarrow> world \<Rightarrow> bool \<times> world" where
  "run_setup E [] w = (True, w)"
| "run_setup E (c # cs) w =
     (let ok = ls_setup_ok E w c; w1 = w @ [Setup c]
      in if \<not> ok then (False, w1) else run_setup E cs w1)"

definition legacy_setup :: "setup_call list" where
  "legacy_setup =
     [LSRegister PRINT_SERVICE_LEGACY_NAME, LSGmainAttach Bus_legacy,
      LSRegisterCategory Bus_legacy CAT_PRINTERS, LSCategorySetData Bus_legacy CAT_PRINTERS,
      LSRegisterCategory Bus_legacy CAT_JOBS, LSCategorySetData Bus_legacy CAT_JOBS]"

definition ports_setup :: "setup_call list" where
  "ports_setup =
     [LSGmainAttach Bus_ports, LSRegisterCategory Bus_ports CAT_ROOT,
      LSCategorySetData Bus_ports CAT_ROOT]"

text \<open>The second name may be missing, but once it is registered its set-up must succeed.\<close>

definition setup_ports :: "'k env \<Rightarrow> world \<Rightarrow> bool option \<times> world" where
  "setup_ports E w =
     (let (registered, w1) = run_setup E [LSRegister PORTS_SERVICE_NAME] w
      in if \<not> registered then (Some False, w1)
         else let (ok, w2) = run_setup E ports_setup w1
              in (if ok then Some True else None, w2))"

definition print_service_create :: "'k env \<Rightarrow> world \<Rightarrow> 'k print_service option \<times> world" where
  "print_service_create E w =
     (let (ok, w1) = run_setup E legacy_setup w
      in if \<not> ok then (None, w1)
         else
           let (ports, w2) = setup_ports E w1
           in case ports of
                None \<Rightarrow> (None, w2)
              | Some ports_handle \<Rightarrow>
                  let (db, w3) = printer_db_open E PRINTER_DB_PATH w2;
                      (jobs, w4) = job_manager_new SPOOL_ROOT w3;
                      (known, w5) = cups_backend_enumerate E w4;
                      source = timeout_add E w5;
                      w6 = w5 @ [Timer_add 5000]
                  in (Some \<lparr>svc_ports_handle = ports_handle, svc_db = db, svc_jobs = jobs,
                            svc_known = known, svc_browse_source = source, svc_poll_source = 0,
                            svc_ssid = None, svc_world = w6\<rparr>, w6))"

definition print_service_free :: "'k env \<Rightarrow> 'k print_service option \<Rightarrow> world \<Rightarrow> world" where
  "print_service_free E service w =
     (case service of None \<Rightarrow> w
      | Some s \<Rightarrow>
          let w0 = svc_world s;
              w1 = (if svc_browse_source s \<noteq> 0 then w0 @ [Source_remove (svc_browse_source s)] else w0);
              w2 = (if svc_poll_source s \<noteq> 0 then w1 @ [Source_remove (svc_poll_source s)] else w1);
              w3 = job_manager_free E (svc_jobs s) w2;
              w4 = w3 @ [Setup (LSUnregister Bus_legacy)]
          in if svc_ports_handle s then w4 @ [Setup (LSUnregister Bus_ports)] else w4)"

section \<open>The main loop\<close>

text \<open>
  The steps of the service. A message that makes the counter of jobs reach the largest \<open>int\<close> is left
  out: the next \<open>next_job_id++\<close> overflows, and from there on C does not define what the program does.
  Up to then the service can open 2147483645 jobs.
\<close>

inductive svc_step :: "'k env \<Rightarrow> 'k print_service \<Rightarrow> 'k print_service \<Rightarrow> bool" for E where
  message: "handler_of h cat meth = Some f \<Longrightarrow> ids_left (svc_jobs (f E h m s)) \<Longrightarrow> svc_step E s (f E h m s)"
| browse: "svc_browse_source s \<noteq> 0 \<Longrightarrow> svc_step E s (browse_printers E s)"
| poll: "svc_poll_source s \<noteq> 0 \<Longrightarrow> svc_step E s (snd (poll_jobs E s))"

inductive reachable :: "'k env \<Rightarrow> 'k print_service \<Rightarrow> bool" for E where
  created: "print_service_create E w = (Some s, w') \<Longrightarrow> reachable E s"
| step: "reachable E s \<Longrightarrow> svc_step E s t \<Longrightarrow> reachable E t"

inductive_simps svc_step_iff: "svc_step E s t"

section \<open>Every step\<close>

lemma all_methods:
  assumes "handler_of h cat meth = Some f"
  shows "f \<in> snd ` set printer_methods \<or> f \<in> snd ` set job_methods \<or> f \<in> snd ` set ports_methods"
proof -
  have "map_of xs meth = Some f \<Longrightarrow> f \<in> snd ` set xs" for xs
    by (metis image_eqI map_of_SomeD snd_conv)
  then show ?thesis
    using assms by (auto simp: handler_of_def split: bus.splits if_splits)
qed

lemma handler_answers:
  assumes "env_ok E" "handler_of h cat meth = Some f" "ids_left (svc_jobs s)"
  shows "answered (h, m) s (f E h m s)"
  using all_methods [OF assms(2)] assms(1,3)
  by (auto simp: printer_methods_def job_methods_def ports_methods_def answers)

lemma step_keeps:
  assumes "env_ok E" "svc_step E s t" "svc_inv s" "ids_left (svc_jobs s)"
  shows "svc_inv t \<and> keeps s t \<and> ids_left (svc_jobs t)"
  using assms(2) unfolding svc_step_iff
proof (elim disjE exE conjE)
  fix h cat meth f m
  assume "handler_of h cat meth = Some f" "t = f E h m s" "ids_left (svc_jobs (f E h m s))"
  then show ?thesis
    using handler_answers [OF assms(1) _ assms(4), of h cat meth f m] assms(3) by (auto simp: answered_def)
next
  assume t: "t = browse_printers E s"
  have "steady s t" by (simp add: t)
  then have "svc_jobs t = svc_jobs s" by (simp only: steady_def)
  then show ?thesis
    using steady_silent [OF browse_steady] assms(3,4) by (auto simp: t silent_def)
next
  assume t: "t = snd (poll_jobs E s)"
  then show ?thesis
    using poll_silent [OF assms(1)] assms(3,4) by (auto simp: silent_def ids_left_def poll_next)
qed

lemma created_inv:
  assumes "print_service_create E w = (Some s, w')"
  shows "svc_inv s" "svc_ssid s = None" "svc_jobs s = \<lparr>spool_root = SPOOL_ROOT, jm_jobs = [], next_job_id = 1\<rparr>"
proof -
  show jobs: "svc_jobs s = \<lparr>spool_root = SPOOL_ROOT, jm_jobs = [], next_job_id = 1\<rparr>"
    and "svc_ssid s = None"
    using assms by (auto simp: print_service_create_def Let_def job_manager_new_def
        split: prod.splits if_splits option.splits)
  show "svc_inv s"
    by (simp add: svc_inv_def find_job_def jobs jm_inv_def job_manager_find_def)
qed

lemma reachable_inv:
  assumes "reachable E s" "env_ok E"
  shows "svc_inv s \<and> svc_ssid s = None \<and> ids_left (svc_jobs s)"
  using assms
proof (induction rule: reachable.induct)
  case (created w s w')
  from created_inv [OF created(1)] show ?case by (simp add: ids_left_def)
next
  case (step s t)
  then show ?case using step_keeps [of E s t] by (simp add: keeps_def)
qed

text \<open>What holds along a run from a reachable state.\<close>

lemma run_keeps:
  assumes "(svc_step E)\<^sup>*\<^sup>* s t" "env_ok E" "reachable E s"
  shows "svc_inv t \<and> keeps s t \<and> reachable E t"
  using assms(1)
proof (induction rule: rtranclp_induct)
  case base
  then show ?case using reachable_inv [OF assms(3,2)] assms(3) by simp
next
  case (step t u)
  have "svc_inv u \<and> keeps t u"
    using step_keeps [OF assms(2) step(2)] reachable_inv [OF _ assms(2)] step.IH by blast
  then show ?case using step keeps_trans reachable.step by blast
qed

end
