(* ===== verification/Service_Properties.thy ===== *)
theory Service_Properties
  imports Service_Run
begin

text \<open>
  Properties of the service's operations: the capability lists, the browse, the parameters of a
  job, its pages and files, and the outcomes of close, cancel, poll and allAtOnce.
\<close>

section \<open>Sample states\<close>

text \<open>A service just created, and one with an open job, for the witnesses.\<close>

definition sample_service :: "sample_store print_service" where
  "sample_service = \<lparr>svc_ports_handle = True, svc_db = sample_db, svc_jobs = sample_jm, svc_known = [],
     svc_browse_source = 1, svc_poll_source = 0, svc_ssid = None, svc_world = []\<rparr>"

definition sample_job :: print_job where
  "sample_job = fresh_job sample_env sample_jm ''Office'' ''doc'' ''app'' []"

definition sample_busy :: "sample_store print_service" where
  "sample_busy = sample_service\<lparr>svc_jobs := jm_put (sample_jm\<lparr>next_job_id := 2\<rparr>) sample_job\<rparr>"

lemma sample_inv: "svc_inv sample_service" "svc_inv sample_busy"
proof -
  show "svc_inv sample_service"
    using sample_jm_inv by (simp add: svc_inv_def sample_service_def find_job_def sample_jm_def job_manager_find_def)
  have j: "jm_inv (jm_put (sample_jm\<lparr>next_job_id := 2\<rparr>) sample_job)"
    using open_inv [OF sample_jm_inv(1), of sample_env "''Office''" "''doc''" "''app''" "[]"]
    by (simp add: sample_jm_def sample_job_def)
  show "svc_inv sample_busy"
    using j by (simp add: svc_inv_def sample_busy_def sample_service_def find_job_def job_ok_def
        sample_job_def) (simp add: sample_jm_def job_manager_find_def)
qed

lemma sample_ids [simp]: "ids_left (svc_jobs sample_service)" "ids_left (svc_jobs sample_busy)"
  by (simp_all add: sample_service_def sample_busy_def sample_jm_def ids_left_def)

lemma sample_busy_find: "find_job sample_busy 1 = Some sample_job"
  by (simp add: sample_busy_def find_job_def sample_job_def sample_jm_def)

lemma sample_job_simps [simp]:
  "job_id sample_job = 1" "phase sample_job = JOB_PHASE_OPEN" "files sample_job = []"
  "params sample_job = print_params_init"
  by (simp_all add: sample_job_def sample_jm_def)

section \<open>Lists and names\<close>

lemma remdups_snoc: "remdups (xs @ [x]) = filter (\<lambda>y. y \<noteq> x) (remdups xs) @ [x]"
  by (induction xs) auto

lemma append_mapped_seen:
  "append_mapped_list seen vs f =
     filter (\<lambda>w. w \<notin> set seen) (rev (remdups (rev (List.map_filter (\<lambda>v. f (Some v)) vs))))"
  by (induction vs arbitrary: seen)
    (auto simp: map_filter_simps remdups_snoc rev_filter filter_filter conj_commute
      split: option.splits intro!: filter_cong)

text \<open>
  C22: A capability list has the mapped values in the printer's order, each keyword once, at its
  first place, and nothing else; every media size offered is one the service accepts.
\<close>

theorem capability_list_exact:
  "append_mapped_list [] vs f = rev (remdups (rev (List.map_filter (\<lambda>v. f (Some v)) vs)))
   \<and> distinct (append_mapped_list [] vs f)
   \<and> set (append_mapped_list [] vs f) = {w. \<exists>v \<in> set vs. f (Some v) = Some w}
   \<and> list_all (\<lambda>w. pm_media_is_valid (Some w)) (append_mapped_list [] vs pm_media_pwg_to_webos)"
proof -
  have eq: "append_mapped_list [] vs f = rev (remdups (rev (List.map_filter (\<lambda>v. f (Some v)) vs)))" for f
    by (simp add: append_mapped_seen)
  have set: "set (List.map_filter g vs) = {w. \<exists>v \<in> set vs. g v = Some w}" for g :: "string \<Rightarrow> string option"
    by (force simp: List.map_filter_def)
  show ?thesis
    unfolding eq using media.offered_usable by (auto simp: set list_all_iff)
qed

text \<open>
  The queue name made of a display name has its length and only letters, digits, dots, dashes
  and underscores; a name that has only these is not changed, and folding again changes nothing.
\<close>

lemma queue_name_valid:
  "length (fold_queue_name name) = length name \<and> list_all queue_char (fold_queue_name name)
   \<and> (fold_queue_name name = name \<longleftrightarrow> list_all queue_char name)
   \<and> fold_queue_name (fold_queue_name name) = fold_queue_name name"
proof -
  have u: "queue_char (CHR ''_'')" by (simp add: queue_char_def)
  then have v: "list_all queue_char (fold_queue_name name)" for name
    by (induction name) (simp_all add: fold_queue_name_def)
  have "list_all queue_char name \<Longrightarrow> fold_queue_name name = name" for name
    by (induction name) (simp_all add: fold_queue_name_def)
  then show ?thesis using v [of name] by (auto simp: fold_queue_name_def dest: sym)
qed

section \<open>Browse\<close>

definition event_post :: "string \<Rightarrow> cups_printer \<Rightarrow> io" where
  "event_post ev p = Post Bus_legacy CAT_PRINTERS METHOD_LIST (printer_event_json p ev)"

lemma fold_events:
  assumes "env_ok E"
  shows "fold (\<lambda>p. post_printer_event E p ev) ps s = s\<lparr>svc_world := svc_world s @ map (event_post ev) ps\<rparr>"
proof (induction ps arbitrary: s)
  case (Cons p ps)
  then show ?case
    using env_okD(1) [OF assms]
    by (simp add: post_printer_event_def post_def on_world_def luna_service_post_subscription_def event_post_def)
qed simp

lemma posts_Cons: "posts (e # w) = (if is_post e then e # posts w else posts w)" "posts [] = []"
  by (simp_all add: posts_def)

lemma posts_events [simp]: "posts (map (event_post ev) ps) = map (event_post ev) ps"
  by (induction ps) (simp_all add: posts_def event_post_def)

definition new_in :: "cups_printer list \<Rightarrow> cups_printer list \<Rightarrow> cups_printer list" where
  "new_in olds ps = filter (\<lambda>p. prn_id p \<notin> prn_id ` set olds) ps"

lemma missing_new: "missing_in olds ps = new_in olds ps"
  by (simp add: missing_in_def new_in_def list_ex_iff image_iff eq_commute)

text \<open>
  C21: A browse makes the printers CUPS has now the known ones, and tells the subscribers exactly the
  difference: one \<open>Add\<close> for each printer that was not known, then one \<open>Rmv\<close> for each known printer
  that is gone; the Settings page gets the whole list once if its name is registered.
\<close>

theorem browse_posts_difference:
  assumes "env_ok E"
  shows "let now = map (printer_of_dest E) (cups_get_dests E (svc_world s)); t = browse_printers E s
    in svc_known t = now \<and>
       (\<exists>es. posts (svc_world t) = posts (svc_world s)
          @ map (event_post ''Add'') (new_in (svc_known s) now)
          @ map (event_post ''Rmv'') (new_in now (svc_known s)) @ es
        \<and> (if svc_ports_handle s
           then \<exists>payload. es = [Post Bus_ports CAT_ROOT METHOD_LIST_PRINTERS (JObj payload)] else es = []))"
proof -
  obtain cur db1 where cur: "printer_db_get_current E (svc_db s) = (cur, db1)" by fastforce
  show ?thesis
    using env_okD(1) [OF assms] cur
    by (auto simp: browse_printers_def call_def cups_backend_enumerate_def post_missing_def fold_events [OF assms]
        ports_post_printers_def ports_printers_payload_def post_def on_world_def
        luna_service_post_subscription_def missing_new posts_Cons is_post_def Let_def)
qed

theorem browse_posts_difference_witness:
  "svc_known (browse_printers sample_env sample_service) = [printer_of_dest sample_env sample_dest]"
proof -
  have "cups_get_dests sample_env (svc_world sample_service) = [sample_dest]"
    by (simp add: sample_env_def)
  then show ?thesis
    using browse_posts_difference [of sample_env sample_service] by (simp add: Let_def)
qed

section \<open>The parameters of a job\<close>

lemma run_edits_success:
  assumes "run_edits (f # fs) p = (None, q)"
  obtains p1 where "f p = (None, p1)" "run_edits fs p1 = (None, q)"
  using assms by (auto split: prod.splits option.splits)

definition given :: "'a option \<Rightarrow> 'a \<Rightarrow> 'a" where
  "given x a = (case x of None \<Rightarrow> a | Some y \<Rightarrow> y)"

text \<open>What each edit does when it does not reject, as one record update.\<close>

lemma enum_taken:
  "take_enum parsed key (\<lambda>x. media_size_update (\<lambda>_. x)) v c p = (None, q) \<Longrightarrow>
     q = media_size_update (given (luna_get_string parsed key)) p"
  "take_enum parsed key (\<lambda>x. media_type_update (\<lambda>_. x)) v c p = (None, q) \<Longrightarrow>
     q = media_type_update (given (luna_get_string parsed key)) p"
  "take_enum parsed key (\<lambda>x. print_quality_update (\<lambda>_. x)) v c p = (None, q) \<Longrightarrow>
     q = print_quality_update (given (luna_get_string parsed key)) p"
  "take_enum parsed key (\<lambda>x. duplex_update (\<lambda>_. x)) v c p = (None, q) \<Longrightarrow>
     q = duplex_update (given (luna_get_string parsed key)) p"
  "take_enum parsed key (\<lambda>x. dry_time_update (\<lambda>_. x)) v c p = (None, q) \<Longrightarrow>
     q = dry_time_update (given (luna_get_string parsed key)) p"
  "take_enum parsed key (\<lambda>x. color_update (\<lambda>_. x)) v c p = (None, q) \<Longrightarrow>
     q = color_update (given (luna_get_string parsed key)) p"
  "take_enum parsed key (\<lambda>x. tray_update (\<lambda>_. x)) v c p = (None, q) \<Longrightarrow>
     q = tray_update (given (luna_get_string parsed key)) p"
  by (auto simp: take_enum_def given_def split: option.splits if_splits)

lemma copies_taken:
  "take_copies parsed p = (None, q) \<Longrightarrow> q = num_copies_update (given (luna_get_int parsed ''numCopies'')) p"
  by (auto simp: take_copies_def given_def split: option.splits if_splits)

lemma bool_taken:
  "take_bool parsed key (\<lambda>b. borderless_update (\<lambda>_. b)) p = (None, q) \<Longrightarrow>
     q = borderless_update (given (luna_get_bool parsed key)) p"
  "take_bool parsed key (\<lambda>b. auto_rotate_update (\<lambda>_. b)) p = (None, q) \<Longrightarrow>
     q = auto_rotate_update (given (luna_get_bool parsed key)) p"
  "take_bool parsed key (\<lambda>b. auto_scale_update (\<lambda>_. b)) p = (None, q) \<Longrightarrow>
     q = auto_scale_update (given (luna_get_bool parsed key)) p"
  by (auto simp: take_bool_def given_def split: option.splits)

lemma inset_taken:
  "take_inset parsed key (\<lambda>d. top_inset_update (\<lambda>_. d)) p = (None, q) \<Longrightarrow>
     q = insets_set_update (\<lambda>b. b \<or> luna_get_double parsed key \<noteq> None)
       (top_inset_update (given (luna_get_double parsed key)) p)"
  "take_inset parsed key (\<lambda>d. left_inset_update (\<lambda>_. d)) p = (None, q) \<Longrightarrow>
     q = insets_set_update (\<lambda>b. b \<or> luna_get_double parsed key \<noteq> None)
       (left_inset_update (given (luna_get_double parsed key)) p)"
  "take_inset parsed key (\<lambda>d. right_inset_update (\<lambda>_. d)) p = (None, q) \<Longrightarrow>
     q = insets_set_update (\<lambda>b. b \<or> luna_get_double parsed key \<noteq> None)
       (right_inset_update (given (luna_get_double parsed key)) p)"
  "take_inset parsed key (\<lambda>d. bottom_inset_update (\<lambda>_. d)) p = (None, q) \<Longrightarrow>
     q = insets_set_update (\<lambda>b. b \<or> luna_get_double parsed key \<noteq> None)
       (bottom_inset_update (given (luna_get_double parsed key)) p)"
  by (auto simp: take_inset_def given_def split: option.splits)

lemma borderless_checked:
  "check_borderless p = (None, q) \<Longrightarrow> q = p \<and> \<not> (borderless p \<and> insets_set p)"
  by (auto simp: check_borderless_def split: if_splits)

lemma run_edits_none: "run_edits [] p = (None, q) \<Longrightarrow> q = p"
  by simp

text \<open>
  C19: An edit that is accepted sets every parameter that was given to the given value and leaves
  the others, marks the insets as set when one was given, keeps the parameters valid, and never
  leaves insets on a borderless job.
\<close>

theorem edit_accepted:
  assumes "edit_params parsed p = (None, q)"
  shows "media_size q = given (luna_get_string parsed ''mediaSize'') (media_size p)
    \<and> media_type q = given (luna_get_string parsed ''mediaType'') (media_type p)
    \<and> print_quality q = given (luna_get_string parsed ''printQuality'') (print_quality p)
    \<and> duplex q = given (luna_get_string parsed ''duplex'') (duplex p)
    \<and> dry_time q = given (luna_get_string parsed ''dryTime'') (dry_time p)
    \<and> color q = given (luna_get_string parsed ''color'') (color p)
    \<and> tray q = given (luna_get_string parsed ''tray'') (tray p)
    \<and> num_copies q = given (luna_get_int parsed ''numCopies'') (num_copies p)
    \<and> borderless q = given (luna_get_bool parsed ''borderless'') (borderless p)
    \<and> auto_rotate q = given (luna_get_bool parsed ''autoRotate'') (auto_rotate p)
    \<and> auto_scale q = given (luna_get_bool parsed ''autoScale'') (auto_scale p)
    \<and> top_inset q = given (luna_get_double parsed ''topInset'') (top_inset p)
    \<and> left_inset q = given (luna_get_double parsed ''leftInset'') (left_inset p)
    \<and> right_inset q = given (luna_get_double parsed ''rightInset'') (right_inset p)
    \<and> bottom_inset q = given (luna_get_double parsed ''bottomInset'') (bottom_inset p)
    \<and> (insets_set q \<longleftrightarrow> insets_set p \<or> luna_get_double parsed ''topInset'' \<noteq> None
          \<or> luna_get_double parsed ''leftInset'' \<noteq> None \<or> luna_get_double parsed ''rightInset'' \<noteq> None
          \<or> luna_get_double parsed ''bottomInset'' \<noteq> None)
    \<and> \<not> (borderless q \<and> insets_set q) \<and> (params_valid p \<longrightarrow> params_valid q)"
proof -
  have valid: "params_valid p \<longrightarrow> params_valid q"
    using edit_params_ok [of parsed] assms by (auto simp: edit_ok_def)
  show ?thesis
    using assms valid unfolding edit_params_def param_edits_def
    by (elim run_edits_success)
      ((drule enum_taken copies_taken bool_taken inset_taken borderless_checked run_edits_none)+,
        elim conjE, hypsubst, intro conjI; simp add: disj_assoc)
qed

lemma sample_edit: "edit_params (JObj [(''numCopies'', JInt 2)]) print_params_init
    = (None, print_params_init\<lparr>num_copies := 2\<rparr>)"
  by (simp add: edit_params_def param_edits_def take_enum_def take_copies_def take_bool_def take_inset_def
      check_borderless_def luna_get_string_def luna_get_int_def luna_get_double_def luna_get_bool_def
      jis_number_def print_params_init_def)

theorem edit_accepted_witness:
  "\<exists>q. edit_params (JObj [(''numCopies'', JInt 2)]) print_params_init = (None, q) \<and> num_copies q = 2 \<and> params_valid q"
proof -
  have "params_valid print_params_init \<longrightarrow> params_valid (print_params_init\<lparr>num_copies := 2\<rparr>)"
    using edit_accepted [OF sample_edit] by blast
  then show ?thesis using sample_edit by simp
qed

text \<open>Where the error of a rejected edit comes from, and what of an accepted one a later edit meets.\<close>

lemma run_edits_failure:
  assumes "run_edits fs p = (Some e, q)"
  shows "\<exists>f \<in> set fs. \<exists>p1. f p1 = (Some e, q)"
  using assms
proof (induction fs arbitrary: p)
  case (Cons f fs)
  obtain r p1 where f: "f p = (r, p1)" by fastforce
  show ?case
  proof (cases r)
    case None
    then show ?thesis using Cons f by auto
  next
    case (Some c)
    then show ?thesis using Cons.prems f by auto
  qed
qed simp

lemma edit_kinds:
  "take_enum parsed key upd v c p = (Some e, q) \<Longrightarrow> e = c"
  "take_copies parsed p = (Some e, q) \<Longrightarrow> e = PM_ERR_BAD_PARAM_SYNTAX"
  "take_bool parsed key upd2 p = (Some e, q) \<Longrightarrow> False"
  "take_inset parsed key upd3 p = (Some e, q) \<Longrightarrow> False"
  "check_borderless p = (Some e, q) \<Longrightarrow> borderless q \<and> insets_set q"
  by (auto simp: take_enum_def take_copies_def take_bool_def take_inset_def check_borderless_def
      split: option.splits if_splits)

lemma conflict_rejected:
  assumes "edit_params parsed p = (Some PM_ERR_INSETS_WITH_BORDERLESS, q)"
  shows "borderless q \<and> insets_set q"
  using run_edits_failure [OF assms [unfolded edit_params_def]]
  by (auto simp: param_edits_def dest: edit_kinds)

lemma edit_exclusive:
  assumes "edit_params parsed p = (None, q)"
  shows "borderless q = given (luna_get_bool parsed ''borderless'') (borderless p) \<and>
    (insets_set p \<longrightarrow> insets_set q) \<and> \<not> (borderless q \<and> insets_set q)"
    "media_size q = given (luna_get_string parsed ''mediaSize'') (media_size p)"
    "top_inset q = given (luna_get_double parsed ''topInset'') (top_inset p) \<and>
     left_inset q = given (luna_get_double parsed ''leftInset'') (left_inset p) \<and>
     right_inset q = given (luna_get_double parsed ''rightInset'') (right_inset p) \<and>
     bottom_inset q = given (luna_get_double parsed ''bottomInset'') (bottom_inset p)"
  using assms unfolding edit_params_def param_edits_def
  by - (elim run_edits_success,
      (drule enum_taken copies_taken bool_taken inset_taken borderless_checked run_edits_none)+,
      elim conjE, hypsubst, (intro conjI)?; simp)+

section \<open>Requests that only ask\<close>

text \<open>The error reply a request is refused with.\<close>

definition err_json :: "int \<Rightarrow> json" where
  "err_json c = JObj [(''returnValue'', JBool False), (''errorCode'', JInt c),
     (''errorText'', JStr (pm_error_text c))]"

definition replied :: "bus \<Rightarrow> lsmessage \<Rightarrow> json \<Rightarrow> 'k print_service \<Rightarrow> 'k print_service \<Rightarrow> bool" where
  "replied h m r s t \<longleftrightarrow> replies (svc_world t) = replies (svc_world s) @ [Reply h m r]"

lemma reply_eqs:
  assumes "env_ok E"
  shows "reply_err E h m c s = s\<lparr>svc_world := svc_world s @ [Reply h m (err_json c)]\<rparr>"
    "reply_success h m s = s\<lparr>svc_world := svc_world s @ [Reply h m (JObj put_ok)]\<rparr>"
    "send_reply E h m r s = s\<lparr>svc_world := svc_world s @ [Reply h m r]\<rparr>"
  using env_okD(1) [OF assms]
  by (simp_all add: reply_err_def reply_success_def send_reply_def on_world_def err_json_def put_ok_def
      luna_service_message_reply_error_code_def luna_service_message_reply_success_def
      luna_service_message_validate_and_send_def)

lemma with_job_found:
  "parse E m = Some parsed \<Longrightarrow> luna_get_int parsed ''jobID'' = Some k \<Longrightarrow> find_job s k = Some job \<Longrightarrow>
     with_job E h m body s = body parsed job"
  by (simp add: with_job_def)

definition job_request :: "(string \<times> json) list \<Rightarrow> sample_store env" where
  "job_request fs = sample_env_with ((''jobID'', JInt 1) # fs)"

lemma job_request_simps [simp]:
  "env_ok (job_request fs)" "parse (job_request fs) m = Some (JObj ((''jobID'', JInt 1) # fs))"
  "luna_get_int (JObj ((''jobID'', JInt 1) # fs)) ''jobID'' = Some 1"
  by (simp_all add: job_request_def parse_def luna_service_message_parse_and_validate_def sample_env_with_def
      sample_env_def luna_get_int_def jis_number_def env_ok_def)

lemma replied_code: "replied h m (err_json c) s t \<Longrightarrow> replied h m (err_json d) s t \<Longrightarrow> c = d"
  by (simp add: replied_def err_json_def)

lemma edit_run:
  assumes "env_ok E" "parse E m = Some parsed" "luna_get_int parsed ''jobID'' = Some k"
    and "find_job s k = Some job" "job_id job = k" "phase job = JOB_PHASE_OPEN" "edit_params parsed (params job) = (err, q)"
  shows "find_job (jobs_edit_params E h m s) = (find_job s)(k \<mapsto> job\<lparr>params := q\<rparr>)"
    and "replied h m (case err of None \<Rightarrow> JObj put_ok | Some c \<Rightarrow> err_json c) s (jobs_edit_params E h m s)"
  unfolding jobs_edit_params_def with_job_found [OF assms(2-4)]
  using assms(5-7) by (auto simp: Let_def reply_eqs [OF assms(1)] replied_def put_job_def find_job_def fun_eq_iff
      split: option.split)

text \<open>A border of zero together with insets is a conflict no edit resolves but one that gives \<open>borderless\<close> as false.\<close>

lemma run_edits_keep:
  assumes "\<And>f p. f \<in> set fs \<Longrightarrow> P p \<Longrightarrow> P (snd (f p))" "P p"
  shows "P (snd (run_edits fs p))"
  using assms
proof (induction fs arbitrary: p)
  case (Cons f fs)
  obtain r p1 where f: "f p = (r, p1)" by fastforce
  have "P p1" using Cons.prems(1) [of f p] Cons.prems(2) f by simp
  then show ?case using Cons.IH [of p1] Cons.prems(1) f by (cases r) auto
qed simp

lemma conflict_stays:
  assumes "luna_get_bool parsed ''borderless'' \<noteq> Some False" "borderless p \<and> insets_set p"
    and "edit_params parsed p = (err, q)"
  shows "err \<noteq> None \<and> borderless q \<and> insets_set q"
proof -
  have "borderless (snd (f x)) \<and> insets_set (snd (f x))"
    if "f \<in> set (param_edits parsed)" "borderless x \<and> insets_set x" for f x
    using that assms(1) by (auto simp: param_edits_def take_enum_def take_copies_def take_bool_def take_inset_def
        check_borderless_def split: option.split)
  then have "borderless (snd (run_edits (param_edits parsed) p)) \<and> insets_set (snd (run_edits (param_edits parsed) p))"
    using assms(2) by (rule run_edits_keep [where P = "\<lambda>p. borderless p \<and> insets_set p"])
  then have "borderless q \<and> insets_set q" using assms(3) by (simp add: edit_params_def)
  moreover from this have "err \<noteq> None" using edit_exclusive(1) [of parsed p q] assms(3) by (cases err) auto
  ultimately show ?thesis by blast
qed

text \<open>Every one of the edits \<open>ms\<close>, made one after the other, is answered with an error.\<close>

fun all_refused :: "'k env \<Rightarrow> (bus \<times> lsmessage) list \<Rightarrow> 'k print_service \<Rightarrow> bool" where
  "all_refused E [] s = True"
| "all_refused E ((h, m) # ms) s =
     ((\<exists>c. replied h m (err_json c) s (jobs_edit_params E h m s)) \<and> all_refused E ms (jobs_edit_params E h m s))"

text \<open>
  C33: An edit that is rejected is not undone. When \<open>editPrintParams\<close> refuses a job with -602, a border of
  zero and the insets stay with the job all the same, and of the edits that are then made of it, one
  after the other, every one is refused as well, even one without any parameter, as long as none
  turns borderless off: the insets cannot be taken back.
\<close>

theorem rejected_edit_persists:
  assumes "env_ok E" "svc_inv s" "parse E m = Some parsed" "luna_get_int parsed ''jobID'' = Some k"
    and "find_job s k = Some job" "phase job = JOB_PHASE_OPEN" "t = jobs_edit_params E h m s"
    and "replied h m (err_json PM_ERR_INSETS_WITH_BORDERLESS) s t"
    and "\<forall>(h', m') \<in> set ms. \<exists>later. parse E m' = Some later \<and> luna_get_int later ''jobID'' = Some k \<and>
      luna_get_bool later ''borderless'' \<noteq> Some False"
  shows "\<exists>q. find_job t = (find_job s)(k \<mapsto> job\<lparr>params := q\<rparr>) \<and> borderless q \<and> insets_set q \<and> all_refused E ms t"
proof -
  have id: "job_id job = k" by (rule find_job_id [OF assms(2,5)])
  obtain err q where e: "edit_params parsed (params job) = (err, q)" by fastforce
  note run = edit_run [OF assms(1,3-5) id assms(6) e, of h, folded assms(7)]
  have "err = Some PM_ERR_INSETS_WITH_BORDERLESS"
    using run(2) assms(8) by (cases err) (auto simp: replied_def err_json_def put_ok_def)
  note q = conflict_rejected [OF e [unfolded this]]
  have "all_refused E ms u" if "find_job u k = Some (job\<lparr>params := x\<rparr>)" "borderless x \<and> insets_set x" for u x
    using that assms(9)
  proof (induction ms arbitrary: u x)
    case (Cons hm ms)
    obtain h' m' where hm: "hm = (h', m')" by fastforce
    obtain later where later: "parse E m' = Some later" "luna_get_int later ''jobID'' = Some k"
      "luna_get_bool later ''borderless'' \<noteq> Some False"
      using Cons.prems(3) hm by auto
    obtain err' y where e': "edit_params later (params (job\<lparr>params := x\<rparr>)) = (err', y)" by fastforce
    have y: "err' \<noteq> None \<and> borderless y \<and> insets_set y"
      using conflict_stays [OF later(3) Cons.prems(2)] e' by simp
    note run' = edit_run [OF assms(1) later(1,2) Cons.prems(1) _ _ e', of h']
    have "all_refused E ms (jobs_edit_params E h' m' u)"
      using run'(1) id assms(6) y Cons.prems(3) by (intro Cons.IH [of _ y]) simp_all
    then show ?case using run'(2) id assms(6) y by (auto simp: hm)
  qed simp
  then show ?thesis using run(1) q by auto
qed

definition conflict_env :: "sample_store env" where
  "conflict_env = job_request [(''borderless'', JBool True), (''topInset'', JDouble 1)]"

theorem rejected_edit_persists_witness:
  "\<exists>c. replied Bus_legacy sample_message (err_json c) (jobs_edit_params conflict_env Bus_legacy sample_message sample_busy)
    (jobs_edit_params conflict_env Bus_legacy sample_message (jobs_edit_params conflict_env Bus_legacy sample_message sample_busy))"
proof -
  let ?o = "JObj ((''jobID'', JInt 1) # [(''borderless'', JBool True), (''topInset'', JDouble 1)])"
  let ?t = "jobs_edit_params conflict_env Bus_legacy sample_message sample_busy"
  note req = job_request_simps [of "[(''borderless'', JBool True), (''topInset'', JDouble 1)]", folded conflict_env_def]
  have bool: "luna_get_bool ?o ''borderless'' \<noteq> Some False" by (simp add: luna_get_bool_def)
  obtain q where "edit_params ?o (params sample_job) = (Some PM_ERR_INSETS_WITH_BORDERLESS, q)"
    by (simp add: edit_params_def param_edits_def take_enum_def take_copies_def take_bool_def take_inset_def
      check_borderless_def luna_get_string_def luna_get_int_def luna_get_double_def luna_get_bool_def
      jis_number_def print_params_init_def)
  from edit_run(2) [OF req(1-3) sample_busy_find sample_job_simps(1,2) this]
  have "replied Bus_legacy sample_message (err_json PM_ERR_INSETS_WITH_BORDERLESS) sample_busy ?t" by simp
  from rejected_edit_persists [where ms = "[(Bus_legacy, sample_message)]", OF req(1) sample_inv(2) req(2,3) sample_busy_find
      sample_job_simps(2) refl this]
  show ?thesis using req(2,3) bool by auto
qed

lemma probe_run:
  assumes "env_ok E" "parse E m = Some parsed" "luna_get_int parsed ''jobID'' = Some k" "find_job s k = Some job"
  shows "jobs_get_area_for_insets E h m s = s\<lparr>svc_world := svc_world s @ [Reply h m
    (case job_compute_area (oor E) (Some (media_size (params job))) (probe_params parsed (params job)) 300 of
       Inl c \<Rightarrow> err_json c
     | Inr a \<Rightarrow> JObj (put_ok @ [(''width'', JInt (area_width a)), (''height'', JInt (area_height a))]))]\<rparr>"
  unfolding jobs_get_area_for_insets_def with_job_found [OF assms(2-4)]
  by (simp add: Let_def probe_params_def reply_eqs [OF assms(1)] split: sum.splits)

lemma area_cong:
  assumes "borderless p = borderless q" "top_inset p = top_inset q" "left_inset p = left_inset q"
    "right_inset p = right_inset q" "bottom_inset p = bottom_inset q"
  shows "job_compute_area conv media p u = job_compute_area conv media q u"
  unfolding job_compute_area_def assms by (rule refl)

text \<open>
  C30: What \<open>getAreaForInsets\<close> answers is what the edit would lead to: the answer for some insets is
  the very answer that is given without any insets after \<open>editPrintParams\<close> has accepted the same
  message (one that leaves the sheet and its border alone), and that is the area, or the reason that
  there is none, of the parameters the edit leaves. The question itself changes nothing but the history.
\<close>

theorem probe_foretells_edit:
  assumes "env_ok E" "svc_inv s" "find_job s k = Some job" "phase job = JOB_PHASE_OPEN"
    and "parse E m = Some parsed" "luna_get_int parsed ''jobID'' = Some k"
    and "luna_get_string parsed ''mediaSize'' = None" "luna_get_bool parsed ''borderless'' = None"
    and "t = jobs_edit_params E h m s" "replied h m (JObj put_ok) s t"
    and "parse E m' = Some later" "luna_get_int later ''jobID'' = Some k"
    and "\<forall>key \<in> {''topInset'', ''leftInset'', ''rightInset'', ''bottomInset''}. luna_get_double later key = None"
  shows "\<exists>r q. jobs_get_area_for_insets E h m s = s\<lparr>svc_world := svc_world s @ [Reply h m r]\<rparr> \<and>
    jobs_get_area_for_insets E h' m' t = t\<lparr>svc_world := svc_world t @ [Reply h' m' r]\<rparr> \<and>
    find_job t k = Some (job\<lparr>params := q\<rparr>) \<and>
    r = (case job_compute_area (oor E) (Some (media_size q)) q 300 of Inl c \<Rightarrow> err_json c
      | Inr a \<Rightarrow> JObj (put_ok @ [(''width'', JInt (area_width a)), (''height'', JInt (area_height a))]))"
proof -
  let ?p = "params job"
  have id: "job_id job = k" by (rule find_job_id [OF assms(2,3)])
  obtain err q where e: "edit_params parsed ?p = (err, q)" by fastforce
  note run = edit_run [OF assms(1,5,6,3) id assms(4) e, of h, folded assms(9)]
  have "err = None"
    using run(2) assms(10) by (cases err) (auto simp: replied_def err_json_def put_ok_def)
  note q = edit_exclusive [OF e [unfolded this]]
  have "probe_params later q = q"
    using assms(13) by (simp add: probe_params_def overlay_def)
  moreover have "job_compute_area (oor E) (Some (media_size ?p)) (probe_params parsed ?p) 300
      = job_compute_area (oor E) (Some (media_size q)) q 300"
    using q assms(7,8) area_cong [of "probe_params parsed ?p" q]
    by (simp add: probe_params_def overlay_def given_def)
  moreover have "find_job t k = Some (job\<lparr>params := q\<rparr>)" using run(1) by simp
  ultimately show ?thesis
    using probe_run [OF assms(1,5,6,3), of h] probe_run [OF assms(1,11,12), of t "job\<lparr>params := q\<rparr>" h'] by auto
qed

text \<open>An environment in which two different messages carry an inset and none.\<close>

definition probe_env :: "sample_store env" where
  "probe_env = sample_env\<lparr>jdom_parse := (\<lambda>p. JObj ((''jobID'', JInt 1) # (if p = ''{}'' then [] else [(''topInset'', JDouble 1)])))\<rparr>"

theorem probe_foretells_edit_witness:
  "let m = \<lparr>msg_payload = ''{ }'', msg_is_subscription = False\<rparr>;
     t = jobs_edit_params probe_env Bus_legacy m sample_busy
   in \<exists>r. jobs_get_area_for_insets probe_env Bus_legacy m sample_busy
       = sample_busy\<lparr>svc_world := svc_world sample_busy @ [Reply Bus_legacy m r]\<rparr> \<and>
     jobs_get_area_for_insets probe_env Bus_legacy sample_message t
       = t\<lparr>svc_world := svc_world t @ [Reply Bus_legacy sample_message r]\<rparr>"
proof -
  let ?m = "\<lparr>msg_payload = ''{ }'', msg_is_subscription = False\<rparr>"
  let ?o = "JObj [(''jobID'', JInt 1), (''topInset'', JDouble 1)]" and ?l = "JObj [(''jobID'', JInt 1)]"
  note luna = luna_get_string_def luna_get_int_def luna_get_double_def luna_get_bool_def jis_number_def
  have ok: "env_ok probe_env" by (simp add: probe_env_def env_ok_def sample_env_def)
  have parse: "parse probe_env ?m = Some ?o" "parse probe_env sample_message = Some ?l"
    by (simp_all add: probe_env_def parse_def luna_service_message_parse_and_validate_def sample_env_def sample_message_def)
  obtain q where "edit_params ?o (params sample_job) = (None, q)"
    by (simp add: edit_params_def param_edits_def take_enum_def take_copies_def take_bool_def take_inset_def
      check_borderless_def luna print_params_init_def)
  note edit = edit_run(2) [OF ok parse(1) _ sample_busy_find sample_job_simps(1,2) this, of Bus_legacy]
  have rep: "replied Bus_legacy ?m (JObj put_ok) sample_busy (jobs_edit_params probe_env Bus_legacy ?m sample_busy)"
    using edit by (simp add: luna)
  have o: "luna_get_int ?o ''jobID'' = Some 1" "luna_get_string ?o ''mediaSize'' = None"
    "luna_get_bool ?o ''borderless'' = None" "luna_get_int ?l ''jobID'' = Some 1"
    "\<forall>key \<in> {''topInset'', ''leftInset'', ''rightInset'', ''bottomInset''}. luna_get_double ?l key = None"
    by (simp_all add: luna)
  from probe_foretells_edit [where h' = Bus_legacy, OF ok sample_inv(2) sample_busy_find sample_job_simps(2) parse(1)
      o(1-3) refl rep parse(2) o(4,5)]
  show ?thesis unfolding Let_def by blast
qed

section \<open>Pages and files\<close>

text \<open>A request that is refused with the code \<open>c\<close> and leaves every job as it was.\<close>

definition refused :: "bus \<Rightarrow> lsmessage \<Rightarrow> int \<Rightarrow> 'k print_service \<Rightarrow> 'k print_service \<Rightarrow> bool" where
  "refused h m c s t \<longleftrightarrow> replied h m (err_json c) s t \<and> find_job t = find_job s"

lemma check_path_result:
  "fst (check_path E path w) =
     (if os_stat E w path = None then Some PM_ERR_FILE_DOES_NOT_EXIST
      else if os_stat E w path = Some 0 then Some PM_ERR_FILE_ZERO_LENGTH
      else if fst (cups_backend_detect_format E path (w @ [Stat path])) = None then Some PM_ERR_UNSUPPORTED_MIME_TYPE
      else None)"
  by (auto simp: check_path_def Let_def split: option.split prod.split)

text \<open>
  C16: \<open>addFile\<close> on an open job refuses a file that does not exist with -604, an empty one with -601, one
  in no printable format with -618 and, for a printable one, a page number that is not the next one
  with -615, and leaves every job as it was. In every other case it appends exactly this path as the
  job's last page, notes the page number and the number of pages that were given, and leaves the
  rest of the job and every other job as they were.
\<close>

theorem add_file_outcomes:
  assumes "env_ok E" "svc_inv s" "parse E m = Some parsed"
    and "luna_get_int parsed ''jobID'' = Some k" "luna_get_string parsed ''pathName'' = Some path"
    and "find_job s k = Some job" "phase job = JOB_PHASE_OPEN" "t = jobs_add_file E h m s"
  shows "if os_stat E (svc_world s) path = None then refused h m PM_ERR_FILE_DOES_NOT_EXIST s t
    else if os_stat E (svc_world s) path = Some 0 then refused h m PM_ERR_FILE_ZERO_LENGTH s t
    else if fst (cups_backend_detect_format E path (svc_world s @ [Stat path])) = None
    then refused h m PM_ERR_UNSUPPORTED_MIME_TYPE s t
    else if luna_get_int parsed ''currentPage'' \<notin> {None, Some (int (length (files job)) + 1)}
    then refused h m PM_ERR_OUT_OF_ORDER_CURRENTPAGE s t
    else replied h m (JObj put_ok) s t \<and> find_job t = (find_job s)(k \<mapsto> job\<lparr>files := files job @ [path],
      current_page := given (luna_get_int parsed ''currentPage'') (current_page job),
      total_pages := given (luna_get_int parsed ''totalPages'') (total_pages job)\<rparr>)"
proof -
  obtain r s1 where c: "call (check_path E path) s = (r, s1)" by fastforce
  note st = check_path_steady(1) [OF c]
  have id: "job_id job = k" by (rule find_job_id [OF assms(2,6)])
  have rep: "replies (svc_world s1) = replies (svc_world s)" using st by (simp add: steady_def)
  have post_replies: "replies (svc_world (post_page_info E j x n u)) = replies (svc_world u)"
    "find_job (post_page_info E j x n u) = find_job u" for j x n and u :: "'a print_service"
    using post_page_steady [of u E j x n] steady_find [OF post_page_steady] by (simp_all add: steady_def)
  have find: "find_job (s1\<lparr>svc_world := w\<rparr>) = find_job s" for w
    using steady_find [OF st] by (simp add: find_job_def fun_eq_iff)
  have r: "r = fst (check_path E path (svc_world s))" using c by (auto elim: callE)
  have err: "refused h m e s (reply_err E h m e s1)" for e
    by (simp add: refused_def reply_eqs [OF assms(1)] replied_def rep find)
  show ?thesis
  proof (cases r)
    case (Some e)
    then have "t = reply_err E h m e s1"
      using assms(3-8) c by (simp add: jobs_add_file_def Let_def)
    then show ?thesis
      using Some err unfolding r check_path_result by (simp split: if_splits)
  next
    case None
    then have ok: "os_stat E (svc_world s) path \<noteq> None" "os_stat E (svc_world s) path \<noteq> Some 0"
      "fst (cups_backend_detect_format E path (svc_world s @ [Stat path])) \<noteq> None"
      unfolding r check_path_result by (simp_all split: if_splits)
    show ?thesis
    proof (cases "luna_get_int parsed ''currentPage'' \<in> {None, Some (int (length (files job)) + 1)}")
      case False
      then have "t = reply_err E h m PM_ERR_OUT_OF_ORDER_CURRENTPAGE s1"
        using assms(3-8) c None by (auto simp: jobs_add_file_def Let_def)
      then show ?thesis
        unfolding if_not_P [OF ok(1)] if_not_P [OF ok(2)] if_not_P [OF ok(3)] using False err by simp
    next
      case True
      let ?j = "job\<lparr>files := files job @ [path],
        current_page := given (luna_get_int parsed ''currentPage'') (current_page job),
        total_pages := given (luna_get_int parsed ''totalPages'') (total_pages job)\<rparr>"
      have t: "t = reply_success h m (post_page_info E ?j ''PAGESTARTINFO'' (int (length (files ?j))) (put_job ?j s1))"
        using assms(3-8) c None True
        by (cases job) (auto simp: jobs_add_file_def Let_def given_def split: option.splits)
      have "find_job t = (find_job s)(k \<mapsto> ?j)"
        using steady_find [OF st] id post_replies(2) unfolding t reply_eqs [OF assms(1)]
        by (auto simp: fun_eq_iff find_job_def put_job_def)
      moreover have "replied h m (JObj put_ok) s t"
        using rep unfolding t reply_eqs [OF assms(1)] by (simp add: replied_def post_replies put_job_def)
      ultimately show ?thesis
        unfolding if_not_P [OF ok(1)] if_not_P [OF ok(2)] if_not_P [OF ok(3)] using True by simp
    qed
  qed
qed

lemma page_request: "luna_get_string (JObj ((''jobID'', JInt 1) # [(''pathName'', JStr ''a'')])) ''pathName'' = Some ''a''"
  by (simp add: luna_get_string_def c_string_def)

theorem add_file_outcomes_witness:
  "\<exists>j. find_job (jobs_add_file (job_request [(''pathName'', JStr ''a'')]) Bus_legacy sample_message sample_busy) 1 = Some j
     \<and> files j = [''a'']"
proof -
  let ?E = "job_request [(''pathName'', JStr ''a'')]" and ?o = "JObj ((''jobID'', JInt 1) # [(''pathName'', JStr ''a'')])"
  have "os_stat ?E w p = Some 8" "fst (cups_backend_detect_format ?E p w) = Some ''application/pdf''" for p w
    by (simp_all add: job_request_def sample_env_with_def sample_env_def cups_backend_detect_format_def
        sniff_def fread_def readable_def)
  moreover have "luna_get_int ?o ''currentPage'' = None" by (simp add: luna_get_int_def)
  moreover have "phase sample_job = JOB_PHASE_OPEN" by simp
  ultimately show ?thesis
    using add_file_outcomes [where h = Bus_legacy and m = sample_message, OF job_request_simps(1) sample_inv(2)
      job_request_simps(2,3) page_request sample_busy_find _ refl] by simp
qed

lemma resize_others:
  assumes "\<forall>l \<in> set ks. \<exists>j. find_job s l = Some j \<and> path \<notin> set (temp_files j)"
  shows "resize_loop E (ks @ ls) path n e s = resize_loop E ls path n (if ks = [] then e else PM_ERR_FILE_NOT_IN_ANY_JOB) s"
  using assms
  by (induction ks arbitrary: e) (auto simp: call_def job_manager_resize_temp_file_def)

text \<open>
  C36: \<open>resizeTempFile\<close> asks the jobs in turn: when the owner of the file cannot resize it, the client is
  told so with -616 only if no job comes after the owner. Otherwise the search goes on, the reason is
  lost, and the client is told with -620 that the file is in no job. No job changes.
\<close>

theorem resize_reason_lost:
  assumes "env_ok E" "svc_inv s" "parse E m = Some parsed" "luna_get_string parsed ''pathName'' = Some path"
    and "luna_get_int parsed ''newSize'' = Some n" "find_job s k = Some job" "path \<in> set (temp_files job)"
    and "job_manager_list E (svc_jobs s) = pre @ k # rest" "k \<notin> set (pre @ rest)"
    and "\<not> os_truncate E (svc_world s) path n" "t = jobs_resize_temp_file E h m s"
  shows "replied h m (err_json (if rest = [] then PM_ERR_TEMP_FILE_TOO_LARGE else PM_ERR_FILE_NOT_IN_ANY_JOB)) s t \<and>
    find_job t = find_job s"
proof -
  let ?s1 = "s\<lparr>svc_world := svc_world s @ [Truncate path n]\<rparr>"
  have jm: "jm_inv (svc_jobs s)" using assms(2) by (simp add: svc_inv_def)
  have others: "\<exists>j. find_job s l = Some j \<and> path \<notin> set (temp_files j)" if "l \<in> set (pre @ rest)" for l
  proof -
    have "l \<in> set (job_manager_list E (svc_jobs s))" using that assms(8) by auto
    then obtain j where j: "find_job s l = Some j"
      by (auto simp: job_manager_list_def env_okD(3) [OF assms(1)] find_job_def job_manager_find_def
          dest!: weak_map_of_SomeI)
    then show ?thesis
      using temp_file_owner_unique [OF jm, of k job l j path] assms(6,7,9) that by (auto simp: find_job_def)
  qed
  have later: "\<forall>l \<in> set rest. \<exists>j. find_job ?s1 l = Some j \<and> path \<notin> set (temp_files j)"
    using others by (simp add: find_job_def)
  have "resize_loop E (pre @ k # rest) path n PM_ERR_FILE_NOT_IN_ANY_JOB s =
      resize_loop E (k # rest) path n PM_ERR_FILE_NOT_IN_ANY_JOB s"
    using resize_others [of pre s path E "k # rest"] others by simp
  also have "\<dots> = resize_loop E rest path n PM_ERR_TEMP_FILE_TOO_LARGE ?s1"
    using assms(6,7,10) by (simp add: call_def job_manager_resize_temp_file_def)
  also have "\<dots> = (Inl (if rest = [] then PM_ERR_TEMP_FILE_TOO_LARGE else PM_ERR_FILE_NOT_IN_ANY_JOB), ?s1)"
    using resize_others [OF later, of E "[]"] by simp
  finally have "t = reply_err E h m (if rest = [] then PM_ERR_TEMP_FILE_TOO_LARGE else PM_ERR_FILE_NOT_IN_ANY_JOB) ?s1"
    using assms(3-5,8,11) by (simp add: jobs_resize_temp_file_def)
  then show ?thesis
    by (simp add: reply_eqs [OF assms(1)] replied_def find_job_def fun_eq_iff replies_def is_reply_def)
qed

definition sample_owner :: "sample_store print_service" where
  "sample_owner = sample_service\<lparr>svc_jobs := jm_put (jm_put (sample_jm\<lparr>next_job_id := 3\<rparr>)
     (sample_job\<lparr>temp_files := [page_path (job_dir ''spool'' 1) 1 ''pdf''], temp_dir := Some (job_dir ''spool'' 1)\<rparr>))
     (sample_job\<lparr>job_id := 2, temp_dir := None\<rparr>)\<rparr>"

lemma sample_owner_inv: "svc_inv sample_owner"
  by (auto simp: sample_owner_def svc_inv_def find_job_def jm_inv_def sample_service_def sample_jm_def jm_put_def
      job_manager_find_def job_ok_def sample_job_def fresh_job_def job_wf_def)

definition full_disk :: "sample_store env" where
  "full_disk = (sample_env_with [(''pathName'', JStr (page_path (job_dir ''spool'' 1) 1 ''pdf'')), (''newSize'', JInt 5)])
     \<lparr>os_truncate := (\<lambda>w p n. False)\<rparr>"

theorem resize_reason_lost_witness:
  "replied Bus_legacy sample_message (err_json PM_ERR_FILE_NOT_IN_ANY_JOB) sample_owner
    (jobs_resize_temp_file full_disk Bus_legacy sample_message sample_owner)"
proof -
  let ?path = "page_path (job_dir ''spool'' 1) 1 ''pdf''"
  let ?o = "JObj [(''pathName'', JStr ?path), (''newSize'', JInt 5)]"
  have ok: "env_ok full_disk" by (simp add: full_disk_def env_ok_def sample_env_with_def sample_env_def)
  have parse: "parse full_disk sample_message = Some ?o"
    by (simp add: full_disk_def parse_def luna_service_message_parse_and_validate_def sample_env_with_def sample_env_def)
  have "c_string ?path = ?path" by code_simp
  then have luna: "luna_get_string ?o ''pathName'' = Some ?path" "luna_get_int ?o ''newSize'' = Some 5"
    by (simp_all add: luna_get_string_def luna_get_int_def jis_number_def)
  have find: "find_job sample_owner 1 = Some (sample_job\<lparr>temp_files := [?path], temp_dir := Some (job_dir ''spool'' 1)\<rparr>)"
    by (simp add: sample_owner_def find_job_def)
  have list: "job_manager_list full_disk (svc_jobs sample_owner) = [] @ 1 # [2]"
    by (simp add: job_manager_list_def full_disk_def sample_env_with_def sample_env_def sample_owner_def jm_put_def
        sample_jm_def)
  have fails: "\<not> os_truncate full_disk w p n" for w p n by (simp add: full_disk_def)
  show ?thesis
    using resize_reason_lost [OF ok sample_owner_inv parse luna find _ list _ fails refl] by simp
qed

section \<open>Close, cancel and poll\<close>

lemma steady_replies: "steady s t \<Longrightarrow> replies (svc_world t) = replies (svc_world s)"
  by (simp add: steady_def)

lemma post_find [simp]:
  "find_job (post_job_state E j x js bs u) = find_job u"
  "replies (svc_world (post_job_state E j x js bs u)) = replies (svc_world u)"
  using steady_find [OF post_state_steady] post_state_steady [of u E j x js bs] by (simp_all add: steady_def)

lemma world_find [simp]: "find_job (u\<lparr>svc_world := w\<rparr>) = find_job u"
  by (simp add: find_job_def fun_eq_iff)

lemma polling_find [simp]:
  "find_job (ensure_polling E u) = find_job u" "replies (svc_world (ensure_polling E u)) = replies (svc_world u)"
  by (simp_all add: ensure_polling_def find_job_def fun_eq_iff replies_def is_reply_def)



definition state_post :: "print_job \<Rightarrow> string \<Rightarrow> string option \<Rightarrow> string list \<Rightarrow> int \<Rightarrow> io" where
  "state_post job st js bs now = Post Bus_legacy CAT_JOBS METHOD_GET_STATUS (job_state_json job st js bs now)"

lemma state_posted:
  assumes "env_ok E"
  shows "\<exists>now. posts (svc_world (post_job_state E job st js bs u)) = posts (svc_world u) @ [state_post job st js bs now]"
  using env_okD(1) [OF assms]
  by (auto simp: post_job_state_def Let_def post_def on_world_def get_time_def state_post_def posts_Cons
      luna_service_post_subscription_def is_post_def)

lemma call_posts:
  assumes "call f s = (r, t)" "\<And>v. f (svc_world s) = (r, v) \<Longrightarrow> extends quiet (svc_world s) v"
  shows "posts (svc_world t) = posts (svc_world s)"
  using assms(1) by (rule callE) (simp add: quiet_posts [OF assms(2)])

lemma put_find: "find_job (put_job j u) = (find_job u)(job_id j \<mapsto> j)"
  by (auto simp: fun_eq_iff)

text \<open>The calls of libcups in a history.\<close>

definition is_cups :: "io \<Rightarrow> bool" where
  "is_cups e = (case e of Cups_get_dests \<Rightarrow> True | Cups_get_named_dest _ \<Rightarrow> True | Cups_connect_dest _ \<Rightarrow> True
     | Cups_copy_dest_info _ _ \<Rightarrow> True | Cups_find_supported _ _ _ \<Rightarrow> True | Cups_check_supported _ _ _ _ \<Rightarrow> True
     | Http_close _ \<Rightarrow> True | Cups_create_job _ _ _ \<Rightarrow> True | Cups_start_document _ _ _ _ _ \<Rightarrow> True
     | Cups_write_data _ \<Rightarrow> True | Cups_finish_document _ \<Rightarrow> True | Cups_cancel_job _ _ \<Rightarrow> True
     | Cups_get_jobs _ _ \<Rightarrow> True | Cups_do_request _ _ _ \<Rightarrow> True | _ \<Rightarrow> False)"

definition cups_calls :: "world \<Rightarrow> io list" where
  "cups_calls w = filter is_cups w"

lemma cups_calls_append [simp]: "cups_calls (u @ v) = cups_calls u @ cups_calls v"
  by (simp add: cups_calls_def)

lemma state_no_calls: "cups_calls (svc_world (post_job_state E job st js bs u)) = cups_calls (svc_world u)"
  by (simp add: post_job_state_def Let_def post_def on_world_def get_time_def cups_calls_def is_cups_def
      luna_service_post_subscription_def)

text \<open>
  C20: \<open>cancel\<close> makes one call of CUPS, to cancel the job's CUPS job, when the job is submitted, and none
  otherwise. If CUPS refuses, the client is told and the
  job stays as it is; otherwise the job is cancelled and the subscribers get the final state DONE with
  the outcome Cancelled, once. A job that was over already is cancelled in the same way.
\<close>

theorem cancel_outcomes:
  assumes "env_ok E" "svc_inv s" "parse E m = Some parsed" "luna_get_int parsed ''jobID'' = Some k"
    and "find_job s k = Some job" "t = jobs_cancel E h m s"
  shows "cups_calls (svc_world t) = cups_calls (svc_world s) @
      (if phase job = JOB_PHASE_SUBMITTED then [Cups_cancel_job (job_printer_id job) (cups_job_id job)] else [])
   \<and> ((phase job = JOB_PHASE_SUBMITTED \<and> \<not> cups_cancel_job E (svc_world s) (job_printer_id job) (cups_job_id job)
      \<and> replied h m (err_json PM_ERR_JOB_CANCEL_FAILED) s t \<and> find_job t = find_job s
      \<and> posts (svc_world t) = posts (svc_world s))
    \<or> ((phase job = JOB_PHASE_SUBMITTED \<longrightarrow> cups_cancel_job E (svc_world s) (job_printer_id job) (cups_job_id job))
      \<and> replied h m (JObj put_ok) s t \<and> find_job t = (find_job s)(k \<mapsto> job\<lparr>phase := JOB_PHASE_CANCELLED\<rparr>)
      \<and> (\<exists>now. posts (svc_world t) = posts (svc_world s) @
            [state_post (job\<lparr>phase := JOB_PHASE_CANCELLED\<rparr>) ''DONE'' (Some ''Cancelled'') [] now])))"
proof -
  note eq = assms(6) [unfolded jobs_cancel_def with_job_found [OF assms(3-5)]]
  have id: "job_id job = k" by (rule find_job_id [OF assms(2,5)])
  have num: "phase job = JOB_PHASE_SUBMITTED \<Longrightarrow> 0 < cups_job_id job"
    using assms(2,5) by (auto simp: svc_inv_def job_ok_def)
  let ?j = "job\<lparr>phase := JOB_PHASE_CANCELLED\<rparr>"
  let ?w = "if phase job = JOB_PHASE_SUBMITTED
    then svc_world s @ [Cups_cancel_job (job_printer_id job) (cups_job_id job)] else svc_world s"
  let ?ok = "phase job = JOB_PHASE_SUBMITTED \<longrightarrow> cups_cancel_job E (svc_world s) (job_printer_id job) (cups_job_id job)"
  have asked: "(if phase job = JOB_PHASE_SUBMITTED \<and> 0 < cups_job_id job
              then call (cups_backend_cancel E (job_printer_id job) (cups_job_id job)) s
              else (True, s)) = (?ok, s\<lparr>svc_world := ?w\<rparr>)"
    using num by (auto simp: call_def cups_backend_cancel_def)
  have w: "replies ?w = replies (svc_world s)" "posts ?w = posts (svc_world s)"
    "cups_calls ?w = cups_calls (svc_world s) @
      (if phase job = JOB_PHASE_SUBMITTED then [Cups_cancel_job (job_printer_id job) (cups_job_id job)] else [])"
    by (simp_all add: is_reply_def is_post_def cups_calls_def is_cups_def)
  have replied: "cups_calls [Reply h m r] = []" for r
    by (simp add: cups_calls_def is_cups_def)
  show ?thesis
  proof (cases ?ok)
    case False
    then have "t = reply_err E h m PM_ERR_JOB_CANCEL_FAILED (s\<lparr>svc_world := ?w\<rparr>)"
      using eq unfolding asked by simp
    then show ?thesis
      using False w(3) by (auto simp: reply_eqs [OF assms(1)] replied_def replies_def posts_def is_reply_def is_post_def
          cups_calls_def is_cups_def)
  next
    case True
    then have t: "t = reply_success h m (post_job_state E ?j ''DONE'' (Some ''Cancelled'') []
        (put_job ?j (s\<lparr>svc_world := ?w\<rparr>)))"
      using eq unfolding asked prod.case Let_def by simp
    obtain now where now: "posts (svc_world (post_job_state E ?j ''DONE'' (Some ''Cancelled'') []
        (put_job ?j (s\<lparr>svc_world := ?w\<rparr>)))) = posts ?w @ [state_post ?j ''DONE'' (Some ''Cancelled'') [] now]"
      using state_posted [OF assms(1), of ?j "''DONE''" "Some ''Cancelled''" "[]" "put_job ?j (s\<lparr>svc_world := ?w\<rparr>)"]
      by auto
    show ?thesis
      using True id now w unfolding t
      by (intro conjI disjI2 exI [of _ now])
        (simp_all add: reply_eqs [OF assms(1)] replied_def put_find replied state_no_calls)
  qed
qed

theorem cancel_outcomes_witness:
  "find_job (jobs_cancel (job_request []) Bus_legacy sample_message sample_busy) 1
     = Some (sample_job\<lparr>phase := JOB_PHASE_CANCELLED\<rparr>)"
proof -
  let ?t = "jobs_cancel (job_request []) Bus_legacy sample_message sample_busy"
  from cancel_outcomes [where h = Bus_legacy and m = sample_message, OF job_request_simps(1) sample_inv(2)
      job_request_simps(2,3) sample_busy_find refl, of "[]"]
  have "find_job ?t = (find_job sample_busy)(1 \<mapsto> sample_job\<lparr>phase := JOB_PHASE_CANCELLED\<rparr>)" by auto
  then show ?thesis by simp
qed

text \<open>
  C7: One poll of a submitted job: a job CUPS no longer has is done, with the outcome Success; a state
  the subscribers have been told already changes nothing and posts nothing; any other state is
  posted exactly once, and the job is done exactly when that state is final.
\<close>

theorem poll_job_outcomes:
  assumes "env_ok E" "find_job s k = Some job" "job_id job = k" "phase job = JOB_PHASE_SUBMITTED"
    and "t = poll_job E job s"
  shows "case fst (cups_backend_get_job_state E (job_printer_id job) (cups_job_id job) (svc_world s)) of
      None \<Rightarrow> find_job t = (find_job s)(k \<mapsto> job\<lparr>phase := JOB_PHASE_DONE\<rparr>) \<and>
        (\<exists>now. posts (svc_world t) = posts (svc_world s) @
           [state_post (job\<lparr>phase := JOB_PHASE_DONE\<rparr>) ''DONE'' (Some ''Success'') [] now])
    | Some st \<Rightarrow> (let (ps, js) = pm_jobstate_ipp_to_webos (js_ipp_state st) in
        if last_printer_state job = Some ps
        then find_job t = find_job s \<and> posts (svc_world t) = posts (svc_world s)
        else \<exists>i j now. find_job t = (find_job s)(k \<mapsto> j) \<and> last_printer_state j = Some ps \<and>
          phase j = (if ps = ''DONE'' then JOB_PHASE_DONE else JOB_PHASE_SUBMITTED) \<and> job_id i = k \<and>
          posts (svc_world t) = posts (svc_world s) @ [state_post i ps js (blocked_reasons st) now])"
proof -
  have state: "find_job u = find_job s" "posts (svc_world u) = posts (svc_world s)"
    "fst (cups_backend_get_job_state E (job_printer_id job) (cups_job_id job) (svc_world s)) = st"
    if "call (cups_backend_get_job_state E (job_printer_id job) (cups_job_id job)) s = (st, u)" for st u
    using steady_find [OF backend_steady(5) [OF that]] call_posts [OF that job_state_quiet] that
    by (auto elim: callE)
  show ?thesis
    using assms(5)
  proof (cases rule: poll_job_cases)
    case (gone s1)
    let ?j = "job\<lparr>phase := JOB_PHASE_DONE\<rparr>"
    show ?thesis
      using state_posted [OF assms(1), of ?j "''DONE''" "Some ''Success''" "[]" "put_job ?j s1"] assms(3)
      by (simp add: state [OF gone(1)] gone(2) put_find)
  next
    case (known x ps js)
    then show ?thesis by (simp add: state [OF known(1)])
  next
    case (posted x ps js s1 s2 i)
    have i: "job_id i = k" "phase i = JOB_PHASE_SUBMITTED" "find_job s2 = find_job s1"
      "posts (svc_world s2) = posts (svc_world s1)"
      using posted(4) assms(3,4) by (auto simp: get_time_def on_world_def posts_def is_post_def)
    obtain now where "posts (svc_world t) = posts (svc_world s) @ [state_post i ps js (blocked_reasons x) now]"
      using state_posted [OF assms(1), of i ps js "blocked_reasons x" s2]
      by (auto simp: posted(5) i(4) state(2) [OF posted(1)])
    moreover have "find_job t = (find_job s)(k \<mapsto> told ps i)"
      by (simp add: posted(5) put_find i told_def state(1) [OF posted(1)])
    moreover have "last_printer_state (told ps i) = Some ps"
      "phase (told ps i) = (if ps = ''DONE'' then JOB_PHASE_DONE else JOB_PHASE_SUBMITTED)"
      using i(2) by (simp_all add: told_def)
    ultimately have "\<exists>i j now. find_job t = (find_job s)(k \<mapsto> j) \<and> last_printer_state j = Some ps \<and>
          phase j = (if ps = ''DONE'' then JOB_PHASE_DONE else JOB_PHASE_SUBMITTED) \<and> job_id i = k \<and>
          posts (svc_world t) = posts (svc_world s) @ [state_post i ps js (blocked_reasons x) now]"
      using i(1) by blast
    then show ?thesis
      unfolding state(3) [OF posted(1)] option.case posted(2) Let_def prod.case if_not_P [OF posted(3)] .
  qed
qed

theorem poll_job_outcomes_witness:
  "find_job (poll_job sample_env (sample_job\<lparr>phase := JOB_PHASE_SUBMITTED\<rparr>)
      (put_job (sample_job\<lparr>phase := JOB_PHASE_SUBMITTED\<rparr>) sample_service)) 1 = Some (sample_job\<lparr>phase := JOB_PHASE_DONE\<rparr>)"
proof -
  let ?j = "sample_job\<lparr>phase := JOB_PHASE_SUBMITTED\<rparr>"
  have none: "fst (cups_backend_get_job_state sample_env p n w) = None" for p n w
    by (simp add: cups_backend_get_job_state_def sample_env_def)
  have ok: "env_ok sample_env" by simp
  show ?thesis
    using poll_job_outcomes [of sample_env "put_job ?j sample_service" 1 ?j, OF ok _ _ _ refl]
    by (simp add: none)
qed

section \<open>allAtOnce\<close>

lemma add_paths_result:
  assumes "add_paths E items job s = (r, t)" "job_id job = k"
  shows "(\<forall>l. l \<noteq> k \<longrightarrow> find_job t l = find_job s l) \<and>
    (\<forall>job1. r = Inr job1 \<longrightarrow> (\<exists>bufs. items = map JStr bufs \<and> files job1 = files job @ map c_string bufs))"
  using assms
proof (induction items arbitrary: job s)
  case (Cons item items)
  show ?case
  proof (cases item)
    case (JStr buf)
    obtain r1 s1 where c: "call (check_path E (c_string buf)) s = (r1, s1)" by fastforce
    note find = steady_find [OF check_path_steady(1) [OF c]]
    show ?thesis
    proof (cases r1)
      case (Some e)
      then show ?thesis using Cons.prems JStr c find by (auto simp: Let_def)
    next
      case None
      let ?j = "job\<lparr>files := files job @ [c_string buf]\<rparr>"
      have rest: "add_paths E items ?j (put_job ?j s1) = (r, t)"
        using Cons.prems(1) JStr c None by (simp add: Let_def)
      from Cons.IH [OF rest] Cons.prems(2)
      have others: "\<forall>l. l \<noteq> k \<longrightarrow> find_job t l = find_job s l"
        and paths: "\<forall>job1. r = Inr job1 \<longrightarrow>
          (\<exists>bufs. items = map JStr bufs \<and> files job1 = files ?j @ map c_string bufs)"
        by (simp_all add: find)
      have "\<exists>bufs. item # items = map JStr bufs \<and> files job1 = files job @ map c_string bufs"
        if r: "r = Inr job1" for job1
      proof -
        obtain bufs where "items = map JStr bufs" "files job1 = files ?j @ map c_string bufs"
          using paths r by blast
        then show ?thesis using JStr by (intro exI [of _ "buf # bufs"]) simp
      qed
      then show ?thesis using others by blast
    qed
  qed (use Cons.prems in auto)
qed auto

lemma open_others:
  assumes "open_job E pid desc app s = (job, t)" "svc_inv s" "ids_left (svc_jobs s)"
  shows "find_job t = (find_job s)(job_id job \<mapsto> job)" "files job = []"
    "find_job s (job_id job) = None" "job_id job = next_job_id (svc_jobs s)"
proof -
  have jm: "jm_inv (svc_jobs s)" using assms(2) by (simp add: svc_inv_def)
  have *: "job = fresh_job E (svc_jobs s) pid desc app (svc_world s)"
    "svc_jobs t = jm_put ((svc_jobs s)\<lparr>next_job_id := next_job_id (svc_jobs s) + 1\<rparr>) job"
    using assms(1) unfolding open_job_def open_eq [OF jm assms(3)] by auto
  then show "find_job t = (find_job s)(job_id job \<mapsto> job)" "files job = []"
    "find_job s (job_id job) = None" "job_id job = next_job_id (svc_jobs s)"
    using store.fresh [OF jm order_refl] by (auto simp: fun_eq_iff find_job_def)
qed

lemma remove_find: "find_job (remove_job k s) = (find_job s)(k := None)"
  by (auto simp: fun_eq_iff find_job_def remove_job_def remove_eq)

lemma remove_replies: "replies (svc_world (remove_job k s)) = replies (svc_world s)"
  using quiet_replies [OF remove_quiet [of "svc_world s" "svc_jobs s" k]]
  by (simp add: remove_job_def split_beta)

lemma all_at_once_run_outcomes:
  assumes "env_ok E" "svc_inv s" "ids_left (svc_jobs s)" "t = all_at_once_run E h m parsed paths pid desc app s"
  shows "(\<exists>c. known_error c \<and> replied h m (err_json c) s t \<and> find_job t = find_job s)
    \<or> (\<exists>j bufs. replied h m (JObj (put_ok @ [(''jobID'', JInt (next_job_id (svc_jobs s)))])) s t
        \<and> find_job s (next_job_id (svc_jobs s)) = None
        \<and> find_job t = (find_job s)(next_job_id (svc_jobs s) \<mapsto> j) \<and> phase j = JOB_PHASE_SUBMITTED
        \<and> paths = map JStr bufs \<and> files j = map c_string bufs)"
proof -
  obtain job0 s0 where o0: "open_job E pid desc app s = (job0, s0)" by fastforce
  note op = open_others [OF o0 assms(2,3)]
  have inv0: "svc_inv s0" "replies (svc_world s0) = replies (svc_world s)"
    using open_silent(1) [OF o0 assms(3)] assms(2) by (simp_all add: silent_def)
  let ?k = "next_job_id (svc_jobs s)"
  define job where "job = (case luna_get_bool parsed ''autoScale'' of None \<Rightarrow> job0
            | Some b \<Rightarrow> job0\<lparr>params := (params job0)\<lparr>auto_scale := b\<rparr>\<rparr>)"
  have job: "job_id job = ?k" "files job = []" "phase job = JOB_PHASE_OPEN"
    using op(2,4) open_silent(4) [OF o0 assms(3,2)] by (simp_all add: job_def split: option.splits)
  obtain r s1 where a: "add_paths E paths job (put_job job s0) = (r, s1)" by fastforce
  have find_put0: "find_job (put_job job s0) ?k = Some job" by (simp add: job(1))
  note ap = add_paths_result [OF a job(1)] add_paths_silent [OF a find_put0 job(1) job(3)]
  have sil: "silent (put_job job s0) s1" using ap(2) by blast
  have inv1: "svc_inv (put_job job s0)"
  proof -
    have "job_step job0 job"
      using job_step_params [of job0] open_silent(4) [OF o0 assms(3,2)] by (auto simp: job_def split: option.splits)
    then have "silent s0 (put_job job s0)"
      using job op(1,4) by (intro silent_put [of _ _ job0]) (auto simp: job(1))
    then show ?thesis using inv0 by (simp add: silent_def)
  qed
  have rep1: "replies (svc_world s1) = replies (svc_world s)"
    using sil inv1 inv0(2) by (simp add: silent_def)
  have others1: "find_job s1 l = find_job s l" if "l \<noteq> ?k" for l
    using ap(1) that op(1,4) job(1) by simp
  show ?thesis
  proof (cases r)
    case (Inl e)
    have known: "known_error e" using ap(2) Inl by simp
    have "t = reply_err E h m e (remove_job ?k s1)"
      using o0 a Inl assms(4) job(1) by (simp add: all_at_once_run_def Let_def job_def [symmetric])
    then show ?thesis
      using known others1 op(3,4) rep1
      by (intro disjI1 exI [of _ e])
        (auto simp: reply_eqs [OF assms(1)] replied_def remove_find remove_replies fun_eq_iff)
  next
    case (Inr job1)
    let ?j = "job1\<lparr>total_pages := int (length paths)\<rparr>"
    have job1: "job_id job1 = ?k"
      using ap(2) Inr by simp
    obtain bufs where bufs: "paths = map JStr bufs" "files job1 = map c_string bufs"
      using ap(1) Inr job(2) by auto
    obtain r2 s2 where sub: "submit_job E ?j (put_job ?j s1) = (r2, s2)" by fastforce
    have jid: "job_id ?j = ?k" using job1 by simp
    have t0: "t = (case r2 of Inl err \<Rightarrow> reply_err E h m err (remove_job (job_id ?j)
           (post_job_state E ?j ''DONE'' (Some ''Error'') [] s2))
       | Inr _ \<Rightarrow> send_reply E h m (JObj (put_ok @ [(''jobID'', JInt (job_id ?j))])) s2)"
      using o0 a Inr sub assms(4) by (simp add: all_at_once_run_def Let_def job_def [symmetric])
    note t = t0 [unfolded jid]
    from sub show ?thesis
    proof (cases rule: submit_job_cases)
      case (failed e)
      have s2: "find_job s2 = find_job (put_job ?j s1)" "replies (svc_world s2) = replies (svc_world s1)"
        using steady_find [OF failed(3)] steady_replies [OF failed(3)] by simp_all
      show ?thesis
        using failed(1,2) others1 op(3,4) rep1 job1 s2 unfolding t
        by (intro disjI1 exI [of _ e])
          (auto simp: reply_eqs [OF assms(1)] replied_def remove_find remove_replies fun_eq_iff)
    next
      case (queued n job2 u)
      have u: "find_job u = find_job (put_job ?j s1)" "replies (svc_world u) = replies (svc_world s1)"
        using steady_find [OF queued(4)] steady_replies [OF queued(4)] by simp_all
      let ?j2 = "job2\<lparr>last_printer_state := Some ''QUEUED''\<rparr>"
      have j2: "job_id ?j2 = ?k" "phase ?j2 = JOB_PHASE_SUBMITTED" "files ?j2 = map c_string bufs"
        using queued(5) job1 bufs(2) by auto
      have find: "find_job t = (find_job s)(?k \<mapsto> ?j2)"
        using queued(1) others1 j2(1) job1 unfolding t queued(6)
        by (auto simp: reply_eqs [OF assms(1)] fun_eq_iff u)
      have "replied h m (JObj (put_ok @ [(''jobID'', JInt ?k)])) s t"
        using queued(1) rep1 unfolding t queued(6) by (simp add: reply_eqs [OF assms(1)] replied_def u)
      then show ?thesis
        using find op(3,4) j2 bufs(1) by (intro disjI2 exI [of _ ?j2] exI [of _ bufs]) simp
    qed
  qed
qed

text \<open>
  C5: \<open>allAtOnce\<close> is all or nothing: either it is refused with a documented error and the jobs are
  exactly those there were before, or there is one new job, under the number it replies with, that
  was submitted with all the given paths in their order, and every other job is as it was. (As long
  as the counter of jobs does not overflow.)
\<close>

theorem all_at_once_atomic:
  assumes "env_ok E" "svc_inv s" "ids_left (svc_jobs s)" "parse E m = Some parsed" "path_array parsed = Some paths"
    and "t = jobs_all_at_once E h m s"
  shows "(\<exists>c. known_error c \<and> replied h m (err_json c) s t \<and> find_job t = find_job s)
    \<or> (\<exists>j bufs. replied h m (JObj (put_ok @ [(''jobID'', JInt (next_job_id (svc_jobs s)))])) s t
        \<and> find_job s (next_job_id (svc_jobs s)) = None
        \<and> find_job t = (find_job s)(next_job_id (svc_jobs s) \<mapsto> j) \<and> phase j = JOB_PHASE_SUBMITTED
        \<and> paths = map JStr bufs \<and> files j = map c_string bufs)"
proof -
  have refused: "known_error c \<Longrightarrow> t = reply_err E h m c s \<Longrightarrow> ?thesis" for c
    by (intro disjI1 exI [of _ c]) (simp add: reply_eqs [OF assms(1)] replied_def)
  show ?thesis
  proof (cases "\<exists>pid desc app. t = all_at_once_run E h m parsed paths pid desc app s")
    case True
    then obtain pid desc app where "t = all_at_once_run E h m parsed paths pid desc app s" by blast
    from all_at_once_run_outcomes [OF assms(1-3) this] show ?thesis .
  next
    case False
    then have "t = reply_err E h m PM_ERR_BAD_PARAM_SYNTAX s \<or> t = reply_err E h m PM_ERR_NO_FILES_TO_PRINT s"
      using assms(6) by (auto simp: jobs_all_at_once_def assms(4,5) split: option.splits if_splits)
    then show ?thesis
    proof
      assume t: "t = reply_err E h m PM_ERR_BAD_PARAM_SYNTAX s"
      show ?thesis by (rule refused [OF _ t]) simp
    next
      assume t: "t = reply_err E h m PM_ERR_NO_FILES_TO_PRINT s"
      show ?thesis by (rule refused [OF _ t]) simp
    qed
  qed
qed

definition sample_print_request :: "sample_store env" where
  "sample_print_request = sample_env_with [(''printerID'', JStr ''Office''), (''description'', JStr ''d''),
     (''appName'', JStr ''a''), (''pathNames'', JArr [JStr ''a'', JStr ''b''])]"

theorem all_at_once_atomic_witness:
  "let t = jobs_all_at_once sample_print_request Bus_legacy sample_message sample_busy
   in find_job t = find_job sample_busy \<or> (\<exists>j. find_job t = (find_job sample_busy)(2 \<mapsto> j) \<and> files j = [''a'', ''b''])"
proof -
  let ?o = "JObj [(''printerID'', JStr ''Office''), (''description'', JStr ''d''),
     (''appName'', JStr ''a''), (''pathNames'', JArr [JStr ''a'', JStr ''b''])]"
  have ok: "env_ok sample_print_request" by (simp add: sample_print_request_def)
  have parsed: "parse sample_print_request sample_message = Some ?o"
    by (simp add: sample_print_request_def parse_def luna_service_message_parse_and_validate_def
        sample_env_with_def sample_env_def)
  have paths: "path_array ?o = Some (map JStr [''a'', ''b''])"
    by (simp add: path_array_def)
  have next_id: "next_job_id (svc_jobs sample_busy) = 2" by (simp add: sample_busy_def)
  have inj: "map JStr [''a'', ''b''] = map JStr bufs \<Longrightarrow> map c_string bufs = [''a'', ''b'']" for bufs
    by (auto simp: c_string_def Cons_eq_map_conv)
  show ?thesis
    using all_at_once_atomic [where h = Bus_legacy, OF ok sample_inv(2) sample_ids(2) parsed paths refl] inj
    unfolding next_id Let_def by metis
qed

end
