(* ===== verification/Main_Loop.thy ===== *)
theory Main_Loop
  imports Service_Run
begin

text \<open>
  \<open>src/main.c\<close>: the options, the signal descriptor, and the process around the service as a step
  relation, from the start to the exit code. The host answers the system calls of \<open>main\<close>, which
  are logged apart from the calls of the service.
\<close>

section \<open>Data\<close>

datatype main_event =
    Out string
  | Err string
  | Perror string
  | Daemon
  | Block_signals
  | Signal_fd
  | Watch_signals
  | Quit_timer nat
  | Unwatch nat

text \<open>
  \<open>opt_parse\<close> is what GLib makes of the command line: an error with its message, if it has one, or
  whether \<open>--nodetach\<close> and \<open>--version\<close> were given.
\<close>

record host =
  opt_parse :: "string list \<Rightarrow> string option + (bool \<times> bool)"
  os_daemon_ok :: bool
  os_sigprocmask_ok :: bool
  os_signalfd :: int
  io_add_watch :: nat

record main_options =
  option_detach :: bool
  option_version :: bool

record 'k process =
  proc_service :: "'k print_service option"
  proc_world :: world
  terminated :: nat
  quit_timers :: nat
  loop_running :: bool
  signal_source :: nat
  signal_watch :: bool
  proc_log :: "main_event list"

abbreviation VERSION :: string where "VERSION \<equiv> ''0.1''"
abbreviation SHUTDOWN_GRACE_SECONDS :: nat where "SHUTDOWN_GRACE_SECONDS \<equiv> 0"
abbreviation SIGINT :: int where "SIGINT \<equiv> 2"
abbreviation SIGTERM :: int where "SIGTERM \<equiv> 15"

section \<open>Options\<close>

definition initial_options :: main_options where
  "initial_options = \<lparr>option_detach = False, option_version = False\<rparr>"

text \<open>The entry \<open>nodetach\<close> has G_OPTION_FLAG_REVERSE: giving it stores FALSE.\<close>

definition apply_options :: "bool \<times> bool \<Rightarrow> main_options \<Rightarrow> main_options" where
  "apply_options given opts =
     (let opts1 = (if fst given then opts\<lparr>option_detach := False\<rparr> else opts)
      in if snd given then opts1\<lparr>option_version := True\<rparr> else opts1)"

section \<open>Signals\<close>

definition quit_eventloop :: "'k process \<Rightarrow> bool \<times> 'k process" where
  "quit_eventloop p = (False, p\<lparr>loop_running := False\<rparr>)"

text \<open>\<open>hangup\<close> is any of G_IO_NVAL, G_IO_ERR and G_IO_HUP; \<open>si\<close> the signal number, if it could be read.\<close>

definition signal_handler :: "bool \<Rightarrow> int option \<Rightarrow> 'k process \<Rightarrow> bool \<times> 'k process" where
  "signal_handler hangup si p =
     (if hangup then (False, p)
      else case si of
        None \<Rightarrow> (False, p)
      | Some signo \<Rightarrow>
          if signo = SIGINT \<or> signo = SIGTERM then
            let p1 = (if terminated p = 0
                      then p\<lparr>quit_timers := quit_timers p + 1,
                             proc_log := proc_log p @ [Out ''Terminating'', Quit_timer SHUTDOWN_GRACE_SECONDS]\<rparr>
                      else p)
            in (True, p1\<lparr>terminated := 1\<rparr>)
          else (True, p))"

definition setup_signalfd :: "host \<Rightarrow> main_event list \<Rightarrow> nat \<times> main_event list" where
  "setup_signalfd H l =
     (let l1 = l @ [Block_signals]
      in if \<not> os_sigprocmask_ok H then (0, l1 @ [Perror ''Failed to set signal mask''])
         else if os_signalfd H < 0
         then (0, l1 @ [Signal_fd, Perror ''Failed to create signal descriptor''])
         else (io_add_watch H, l1 @ [Signal_fd, Watch_signals]))"

section \<open>The program\<close>

text \<open>From the start to the main loop: an exit code, or a process whose loop is about to run.\<close>

definition main_start :: "host \<Rightarrow> 'k env \<Rightarrow> string list \<Rightarrow> (int \<times> main_event list) + 'k process" where
  "main_start H E argv =
     (case opt_parse H argv of
        Inl msg \<Rightarrow> Inl (1, [Err (case msg of None \<Rightarrow> ''An unknown error occurred'' | Some t \<Rightarrow> t)])
      | Inr given \<Rightarrow>
          let opts = apply_options given initial_options
          in if option_version opts then Inl (0, [Out VERSION])
             else if option_detach opts \<and> \<not> os_daemon_ok H
             then Inl (1, [Daemon, Perror ''Can't start daemon''])
             else
               let l = (if option_detach opts then [Daemon] else []) @ [Out (''LuneOS print adapter '' @ VERSION)];
                   (source, l1) = setup_signalfd H l;
                   (service, w) = print_service_create E []
               in Inr \<lparr>proc_service = service, proc_world = w, terminated = 0, quit_timers = 0,
                       loop_running = (service \<noteq> None), signal_source = source,
                       signal_watch = (source \<noteq> 0), proc_log = l1\<rparr>)"

text \<open>After the loop: the exit code, the log and the calls of the service.\<close>

definition main_finish :: "'k env \<Rightarrow> 'k process \<Rightarrow> int \<times> main_event list \<times> world" where
  "main_finish E p =
     (if proc_service p \<noteq> None then 0 else 1,
      proc_log p @ [Out ''Cleaning up''] @ (if signal_source p \<noteq> 0 then [Unwatch (signal_source p)] else []),
      print_service_free E (proc_service p) (proc_world p))"

text \<open>
  One dispatch of the main loop: a message or a timer of the service, a signal, or the timer that
  quits the loop. GLib may dispatch what is ready once more after the loop was told to quit, so a
  step does not ask whether the loop is still running.
\<close>

inductive main_step :: "'k env \<Rightarrow> 'k process \<Rightarrow> 'k process \<Rightarrow> bool" for E where
  serve: "proc_service p = Some s \<Longrightarrow> svc_step E s t \<Longrightarrow> main_step E p (p\<lparr>proc_service := Some t\<rparr>)"
| signal: "proc_service p \<noteq> None \<Longrightarrow> signal_watch p \<Longrightarrow> signal_handler hangup si p = (keep, q) \<Longrightarrow>
    main_step E p (q\<lparr>signal_watch := keep\<rparr>)"
| quit: "proc_service p \<noteq> None \<Longrightarrow> 0 < quit_timers p \<Longrightarrow>
    main_step E p (snd (quit_eventloop (p\<lparr>quit_timers := quit_timers p - 1\<rparr>)))"

inductive main_exits :: "host \<Rightarrow> 'k env \<Rightarrow> string list \<Rightarrow> int \<Rightarrow> main_event list \<Rightarrow> world \<Rightarrow> bool"
  for H E argv where
  early: "main_start H E argv = Inl (code, l) \<Longrightarrow> main_exits H E argv code l []"
| finished: "main_start H E argv = Inr p \<Longrightarrow> (main_step E)\<^sup>*\<^sup>* p q \<Longrightarrow> \<not> loop_running q \<Longrightarrow>
    main_finish E q = (code, l, w) \<Longrightarrow> main_exits H E argv code l w"

section \<open>Invariants of the process\<close>

definition quits :: "main_event list \<Rightarrow> nat" where
  "quits l = length (filter (\<lambda>e. case e of Quit_timer _ \<Rightarrow> True | _ \<Rightarrow> False) l)"

lemma quits_simps [simp]:
  "quits [] = 0" "quits (l @ m) = quits l + quits m" "quits [Out t] = 0" "quits [Quit_timer n] = 1"
  "quits [Daemon] = 0" "quits [Perror t] = 0" "quits [Block_signals] = 0" "quits [Signal_fd] = 0"
  "quits [Watch_signals] = 0" "quits [Unwatch n] = 0" "quits (Out t # l) = quits l"
  "quits (Signal_fd # l) = quits l" "quits (Block_signals # l) = quits l"
  by (simp_all add: quits_def)

text \<open>
  The first signal of the two starts the one quit timer; it is pending until it fires and stops the
  loop, and nothing else stops it.
\<close>

definition main_inv :: "'k env \<Rightarrow> 'k process \<Rightarrow> bool" where
  "main_inv E p \<longleftrightarrow> quits (proc_log p) = terminated p \<and> terminated p \<le> 1 \<and> quit_timers p \<le> terminated p \<and>
     (case proc_service p of None \<Rightarrow> \<not> loop_running p \<and> terminated p = 0
      | Some s \<Rightarrow> reachable E s \<and> (loop_running p \<longleftrightarrow> quit_timers p = terminated p))"

lemma setup_quits: "setup_signalfd H l = (n, l1) \<Longrightarrow> quits l1 = quits l \<and> (Daemon \<in> set l1 \<longleftrightarrow> Daemon \<in> set l)"
  by (auto simp: setup_signalfd_def Let_def split: if_splits)

lemma no_detach: "\<not> option_detach (apply_options given initial_options)"
  by (simp add: apply_options_def initial_options_def Let_def)

lemma start_inv:
  assumes "main_start H E argv = Inr p"
  shows "main_inv E p" "proc_service p = fst (print_service_create E [])" "Daemon \<notin> set (proc_log p)"
    "terminated p = 0" "quits (proc_log p) = 0"
proof -
  obtain given where g: "opt_parse H argv = Inr given"
    using assms by (auto simp: main_start_def split: sum.splits)
  let ?l = "[Out (''LuneOS print adapter '' @ VERSION)]"
  obtain n l1 where s: "setup_signalfd H ?l = (n, l1)" by fastforce
  obtain service w where c: "print_service_create E [] = (service, w)" by fastforce
  have p: "p = \<lparr>proc_service = service, proc_world = w, terminated = 0, quit_timers = 0,
      loop_running = (service \<noteq> None), signal_source = n, signal_watch = (n \<noteq> 0), proc_log = l1\<rparr>"
    using assms g s c no_detach [of given] by (simp add: main_start_def Let_def split: if_splits)
  show "main_inv E p"
    using setup_quits [OF s] reachable.created [of E "[]"] c
    by (auto simp: main_inv_def p split: option.split)
  show "proc_service p = fst (print_service_create E [])" "Daemon \<notin> set (proc_log p)"
    "terminated p = 0" "quits (proc_log p) = 0"
    using setup_quits [OF s] by (simp_all add: p c)
qed

lemma step_inv:
  assumes "main_step E p q" "main_inv E p"
  shows "main_inv E q \<and> proc_service q \<noteq> None"
  using assms(1)
proof cases
  case (serve s t)
  then show ?thesis using assms(2) reachable.step by (auto simp: main_inv_def)
next
  case (signal hangup si keep r)
  then show ?thesis
    using assms(2) by (auto simp: main_inv_def signal_handler_def Let_def split: if_splits option.splits)
next
  case quit
  then show ?thesis using assms(2) by (auto simp: main_inv_def quit_eventloop_def split: option.splits)
qed

lemma steps_inv:
  assumes "(main_step E)\<^sup>*\<^sup>* p q" "main_inv E p"
  shows "main_inv E q \<and> (proc_service q = None \<longleftrightarrow> proc_service p = None)"
  using assms
proof (induction rule: rtranclp_induct)
  case (step q r)
  have "main_inv E r \<and> proc_service r \<noteq> None" using step_inv [OF step(2)] step by blast
  moreover have "proc_service q \<noteq> None" using step(2) by cases simp_all
  ultimately show ?case using step by auto
qed simp

lemma steps_log:
  assumes "(main_step E)\<^sup>*\<^sup>* p q" "Daemon \<notin> set (proc_log p)"
  shows "Daemon \<notin> set (proc_log q) \<and> signal_source q = signal_source p"
  using assms
proof (induction rule: rtranclp_induct)
  case (step q r)
  from step(2) show ?case
  proof cases
    case (signal hangup si keep u)
    then show ?thesis
      using step by (auto simp: signal_handler_def Let_def split: if_splits option.splits)
  qed (use step in \<open>simp_all add: quit_eventloop_def\<close>)
qed simp

section \<open>The end of the service\<close>

definition free_events :: "print_job \<Rightarrow> io list" where
  "free_events job = map Unlink (temp_files job) @ (case temp_dir job of None \<Rightarrow> [] | Some d \<Rightarrow> [Rmdir d])"

lemma manager_free_eq:
  "job_manager_free E jm w = w @ concat (map (\<lambda>k. case job_manager_find jm k of None \<Rightarrow> []
     | Some job \<Rightarrow> free_events job) (job_manager_list E jm))"
proof -
  have "fold (\<lambda>k v. case job_manager_find jm k of None \<Rightarrow> v | Some job \<Rightarrow> job_free job v) ks w =
    w @ concat (map (\<lambda>k. case job_manager_find jm k of None \<Rightarrow> [] | Some job \<Rightarrow> free_events job) ks)" for ks
    by (induction ks arbitrary: w) (simp_all add: job_free_def free_events_def split: option.split)
  then show ?thesis by (simp add: job_manager_free_def)
qed

lemma unlinked:
  assumes "env_ok E"
  shows "Unlink path \<in> set (concat (map (\<lambda>k. case find_job s k of None \<Rightarrow> [] | Some job \<Rightarrow> free_events job)
      (job_manager_list E (svc_jobs s)))) \<longleftrightarrow> (\<exists>k job. find_job s k = Some job \<and> path \<in> set (temp_files job))"
    (is "?lhs \<longleftrightarrow> ?rhs")
proof -
  have keys: "k \<in> set (job_manager_list E (svc_jobs s)) \<longleftrightarrow> (\<exists>job. find_job s k = Some job)" for k
    using env_okD(3) [OF assms] by (simp add: job_manager_list_def find_job_def job_manager_find_def)
      (metis domI domD dom_map_of_conv_image_fst list.set_map)
  have files: "Unlink path \<in> set (free_events job) \<longleftrightarrow> path \<in> set (temp_files job)" for job
    by (auto simp: free_events_def split: option.splits)
  have each: "Unlink path \<in> set (case found of None \<Rightarrow> [] | Some job \<Rightarrow> free_events job) \<longleftrightarrow>
      (\<exists>job. found = Some job \<and> Unlink path \<in> set (free_events job))" for found
    by (cases found) simp_all
  have "?lhs \<longleftrightarrow> (\<exists>k \<in> set (job_manager_list E (svc_jobs s)). \<exists>job. find_job s k = Some job \<and> Unlink path \<in> set (free_events job))"
    unfolding set_concat set_map UN_iff bex_simps each ..
  then show ?thesis using keys files by blast
qed

text \<open>What ending the service does, in one list of calls.\<close>

definition end_events :: "'k env \<Rightarrow> 'k print_service \<Rightarrow> io list" where
  "end_events E s =
     (if svc_browse_source s \<noteq> 0 then [Source_remove (svc_browse_source s)] else []) @
     (if svc_poll_source s \<noteq> 0 then [Source_remove (svc_poll_source s)] else []) @
     concat (map (\<lambda>k. case find_job s k of None \<Rightarrow> [] | Some job \<Rightarrow> free_events job)
       (job_manager_list E (svc_jobs s))) @
     [Setup (LSUnregister Bus_legacy)] @ (if svc_ports_handle s then [Setup (LSUnregister Bus_ports)] else [])"

lemma service_free_eq: "print_service_free E (Some s) w = svc_world s @ end_events E s"
  by (simp add: print_service_free_def end_events_def manager_free_eq find_job_def Let_def)

lemma end_unlinks:
  assumes "env_ok E"
  shows "Unlink path \<in> set (end_events E s) \<longleftrightarrow> (\<exists>k job. find_job s k = Some job \<and> path \<in> set (temp_files job))"
  unfolding unlinked [OF assms, symmetric] by (auto simp: end_events_def simp del: set_concat)

section \<open>Properties\<close>

text \<open>
  C14: The loop stops for a signal and for nothing else. However many signals arrive, and whatever the
  service does meanwhile, at most one quit is ever scheduled; the loop has stopped only when one was,
  and from then on until it has stopped, the step that stops it is enabled.
\<close>

theorem signals_stop_once:
  assumes "main_start H E argv = Inr p" "(main_step E)\<^sup>*\<^sup>* p q" "proc_service p \<noteq> None"
  shows "quits (proc_log q) = terminated q \<and> quits (proc_log q) \<le> 1 \<and>
    (\<not> loop_running q \<longrightarrow> quits (proc_log q) = 1) \<and>
    (quits (proc_log q) = 1 \<and> loop_running q \<longrightarrow> (\<exists>r. main_step E q r \<and> \<not> loop_running r))"
proof -
  have inv: "main_inv E q" "proc_service q \<noteq> None"
    using steps_inv [OF assms(2) start_inv(1) [OF assms(1)]] assms(3) by blast+
  have "\<exists>r. main_step E q r \<and> \<not> loop_running r" if "0 < quit_timers q"
    by (rule exI, rule conjI, rule main_step.quit [OF inv(2) that]) (simp add: quit_eventloop_def)
  then show ?thesis
    using inv by (auto simp: main_inv_def split: option.splits)
qed

definition sample_host :: host where
  "sample_host = \<lparr>opt_parse = (\<lambda>argv. Inr (False, False)), os_daemon_ok = True, os_sigprocmask_ok = True,
     os_signalfd = 3, io_add_watch = 9\<rparr>"

lemma sample_start:
  "\<exists>p s. main_start sample_host sample_env [] = Inr p \<and> proc_service p = Some s \<and> loop_running p \<and>
     signal_watch p \<and> quit_timers p = 0 \<and> terminated p = 0"
  by (simp add: main_start_def sample_host_def apply_options_def initial_options_def setup_signalfd_def
      print_service_create_def legacy_setup_def setup_ports_def ports_setup_def Let_def split_beta
      job_manager_new_def printer_db_open_def cups_backend_enumerate_def sample_env_def)

lemma sample_signal:
  assumes "proc_service p = Some s" "signal_watch p" "terminated p = 0"
  obtains q where "main_step E p q" "proc_service q = Some s" "quit_timers q = quit_timers p + 1"
    "terminated q = 1" "loop_running q = loop_running p"
proof -
  let ?q = "p\<lparr>quit_timers := quit_timers p + 1, terminated := 1,
    proc_log := proc_log p @ [Out ''Terminating'', Quit_timer SHUTDOWN_GRACE_SECONDS]\<rparr>"
  have "signal_handler False (Some SIGTERM) p = (True, ?q)"
    using assms(3) by (simp add: signal_handler_def)
  from main_step.signal [OF _ assms(2) this] have "main_step E p (?q\<lparr>signal_watch := True\<rparr>)"
    using assms(1) by simp
  then show ?thesis by (rule that) (simp_all add: assms(1))
qed

theorem signals_stop_once_witness:
  "\<exists>p q r. main_start sample_host sample_env [] = Inr p \<and> main_step sample_env p q \<and>
     terminated q = 1 \<and> main_step sample_env q r \<and> \<not> loop_running r"
proof -
  obtain p s where p: "main_start sample_host sample_env [] = Inr p" "proc_service p = Some s"
    "loop_running p" "signal_watch p" "quit_timers p = 0" "terminated p = 0"
    using sample_start by blast
  obtain q where q: "main_step sample_env p q" "terminated q = 1" "loop_running q = loop_running p"
    by (rule sample_signal [OF p(2,4,6)])
  have s: "(main_step sample_env)\<^sup>*\<^sup>* p q" using q(1) by (rule r_into_rtranclp)
  have "proc_service p \<noteq> None" using p(2) by simp
  from signals_stop_once [OF p(1) s this] have "\<exists>r. main_step sample_env q r \<and> \<not> loop_running r"
    using q p(3) by simp
  then show ?thesis using p(1) q(1,2) by blast
qed

text \<open>
  C34: The program exits with 0 exactly when it was asked for its version or the service could be
  created, and with 1 otherwise. It never goes into the background, with or without \<open>--nodetach\<close>.
\<close>

theorem exit_code_meaning:
  assumes "main_exits H E argv code l w"
  shows "Daemon \<notin> set l \<and> code = (case opt_parse H argv of
      Inl _ \<Rightarrow> 1
    | Inr (nodetach, version) \<Rightarrow> if version \<or> fst (print_service_create E []) \<noteq> None then 0 else 1)"
  using assms
proof cases
  case early
  then show ?thesis
    using no_detach by (auto simp: main_start_def Let_def apply_options_def initial_options_def
        split: sum.splits if_splits prod.splits)
next
  case (finished p q)
  obtain nodetach version where g: "opt_parse H argv = Inr (nodetach, version)" "\<not> version"
    using finished(1)
    by (auto simp: main_start_def Let_def apply_options_def split: sum.splits if_splits)
  have "proc_service q = None \<longleftrightarrow> fst (print_service_create E []) = None"
    using steps_inv [OF finished(2) start_inv(1) [OF finished(1)]] start_inv(2) [OF finished(1)] by simp
  moreover have "Daemon \<notin> set (proc_log q)"
    using steps_log [OF finished(2) start_inv(3) [OF finished(1)]] by blast
  ultimately show ?thesis
    using finished(4) g by (auto simp: main_finish_def split: if_splits)
qed

lemma sample_exit: "\<exists>l w. main_exits sample_host sample_env [] 0 l w"
proof -
  obtain p s where p: "main_start sample_host sample_env [] = Inr p" "proc_service p = Some s"
    "loop_running p" "signal_watch p" "quit_timers p = 0" "terminated p = 0"
    using sample_start by blast
  obtain q where q: "main_step sample_env p q" "proc_service q = Some s" "quit_timers q = quit_timers p + 1"
    by (rule sample_signal [OF p(2,4,6)])
  let ?r = "snd (quit_eventloop (q\<lparr>quit_timers := quit_timers q - 1\<rparr>))"
  have "main_step sample_env q ?r" by (rule main_step.quit) (simp_all add: q)
  with q(1) have "(main_step sample_env)\<^sup>*\<^sup>* p ?r" by auto
  moreover have "\<not> loop_running ?r" "\<exists>l w. main_finish sample_env ?r = (0, l, w)"
    by (simp_all add: quit_eventloop_def main_finish_def q(2))
  ultimately show ?thesis using main_exits.finished [OF p(1)] by blast
qed

theorem exit_code_meaning_witness:
  "\<exists>l w. main_exits sample_host sample_env [] 0 l w \<and> Daemon \<notin> set l"
  using sample_exit exit_code_meaning by blast

text \<open>
  C13: When the program ends after serving, it has removed its timers, unregistered its names and
  deleted the scratch files of all its jobs, and no other file: the pages the clients supplied are
  never deleted.
\<close>

theorem clean_exit:
  assumes "env_ok E" "main_exits H E argv 0 l w" "opt_parse H argv = Inr (nodetach, False)"
  shows "\<exists>s es. reachable E s \<and> w = svc_world s @ es \<and>
    (\<forall>path. Unlink path \<in> set es \<longleftrightarrow> (\<exists>k job. find_job s k = Some job \<and> path \<in> set (temp_files job))) \<and>
    {src. Source_remove src \<in> set es} = {svc_browse_source s, svc_poll_source s} - {0} \<and>
    {h. Setup (LSUnregister h) \<in> set es} = {Bus_legacy} \<union> (if svc_ports_handle s then {Bus_ports} else {})"
  using assms(2)
proof cases
  case early
  then show ?thesis
    using assms(3) no_detach
    by (auto simp: main_start_def Let_def apply_options_def initial_options_def split: prod.splits if_splits)
next
  case (finished p q)
  have inv: "main_inv E q" using steps_inv [OF finished(2) start_inv(1) [OF finished(1)]] by blast
  obtain s where s: "proc_service q = Some s" using finished(4) by (auto simp: main_finish_def split: if_splits)
  then have "reachable E s" using inv by (simp add: main_inv_def)
  moreover have w: "w = svc_world s @ end_events E s"
    using finished(4) by (simp add: main_finish_def s service_free_eq)
  moreover have "{src. Source_remove src \<in> set (end_events E s)} = {svc_browse_source s, svc_poll_source s} - {0}"
    by (auto simp: end_events_def free_events_def split: if_splits option.splits)
  moreover have "{h. Setup (LSUnregister h) \<in> set (end_events E s)} =
      {Bus_legacy} \<union> (if svc_ports_handle s then {Bus_ports} else {})"
    by (auto simp: end_events_def free_events_def split: if_splits option.splits)
  ultimately show ?thesis using end_unlinks [OF assms(1)] by blast
qed

theorem clean_exit_witness:
  "\<exists>w s es. w = svc_world s @ es \<and> reachable sample_env s \<and>
     {h. Setup (LSUnregister h) \<in> set es} = {Bus_legacy} \<union> (if svc_ports_handle s then {Bus_ports} else {})"
proof -
  obtain l w where e: "main_exits sample_host sample_env [] 0 l w" using sample_exit by blast
  have "opt_parse sample_host [] = Inr (False, False)" by (simp add: sample_host_def)
  from clean_exit [OF sample_env_ok(1) e this] show ?thesis by (elim exE conjE) (intro exI conjI; assumption)
qed

end
