(* ===== verification/Store_Refinement.thy ===== *)
theory Store_Refinement
  imports Printer_Db
begin

text \<open>
  What \<open>src/printer_db.c\<close> promises, as an abstract machine: a map from ids to printers and the choice
  of the current one, with one transition per operation of \<open>printer_db.h\<close>. Every sequence of
  operations on the key file answers as the machine does, and leaves what the machine leaves.
\<close>

section \<open>Simulation\<close>

text \<open>Runs of operations, of the code and of a machine that is told for each whether saving worked.\<close>

fun run_ops :: "('op \<Rightarrow> 'c \<Rightarrow> 'r \<times> 'c) \<Rightarrow> 'op list \<Rightarrow> 'c \<Rightarrow> 'r list \<times> 'c" where
  "run_ops f [] c = ([], c)"
| "run_ops f (x # xs) c = (let (r, c1) = f x c; (rs, c2) = run_ops f xs c1 in (r # rs, c2))"

fun run_spec :: "('b \<Rightarrow> 'op \<Rightarrow> 'a \<Rightarrow> 'r \<times> 'a) \<Rightarrow> ('b \<times> 'op) list \<Rightarrow> 'a \<Rightarrow> 'r list \<times> 'a" where
  "run_spec f [] a = ([], a)"
| "run_spec f ((b, x) # xs) a = (let (r, a1) = f b x a; (rs, a2) = run_spec f xs a1 in (r # rs, a2))"

locale simulation =
  fixes ok :: "'e \<Rightarrow> 'g \<Rightarrow> bool"
    and valid :: "'e \<Rightarrow> 'g \<Rightarrow> 'op \<Rightarrow> bool"
    and conc :: "'e \<Rightarrow> 'op \<Rightarrow> 'c \<Rightarrow> 'r \<times> 'c"
    and spec :: "bool \<Rightarrow> 'op \<Rightarrow> 'a \<Rightarrow> 'r \<times> 'a"
    and view :: "'e \<Rightarrow> 'c \<Rightarrow> 'a"
    and reliable :: "'e \<Rightarrow> bool"
  assumes step: "ok e g \<Longrightarrow> valid e g x \<Longrightarrow> conc e x c = (r, c') \<Longrightarrow>
      \<exists>b. spec b x (view e c) = (r, view e c') \<and> (reliable e \<longrightarrow> b)"
begin

lemma refines:
  assumes "ok e g" "\<forall>x \<in> set xs. valid e g x" "run_ops (conc e) xs c = (rs, c')"
  shows "\<exists>bs. length bs = length xs \<and> run_spec spec (zip bs xs) (view e c) = (rs, view e c') \<and>
    (reliable e \<longrightarrow> set bs \<subseteq> {True})"
  using assms(2,3)
proof (induction xs arbitrary: c rs)
  case (Cons x xs)
  obtain r c1 where x: "conc e x c = (r, c1)" by fastforce
  obtain qs where qs: "run_ops (conc e) xs c1 = (qs, c')" "rs = r # qs"
    using Cons.prems(2) x by (auto split: prod.splits)
  obtain b where b: "spec b x (view e c) = (r, view e c1)" "reliable e \<longrightarrow> b"
    using step [OF assms(1) _ x] Cons.prems(1) by auto
  obtain bs where bs: "length bs = length xs" "run_spec spec (zip bs xs) (view e c1) = (qs, view e c')"
    "reliable e \<longrightarrow> set bs \<subseteq> {True}"
    using Cons.IH [OF _ qs(1)] Cons.prems(1) by auto
  show ?case
    by (rule exI [of _ "b # bs"]) (use b bs qs(2) in auto)
qed simp

end

section \<open>The machine\<close>

datatype store_op =
    Add string "string option" "string option" "string option"
  | Delete string "string option"
  | Choose string
  | Find string
  | Current
  | List "string option"

datatype store_answer =
    Done
  | Failed int
  | Found "printer_record option"
  | Name string
  | Listed "printer_record set"

record store_spec =
  spec_printers :: "string \<Rightarrow> printer_record option"
  spec_current :: "string option"

definition on_network :: "string option \<Rightarrow> printer_record \<Rightarrow> bool" where
  "on_network f r \<longleftrightarrow> (case f of None \<Rightarrow> True | Some s \<Rightarrow> s = (case rec_ssid r of None \<Rightarrow> [] | Some t \<Rightarrow> t))"

text \<open>A deletion may name the network; it is then refused for a printer of another one.\<close>

definition other_network :: "string option \<Rightarrow> printer_record \<Rightarrow> bool" where
  "other_network ssid r \<longleftrightarrow> ssid \<noteq> None \<and> ssid \<noteq> Some [] \<and> rec_ssid r \<noteq> ssid"

fun spec_store :: "bool \<Rightarrow> store_op \<Rightarrow> store_spec \<Rightarrow> store_answer \<times> store_spec" where
  "spec_store saved (Add pid name addr ssid) a =
     (if spec_printers a pid \<noteq> None then (Failed PM_ERR_PRINTER_DUPLICATE_ID, a)
      else if addr \<noteq> None \<and> (\<exists>r \<in> ran (spec_printers a). rec_printer_address r = addr)
      then (Failed PM_ERR_PRINTER_DUPLICATE_IP, a)
      else if saved
      then (Done, a\<lparr>spec_printers := (spec_printers a)(pid \<mapsto> new_record pid name addr ssid)\<rparr>)
      else (Failed PM_ERR_PRINTER_DB_ACCESS, a))"
| "spec_store saved (Delete pid ssid) a =
     (case spec_printers a pid of
        None \<Rightarrow> (Failed PM_ERR_PRINTER_UNKNOWN_ID, a)
      | Some r \<Rightarrow>
          if other_network ssid r then (Failed PM_ERR_PRINTER_UNKNOWN_ID, a)
          else (if saved then Done else Failed PM_ERR_PRINTER_UNKNOWN_ID,
                a\<lparr>spec_printers := (spec_printers a)(pid := None),
                  spec_current := (if spec_current a = Some pid then None else spec_current a)\<rparr>))"
| "spec_store saved (Choose pid) a =
     (if saved then Done else Failed PM_ERR_SET_CURRENT_PRINTER_FAILED, a\<lparr>spec_current := Some pid\<rparr>)"
| "spec_store saved (Find pid) a = (Found (spec_printers a pid), a)"
| "spec_store saved Current a = (Name (case spec_current a of None \<Rightarrow> [] | Some c \<Rightarrow> c), a)"
| "spec_store saved (List f) a = (Listed {r \<in> ran (spec_printers a). on_network f r}, a)"

section \<open>The code\<close>

text \<open>
  The operations with the error codes their callers in \<open>print_service.c\<close> answer with. The order of
  a list is that of the key file; the machine promises only what is in it.
\<close>

fun store_exec :: "'k env \<Rightarrow> store_op \<Rightarrow> 'k printer_db \<times> world \<Rightarrow> store_answer \<times> 'k printer_db \<times> world" where
  "store_exec E (Add pid name addr ssid) (db, w) =
     (let (r, db1, w1) = printer_db_add E db pid name addr ssid w
      in (case r of Inl e \<Rightarrow> Failed e | Inr _ \<Rightarrow> Done, db1, w1))"
| "store_exec E (Delete pid ssid) (db, w) =
     (let (ok, db1, w1) = printer_db_delete E db pid ssid w
      in (if ok then Done else Failed PM_ERR_PRINTER_UNKNOWN_ID, db1, w1))"
| "store_exec E (Choose pid) (db, w) =
     (let (ok, db1, w1) = printer_db_set_current E db (Some pid) w
      in (if ok then Done else Failed PM_ERR_SET_CURRENT_PRINTER_FAILED, db1, w1))"
| "store_exec E (Find pid) (db, w) =
     (let (r, db1) = printer_db_find E db (Some pid) in (Found r, db1, w))"
| "store_exec E Current (db, w) =
     (let (cur, db1) = printer_db_get_current E db in (Name cur, db1, w))"
| "store_exec E (List f) (db, w) = (Listed (set (printer_db_list E db f)), db, w)"

definition store_view :: "'k env \<Rightarrow> 'k printer_db \<times> world \<Rightarrow> store_spec" where
  "store_view E c = \<lparr>spec_printers = printers_of E (fst c), spec_current = current_of E (fst c)\<rparr>"

text \<open>
  The operations the machine describes: on ids that GLib accepts as group names, other than the name
  of the settings group, and with strings in UTF-8.
\<close>

fun op_ok :: "'k env \<Rightarrow> (string \<Rightarrow> bool) \<Rightarrow> store_op \<Rightarrow> bool" where
  "op_ok E good (Add pid name addr ssid) =
     (good pid \<and> pid \<noteq> GROUP_SETTINGS \<and> utf8_opt E name \<and> utf8_opt E addr \<and> utf8_opt E ssid)"
| "op_ok E good (Delete pid ssid) = (pid \<noteq> GROUP_SETTINGS)"
| "op_ok E good (Find pid) = (pid \<noteq> GROUP_SETTINGS)"
| "op_ok E good (Choose pid) = g_utf8_validate E pid"
| "op_ok E good Current = True"
| "op_ok E good (List f) = True"

definition reliable :: "'k env \<Rightarrow> bool" where
  "reliable E \<longleftrightarrow> (\<forall>w kf p. kf_save E w kf p)"

section \<open>The simulation of the code by the machine\<close>

lemma view_cong: "db_keyfile db' = db_keyfile db \<Longrightarrow> store_view E (db', w) = store_view E (db, w)"
  by (simp add: store_view_def printers_of_def current_of_def store_has_def store_strings_def fun_eq_iff)

lemma printers_ran:
  "ran (printers_of E db) = record_of E (db_keyfile db) ` {g. kf_has_group E (db_keyfile db) g \<and> g \<noteq> GROUP_SETTINGS}"
  by (auto simp: ran_def printers_of_def store_has_def)

lemma taken_view:
  assumes "keyfile_ok E good"
  shows "address_taken E (db_keyfile db) (kf_get_groups E (db_keyfile db)) addr \<longleftrightarrow>
    addr \<noteq> None \<and> (\<exists>r \<in> ran (printers_of E db). rec_printer_address r = addr)"
  unfolding printers_ran address_taken_iff by (auto simp: keyfile_okD(2) [OF assms] record_of_def)

lemma sim_add:
  assumes "keyfile_ok E good" "good pid" "pid \<noteq> GROUP_SETTINGS" "utf8_opt E name" "utf8_opt E addr" "utf8_opt E ssid"
    and "store_exec E (Add pid name addr ssid) (db, w) = (r, c')"
  shows "\<exists>b. spec_store b (Add pid name addr ssid) (store_view E (db, w)) = (r, store_view E c') \<and> (reliable E \<longrightarrow> b)"
proof -
  obtain q db1 w1 where a: "printer_db_add E db pid name addr ssid w = (q, db1, w1)" by (rule fst3E [OF refl])
  have r: "r = (case q of Inl e \<Rightarrow> Failed e | Inr _ \<Rightarrow> Done)" "c' = (db1, w1)"
    using assms(7) a by auto
  have has: "printers_of E db pid = None \<longleftrightarrow> \<not> kf_has_group E (db_keyfile db) pid"
    using assms(3) by (simp add: printers_of_def store_has_def)
  note taken = taken_view [OF assms(1)]
  show ?thesis
  proof (cases q)
    case (Inl e)
    have view: "store_view E c' = store_view E (db, w)"
      using same_store_view [OF failed_add_same [OF assms(1,2) a [unfolded Inl]]] by (simp add: r store_view_def)
    consider "kf_has_group E (db_keyfile db) pid" "e = PM_ERR_PRINTER_DUPLICATE_ID"
      | "\<not> kf_has_group E (db_keyfile db) pid" "e = PM_ERR_PRINTER_DUPLICATE_IP"
        "address_taken E (db_keyfile db) (kf_get_groups E (db_keyfile db)) addr"
      | "\<not> kf_has_group E (db_keyfile db) pid" "e = PM_ERR_PRINTER_DB_ACCESS" "\<not> reliable E"
        "\<not> address_taken E (db_keyfile db) (kf_get_groups E (db_keyfile db)) addr"
      using a [unfolded Inl add_eq Let_def] by (auto simp: reliable_def split: if_splits)
    then have "spec_store (reliable E) (Add pid name addr ssid) (store_view E (db, w)) = (r, store_view E (db, w))"
      by cases (simp_all add: store_view_def has taken r Inl)
    then show ?thesis using view by (intro exI [of _ "reliable E"]) simp
  next
    case (Inr u)
    note view = keyfile_store.add_view [OF assms(1-6) a [unfolded Inr]]
    have "\<not> address_taken E (db_keyfile db) (kf_get_groups E (db_keyfile db)) addr"
      using a [unfolded Inr add_eq Let_def] by (auto split: if_splits)
    then show ?thesis
      using view by (intro exI [of _ True]) (simp add: r Inr store_view_def taken)
  qed
qed

lemma sim_delete:
  assumes "keyfile_ok E good" "pid \<noteq> GROUP_SETTINGS"
    and "store_exec E (Delete pid ssid) (db, w) = (r, c')"
  shows "\<exists>b. spec_store b (Delete pid ssid) (store_view E (db, w)) = (r, store_view E c') \<and> (reliable E \<longrightarrow> b)"
proof (cases "kf_has_group E (db_keyfile db) pid")
  case True
  let ?r = "record_of E (db_keyfile db) pid"
  have here: "printers_of E db pid = Some ?r"
    using True assms(2) by (simp add: printers_of_def store_has_def)
  show ?thesis
  proof (cases "other_network ssid ?r")
    case other: True
    then have "printer_db_delete E db pid ssid w = (False, db, w)"
      by (auto simp: printer_db_delete_def Let_def other_network_def record_of_def split: option.split)
    then show ?thesis
      using assms(3) here other by (intro exI [of _ True]) (auto simp: store_view_def)
  next
    case same: False
    obtain kf1 where kf1: "kf_remove_group E (db_keyfile db) pid = Some kf1"
      using True by (metis keyfile_ok_remove [OF assms(1)])
    obtain ok db1 w1 where d: "printer_db_delete E db pid ssid w = (ok, db1, w1)" by (rule fst3E [OF refl])
    have run: "ok = kf_save E w (cleared_keyfile E kf1 pid) (db_path db)"
      "db1 = db\<lparr>db_keyfile := cleared_keyfile E kf1 pid\<rparr>"
      using d same True kf1
      by (auto simp: printer_db_delete_def Let_def other_network_def record_of_def db_flush_def
          cleared_keyfile_def split: option.splits)
    have gone: "printers_of E db1 pid = None"
    proof -
      have "\<not> kf_has_group E kf1 pid"
        using keyfile_ok_remove [OF assms(1) True] kf1 by (metis option.inject)
      then show ?thesis
        by (simp add: run printers_of_def store_has_def cleared_keyfile_def keyfile_okD(8) [OF assms(1)])
    qed
    have "printers_of E db1 = (printers_of E db)(pid := None) \<and>
      current_of E db1 = (if current_of E db = Some pid then None else current_of E db)"
      using delete_cases [OF assms(1,2) d] gone here by auto
    then show ?thesis
      using assms(3) d here same
      by (intro exI [of _ ok]) (auto simp: store_view_def reliable_def run(1))
  qed
next
  case False
  then have "printer_db_delete E db pid ssid w = (False, db, w)" "printers_of E db pid = None"
    by (simp_all add: printer_db_delete_def Let_def printers_of_def store_has_def)
  then show ?thesis
    using assms(3) by (intro exI [of _ True]) (auto simp: store_view_def)
qed

lemma sim_choose:
  assumes "keyfile_ok E good" "g_utf8_validate E pid" "store_exec E (Choose pid) (db, w) = (r, c')"
  shows "\<exists>b. spec_store b (Choose pid) (store_view E (db, w)) = (r, store_view E c') \<and> (reliable E \<longrightarrow> b)"
proof -
  obtain ok db1 w1 where s: "printer_db_set_current E db (Some pid) w = (ok, db1, w1)" by (rule fst3E [OF refl])
  have "reliable E \<longrightarrow> ok"
    using s by (auto simp: printer_db_set_current_def Let_def db_flush_def reliable_def)
  then show ?thesis
    using assms(3) s keyfile_store.set_view [OF assms(1,2) s]
    by (intro exI [of _ ok]) (auto simp: store_view_def)
qed

lemma list_view:
  assumes "keyfile_ok E good"
  shows "set (printer_db_list E db f) = {r \<in> ran (printers_of E db). on_network f r}"
proof -
  have "(case f of None \<Rightarrow> True | Some s \<Rightarrow>
      s = (case kf_get_string E (db_keyfile db) g ''ssid'' of None \<Rightarrow> [] | Some t \<Rightarrow> t)) =
    on_network f (record_of E (db_keyfile db) g)" for g
    unfolding on_network_def record_of_def printer_record.select_convs ..
  then show ?thesis
    unfolding printers_ran printer_db_list_def list_groups_eq by (auto simp: keyfile_okD(2) [OF assms])
qed

lemma sim_query:
  assumes "keyfile_ok E good" "op_ok E good x" "store_exec E x (db, w) = (r, c')"
    and "x = Find pid \<or> x = Current \<or> x = List f"
  shows "\<exists>b. spec_store b x (store_view E (db, w)) = (r, store_view E c') \<and> (reliable E \<longrightarrow> b)"
proof -
  have find: "db_keyfile (snd (printer_db_find E db (Some pid))) = db_keyfile db"
    by (simp add: printer_db_find_def Let_def)
  have current: "db_keyfile (snd (printer_db_get_current E db)) = db_keyfile db"
    by (simp add: printer_db_get_current_def Let_def)
  show ?thesis
    using assms(4)
  proof (elim disjE)
    assume x: "x = Find pid"
    then have r: "r = Found (printers_of E db pid)" "c' = (snd (printer_db_find E db (Some pid)), w)"
      using assms(2,3) find_view [of pid E db] by (auto simp: split_beta)
    show ?thesis
      by (rule exI [of _ True]) (simp add: x r view_cong [OF find], simp add: store_view_def)
  next
    assume x: "x = Current"
    then have r: "r = Name (case current_of E db of None \<Rightarrow> [] | Some c \<Rightarrow> c)"
        "c' = (snd (printer_db_get_current E db), w)"
      using assms(3) get_current_view [of E db] by (auto simp: split_beta)
    show ?thesis
      by (rule exI [of _ True]) (simp add: x r view_cong [OF current], simp add: store_view_def)
  next
    assume x: "x = List f"
    then show ?thesis
      using assms(3) list_view [OF assms(1)] by (auto simp: store_view_def)
  qed
qed

interpretation key_file: simulation keyfile_ok op_ok store_exec spec_store store_view reliable
proof
  fix E :: "'a env" and good x c r c'
  assume a: "keyfile_ok E good" "op_ok E good x" "store_exec E x c = (r, c')"
  obtain db w where c: "c = (db, w)" by fastforce
  show "\<exists>b. spec_store b x (store_view E c) = (r, store_view E c') \<and> (reliable E \<longrightarrow> b)"
    using a unfolding c
    by (cases x) (simp_all only: op_ok.simps sim_add sim_delete sim_choose sim_query
        store_op.simps simp_thms)
qed

section \<open>Property\<close>

text \<open>
  C11: The store refines its machine: whatever operations are performed one after the other on ids
  that GLib accepts, other than the id of the settings group, and with strings in UTF-8, their answers, errors included, are those the abstract map of printers and current printer gives for
  some outcomes of saving, and the store ends up holding what the map ends up with. When every save
  works the outcomes are all successes, so that the map alone determines every answer.
\<close>

theorem store_refines:
  assumes "keyfile_ok E good" "\<forall>x \<in> set ops. op_ok E good x"
    and "run_ops (store_exec E) ops (db, w) = (rs, c')"
  shows "\<exists>saved. length saved = length ops \<and>
    run_spec spec_store (zip saved ops) (store_view E (db, w)) = (rs, store_view E c') \<and>
    (reliable E \<longrightarrow> set saved \<subseteq> {True})"
  by (rule key_file.refines [OF assms])

definition sample_ops :: "store_op list" where
  "sample_ops = [Add ''A'' None (Some ''10.0.0.1'') None, Add ''B'' None (Some ''10.0.0.1'') None,
     Choose ''A'', Delete ''A'' None, Current]"

theorem store_refines_witness:
  "\<exists>c' saved. run_ops (store_exec sample_env) sample_ops (sample_db, []) =
       ([Done, Failed PM_ERR_PRINTER_DUPLICATE_IP, Done, Done, Name []], c') \<and>
     length saved = length sample_ops \<and>
     run_spec spec_store (zip saved sample_ops) (store_view sample_env (sample_db, [])) =
       ([Done, Failed PM_ERR_PRINTER_DUPLICATE_IP, Done, Done, Name []], store_view sample_env c')"
proof -
  obtain rs c' where run: "run_ops (store_exec sample_env) sample_ops (sample_db, []) = (rs, c')"
    by (metis surj_pair)
  have ok: "\<forall>x \<in> set sample_ops. op_ok sample_env (\<lambda>g. True) x" by (simp add: sample_ops_def sample_env_def)
  have "fst (run_ops (store_exec sample_env) sample_ops (sample_db, [])) =
      [Done, Failed PM_ERR_PRINTER_DUPLICATE_IP, Done, Done, Name []]" by code_simp
  then have "rs = [Done, Failed PM_ERR_PRINTER_DUPLICATE_IP, Done, Done, Name []]" by (simp only: run fst_conv)
  with store_refines [OF sample_keyfile_ok ok run] run show ?thesis by blast
qed

end
