(* ===== verification/Spec2Isabelle.thy ===== *)
theory Spec2Isabelle
  imports Service_Properties Main_Loop Store_Refinement
begin

text \<open>
  Verification of the LuneOS print adapter, the replacement of the webOS print manager.

  \<^bold>\<open>The program.\<close> \<open>src/src/print_service.c\<close> answers two surfaces on the Luna bus: com.palm.printmgr with
  the categories \<open>/printers\<close> and \<open>/jobs\<close>, and org.webosports.service.print for the Settings page. Behind
  both it keeps print jobs and their scratch files (\<open>src/src/job_manager.c\<close>), the printers that were added
  by hand and the current printer (\<open>src/src/printer_db.c\<close>), translates webOS keywords to IPP ones and back
  (\<open>src/src/param_map.c\<close>), and talks to CUPS (\<open>src/src/cups_backend.c\<close>), where it looks for printers every
  five seconds and for the state of submitted jobs every second. \<open>src/src/luna_service_utils.c\<close> sends replies
  and posts and reads the parameters of a message, \<open>src/src/print_errors.c\<close> has the texts of the error
  codes, and \<open>src/src/main.c\<close> is the process: options, signals, main loop.

  \<^bold>\<open>How it is modelled.\<close> A C structure is a record, an enumeration a datatype, a table a list; a function keeps
  its name. Output parameters with a success flag are sums (\<open>Inl\<close> the error code) or options. A pointer to
  a job is its key in the table of jobs, and what a handler assigns through it is one update of the
  table. What lies outside the repository (luna-service2, pbnjson, libcups, GLib's key files, timers and
  hash tables, files) is the record \<open>env\<close> of functions every operation takes; a call is an event appended to
  the world, the list of all calls so far, and what it answers may depend on all of them. A file that
  can be opened is what can be read of it and whether reading then fails (\<open>open_file\<close>): \<open>fread\<close> reports
  neither apart from the end. Pure functions of the libraries that are documented (\<open>g_strsplit\<close>,
  \<open>g_list_append\<close>, \<open>cupsAddOption\<close>, \<open>cupsGetOption\<close> with names compared without regard to case) are written out.
  An \<open>int\<close> is an integer with its 32-bit wrap-around written out where it can overflow: the arithmetic of
  areas, and the counter of job numbers. Memory is not represented: the functions that only free are left out.

  \<^bold>\<open>Theories.\<close>
  \<^item> \<open>Print_Prelude\<close>: shared collections, decimal numbers, \<open>atoi\<close>, 32-bit wrap-around, division of C.
  \<^item> \<open>C_Double\<close>: binary64 arithmetic as rationals with rounding to nearest, \<open>lround\<close> and the conversion to
    \<open>int\<close>; out of range values are the platform's (a parameter). Overflow to infinity and NaN are not
    represented: a number in a message is finite.
  \<^item> \<open>Service_World\<close>, \<open>Sample_Env\<close>: JSON, messages, events, the environment, and one concrete environment
    on which the witnesses evaluate.
  \<^item> \<open>Print_Errors\<close>, \<open>Param_Map\<close>: the tables and look-ups. The locales \<open>keyword_map\<close> and \<open>keyword_section\<close> say
    what a pair of translations promises; they are interpreted on all five tables.
  \<^item> \<open>Print_Area\<close>, \<open>Job_Manager\<close>: \<open>job_manager.c\<close>. \<open>job_compute_area\<close> is computed in doubles and wrapped
    integers exactly as written; the locale \<open>job_store\<close> is the contract of the table of jobs, whose
    invariant \<open>jm_inv\<close> keeps the paths of all scratch files apart.
  \<^item> \<open>Printer_Db\<close>, \<open>Store_Refinement\<close>: \<open>printer_db.c\<close> over an abstract key file (\<open>keyfile_ok\<close> is what GLib
    documents of one; \<open>good\<close> are the group names it accepts, and a load that fails leaves whatever GLib
    leaves, \<open>kf_load\<close>), the locale \<open>printer_store\<close> with the laws of
    the store, and the refinement of an abstract machine by the locale \<open>simulation\<close>.
  \<^item> \<open>Cups_Backend\<close>: discovery, capabilities, options, submission in chunks of 16384 bytes with its error
    paths, job states, the queue administration.
  \<^item> \<open>Luna_Service_Utils\<close>: replies, subscriptions, typed access to a message.
  \<^item> \<open>Print_Service\<close>, \<open>Print_Jobs\<close>, \<open>Job_Submission\<close>, \<open>Ports_Service\<close>: \<open>print_service.c\<close> in four parts, in its
    order: the state, discovery and \<open>/printers\<close>; the status stream, the poll and the parameter methods of
    \<open>/jobs\<close>; files, pages, submission, close, cancel and \<open>allAtOnce\<close>; the Settings surface.
  \<^item> \<open>Service_Laws\<close>, \<open>Handler_Laws\<close>: the invariant \<open>svc_inv\<close> of the state (with it, that
    the subscribers were told of every job that is over) and, for each handler, that it keeps it, lets
    jobs only go forward and replies exactly once; composed by the locale \<open>request_reply\<close>.
  \<^item> \<open>Service_Run\<close>: method tables, creation and end of the service, and its main loop as a step relation:
    any message to any method, a browse, a poll. \<open>reachable\<close> is what the service can get to. A step leaves
    the job counter below its maximum (\<open>ids_left\<close>): the increment past 2147483647 is undefined in C and
    would repeat numbers in practice, so a run is one of at most 2147483645 jobs.
  \<^item> \<open>Main_Loop\<close>: \<open>main.c\<close>, the process around the service up to its exit code.
  \<^item> \<open>Service_Properties\<close>: what single operations do; this theory: what spans components.

  \<^bold>\<open>Hypotheses.\<close> \<open>env_ok\<close>: pbnjson accepts the schema \<open>{}\<close>, source ids are not 0, a walk over a hash table
  visits its keys. \<open>keyfile_ok\<close>: what is written under one of the four keys the store uses is read back, for
  a group name that GLib accepts and a value in UTF-8 (\<open>g_utf8_validate\<close>); nothing is said of other keys and
  values. \<open>tame_insets\<close> and \<open>tame_units\<close> bound insets by 1000 inches and the
  resolution by 100000 dots per inch; there the arithmetic of an area cannot overflow, and beyond it
  can. Nothing else is assumed of the libraries; loops are recursions over lists, and
  the one loop over a file decreases the number of bytes left, so no fuel is needed.

  \<^bold>\<open>Not modelled.\<close> Freeing of memory; the wording of log messages, except those of \<open>main\<close>; a schema \<open>{}\<close> that
  is parsed at one time and not at another; how GLib parses a command line (its outcome is a parameter
  of \<open>Main_Loop\<close>); files that change while they are read; the job counter after it has overflowed; the
  test programs, whose reference values are the lemmas \<open>area_reference_values\<close> and \<open>a4_raw\<close>.
\<close>

section \<open>A reachable sample\<close>

definition open_env :: "sample_store env" where
  "open_env = sample_env_with [(''printerID'', JStr ''Office''), (''description'', JStr ''d''),
     (''appName'', JStr ''a''), (''jobID'', JInt 1)]"

lemma open_env_ok: "env_ok open_env"
  by (simp add: open_env_def)

lemma open_env_create: "\<exists>s. print_service_create open_env [] = (Some s, svc_world s) \<and> svc_browse_source s \<noteq> 0"
  by (simp add: print_service_create_def legacy_setup_def setup_ports_def ports_setup_def Let_def split_beta
      job_manager_new_def printer_db_open_def cups_backend_enumerate_def open_env_def sample_env_with_def sample_env_def)

lemma jobs_open_find:
  assumes "svc_inv s" "ids_left (svc_jobs s)" "parse E m = Some parsed" "luna_get_string parsed ''printerID'' = Some pid"
    "luna_get_string parsed ''description'' = Some desc" "luna_get_string parsed ''appName'' = Some app"
  shows "\<exists>job. find_job (jobs_open E h m s) = (find_job s)(next_job_id (svc_jobs s) \<mapsto> job) \<and>
    phase job = JOB_PHASE_OPEN \<and> svc_browse_source (jobs_open E h m s) = svc_browse_source s \<and>
    next_job_id (svc_jobs (jobs_open E h m s)) = next_job_id (svc_jobs s) + 1"
proof -
  obtain job s1 where op: "open_job E pid desc app s = (job, s1)" by fastforce
  obtain b s2 where c: "check_subscription E h m s1 = (b, s2)" by fastforce
  have find: "find_job s2 = (find_job s)(next_job_id (svc_jobs s) \<mapsto> job)"
    using open_others [OF op assms(1,2)] steady_find [OF subscription_steady [OF c]] by simp
  have src: "svc_browse_source s2 = svc_browse_source s"
    using op c by (auto simp: open_job_def check_subscription_def call_def Let_def split: prod.splits)
  have "jm_inv (svc_jobs s)" using assms(1) by (simp add: svc_inv_def)
  then have "next_job_id (svc_jobs s1) = next_job_id (svc_jobs s) + 1"
    using op open_fresh_job(5) [OF _ assms(2)] by (auto simp: open_job_def split: prod.splits)
  then have nxt: "next_job_id (svc_jobs s2) = next_job_id (svc_jobs s) + 1"
    using subscription_steady [OF c] by (simp add: steady_def)
  have "jobs_open E h m s = send_reply E h m
      (JObj (put_ok @ [(''jobID'', JInt (job_id job))] @ put_subscribed b)) s2"
    using assms(3-6) op c by (simp add: jobs_open_def)
  then show ?thesis
    using find src nxt open_silent(4) [OF op assms(2,1)]
    by (intro exI [of _ job]) (simp add: send_reply_def on_world_def)
qed

lemma sample_reachable:
  obtains s job where "reachable open_env s" "find_job s 1 = Some job" "svc_browse_source s \<noteq> 0"
proof -
  let ?o = "JObj [(''printerID'', JStr ''Office''), (''description'', JStr ''d''),
     (''appName'', JStr ''a''), (''jobID'', JInt 1)]"
  obtain s w where c: "print_service_create open_env [] = (Some s, w)" "svc_browse_source s \<noteq> 0"
    using open_env_create by blast
  have parse: "parse open_env m = Some ?o" for m
    by (simp add: open_env_def parse_def luna_service_message_parse_and_validate_def sample_env_with_def sample_env_def)
  have str: "luna_get_string ?o ''printerID'' = Some ''Office''" "luna_get_string ?o ''description'' = Some ''d''"
    "luna_get_string ?o ''appName'' = Some ''a''"
    by (simp_all add: luna_get_string_def c_string_def)
  have next1: "next_job_id (svc_jobs s) = 1" "ids_left (svc_jobs s)"
    using created_inv(3) [OF c(1)] by (simp_all add: ids_left_def)
  let ?t = "jobs_open open_env Bus_legacy sample_message s"
  obtain job where "find_job ?t = (find_job s)(1 \<mapsto> job)" "svc_browse_source ?t = svc_browse_source s"
    and next2: "next_job_id (svc_jobs ?t) = 2"
    using jobs_open_find [OF created_inv(1) [OF c(1)] next1(2) parse str] next1(1) by force
  moreover have "handler_of Bus_legacy ''/jobs'' ''open'' = Some jobs_open"
    by (simp add: handler_of_def job_methods_def)
  then have "svc_step open_env s ?t"
    by (rule svc_step.message) (simp add: ids_left_def next2)
  then have "reachable open_env ?t"
    by (rule reachable.step [OF reachable.created [OF c(1)]])
  ultimately show ?thesis using that c(2) by simp
qed

section \<open>Properties\<close>

text \<open>
  C1: Every method of the three categories answers its message with exactly one reply, to that
  message, in every state the service can reach: either a success or an error whose code is a
  documented one and whose text is the text of the code.
\<close>

theorem one_reply:
  assumes "env_ok E" "reachable E s" "handler_of h cat meth = Some f"
  shows "\<exists>r. proper_reply r \<and> replies (svc_world (f E h m s)) = replies (svc_world s) @ [Reply h m r]"
  using handler_answers [OF assms(1,3)] reachable_inv [OF assms(2,1)]
  by (auto simp: answered_def)

theorem one_reply_witness:
  "\<exists>s r. reachable open_env s \<and> proper_reply r \<and>
     replies (svc_world (jobs_cancel open_env Bus_legacy sample_message s))
       = replies (svc_world s) @ [Reply Bus_legacy sample_message r]"
proof -
  obtain s job where s: "reachable open_env s" "find_job s 1 = Some job" "svc_browse_source s \<noteq> 0"
    by (rule sample_reachable)
  have "handler_of Bus_legacy ''/jobs'' ''cancel'' = Some jobs_cancel"
    by (simp add: handler_of_def job_methods_def)
  from one_reply [OF open_env_ok s(1) this] show ?thesis using s(1) by blast
qed

text \<open>
  C2: Over any run of the service no job of a reachable state is lost and none is replaced: it keeps
  its number, printer, description and directory, its phase only goes forward (open, submitted, done,
  cancelled), its lists of pages and scratch files only grow, and once it is no longer open its
  parameters, its pages and its CUPS job stay what they are. A number that is free again is not
  reused. (A run is one in which the counter of jobs does not overflow: the steps of \<open>svc_step\<close> stop at
  2147483645 jobs.)
\<close>

theorem job_lifecycle:
  assumes "env_ok E" "reachable E s" "(svc_step E)\<^sup>*\<^sup>* s t"
  shows "(\<forall>k i. find_job s k = Some i \<longrightarrow> (\<exists>j. find_job t k = Some j \<and> job_evolves i j)) \<and>
    (\<forall>k. k < next_job_id (svc_jobs s) \<longrightarrow> find_job s k = None \<longrightarrow> find_job t k = None)"
  using run_keeps [OF assms(3,1,2)] by (simp add: keeps_def)

theorem job_lifecycle_witness:
  "\<exists>s i j. reachable open_env s \<and> find_job s 1 = Some i \<and>
     find_job (browse_printers open_env s) 1 = Some j \<and> job_evolves i j"
proof -
  obtain s i where s: "reachable open_env s" "find_job s 1 = Some i" "svc_browse_source s \<noteq> 0"
    by (rule sample_reachable)
  have "(svc_step open_env)\<^sup>*\<^sup>* s (browse_printers open_env s)"
    using svc_step.browse [OF s(3)] by blast
  from job_lifecycle [OF open_env_ok s(1) this] show ?thesis using s by blast
qed

text \<open>
  C3: No job ends in silence: in every reachable state, each job that is over (done or cancelled)
  has had a final state, DONE with an outcome, posted under its number to the subscribers of
  \<open>getStatus\<close>.
\<close>

theorem final_state_announced:
  assumes "env_ok E" "reachable E s" "find_job s k = Some j" "phase j \<in> {JOB_PHASE_DONE, JOB_PHASE_CANCELLED}"
  shows "\<exists>job outcome blocked now. job_id job = k \<and>
    Post Bus_legacy CAT_JOBS METHOD_GET_STATUS (job_state_json job ''DONE'' (Some outcome) blocked now)
      \<in> set (svc_world s)"
proof -
  have "announced k (svc_world s)"
    using reachable_inv [OF assms(2,1)] assms(3,4) unfolding svc_inv_def by blast
  then show ?thesis by (auto simp: announced_def final_post_def)
qed

theorem final_state_announced_witness:
  "\<exists>s job outcome blocked now. reachable open_env s \<and> job_id job = 1 \<and>
     Post Bus_legacy CAT_JOBS METHOD_GET_STATUS (job_state_json job ''DONE'' (Some outcome) blocked now)
       \<in> set (svc_world s)"
proof -
  obtain s job where s: "reachable open_env s" "find_job s 1 = Some job" "svc_browse_source s \<noteq> 0"
    by (rule sample_reachable)
  let ?t = "jobs_cancel open_env Bus_legacy sample_message s"
  let ?j = "job\<lparr>phase := JOB_PHASE_CANCELLED\<rparr>"
  have id: "job_id job = 1"
    using find_job_id reachable_inv [OF s(1) open_env_ok] s(2) by blast
  obtain parsed where parsed: "parse open_env sample_message = Some parsed" "luna_get_int parsed ''jobID'' = Some 1"
    by (simp add: open_env_def parse_def luna_service_message_parse_and_validate_def sample_env_with_def
        sample_env_def luna_get_int_def jis_number_def)
  let ?u = "if phase job = JOB_PHASE_SUBMITTED \<and> 0 < cups_job_id job
    then s\<lparr>svc_world := svc_world s @ [Cups_cancel_job (job_printer_id job) (cups_job_id job)]\<rparr> else s"
  have "(if phase job = JOB_PHASE_SUBMITTED \<and> 0 < cups_job_id job
      then call (cups_backend_cancel open_env (job_printer_id job) (cups_job_id job)) s else (True, s)) = (True, ?u)"
    by (simp add: call_def cups_backend_cancel_def open_env_def sample_env_with_def sample_env_def)
  then have t: "?t = reply_success Bus_legacy sample_message
      (post_job_state open_env ?j ''DONE'' (Some ''Cancelled'') [] (put_job ?j ?u))"
    unfolding jobs_cancel_def with_job_found [OF parsed s(2)] by (simp add: Let_def)
  have find: "find_job ?t 1 = Some ?j"
    unfolding t reply_eqs(2) [OF open_env_ok] put_post using id by (simp add: find_job_def put_job_def)
  have "handler_of Bus_legacy ''/jobs'' ''cancel'' = Some jobs_cancel"
    by (simp add: handler_of_def job_methods_def)
  moreover have "svc_jobs (post_job_state open_env ?j ''DONE'' (Some ''Cancelled'') [] u) = svc_jobs u" for u
    using post_state_steady [of u open_env ?j "''DONE''" "Some ''Cancelled''" "[]"] by (simp only: steady_def)
  then have "ids_left (svc_jobs ?t)"
    using reachable_inv [OF s(1) open_env_ok] unfolding t reply_eqs(2) [OF open_env_ok] put_post
    by (simp add: put_job_def)
  ultimately have "reachable open_env ?t"
    by (rule reachable.step [OF s(1) svc_step.message])
  with final_state_announced [OF open_env_ok this find] show ?thesis by simp blast
qed

text \<open>
  C4: In every reachable state each job is filed under its own number, its parameters are ones the
  validation accepts (between 1 and 99 copies), and a job that waits for CUPS has a positive CUPS
  number, at least one page, and a poll timer that is running for it.
\<close>

theorem jobs_well_formed:
  assumes "env_ok E" "reachable E s" "find_job s k = Some j"
  shows "job_id j = k \<and> 1 \<le> k \<and> k < next_job_id (svc_jobs s) \<and> params_valid (params j) \<and>
    (phase j = JOB_PHASE_SUBMITTED \<longrightarrow> 0 < cups_job_id j \<and> files j \<noteq> [] \<and> svc_poll_source s \<noteq> 0)"
proof -
  have inv: "svc_inv s" using reachable_inv [OF assms(2,1)] by blast
  then have "jm_inv (svc_jobs s)" "job_manager_find (svc_jobs s) k = Some j"
    using assms(3) by (simp_all add: svc_inv_def find_job_def)
  then show ?thesis
    using jm_invD [of "svc_jobs s" k j] inv assms(3) by (auto simp: svc_inv_def job_ok_def)
qed

theorem jobs_well_formed_witness:
  "\<exists>s j. reachable open_env s \<and> find_job s 1 = Some j \<and> job_id j = 1 \<and> params_valid (params j)"
proof -
  obtain s i where s: "reachable open_env s" "find_job s 1 = Some i" "svc_browse_source s \<noteq> 0"
    by (rule sample_reachable)
  from jobs_well_formed [OF open_env_ok s(1,2)] show ?thesis using s by blast
qed

text \<open>
  C12: Waiting ends. As soon as CUPS is through with the jobs that wait (whenever it is asked from now
  on, each is canceled, aborted, completed or forgotten), the next poll ends every one of them, and
  the poll after it stops the timer. No job is lost, replaced or added by the poll, and a job that was not
  waiting is not touched.
\<close>

theorem polls_settle:
  assumes "env_ok E" "reachable E s" "settled E s" "t = snd (poll_jobs E s)"
  shows "(\<forall>k i. find_job s k = Some i \<longrightarrow> phase i = JOB_PHASE_SUBMITTED \<longrightarrow>
      (\<exists>j. find_job t k = Some j \<and> job_evolves i j \<and> phase j = JOB_PHASE_DONE)) \<and>
    (\<forall>k i. find_job s k = Some i \<longrightarrow> phase i \<noteq> JOB_PHASE_SUBMITTED \<longrightarrow> find_job t k = Some i) \<and>
    (\<forall>k. find_job s k = None \<longrightarrow> find_job t k = None) \<and>
    \<not> fst (poll_jobs E t) \<and> svc_poll_source (snd (poll_jobs E t)) = 0"
proof -
  have inv: "svc_inv s" using reachable_inv [OF assms(2,1)] by blast
  note poll = poll_final [OF assms(1) inv assms(3), folded assms(4)]
  have "keeps s t" using poll_silent [OF assms(1), of s] inv assms(4) by (simp add: silent_def)
  then have evolves: "job_evolves i j" if "find_job s k = Some i" "find_job t k = Some j" for k i j
    using that by (fastforce simp: keeps_def)
  have waited: "\<exists>j. find_job t k = Some j \<and> job_evolves i j \<and> phase j = JOB_PHASE_DONE"
    if "find_job s k = Some i" "phase i = JOB_PHASE_SUBMITTED" for k i
    using poll [of k] that evolves [OF that(1)] by (auto simp: polled_def)
  have other: "find_job t k = find_job s k"
    if "\<And>i. find_job s k = Some i \<Longrightarrow> phase i \<noteq> JOB_PHASE_SUBMITTED" for k
    using poll [of k] that by (auto simp: polled_def split: if_splits)
  have "phase j \<noteq> JOB_PHASE_SUBMITTED" if "find_job t k = Some j" for k j
    using poll [of k] that by (auto simp: polled_def split: if_splits)
  then have idle: "\<not> fst (poll_jobs E t) \<and> svc_poll_source (snd (poll_jobs E t)) = 0"
    by (rule poll_idle)
  have kept: "find_job t k = Some i" if "find_job s k = Some i" "phase i \<noteq> JOB_PHASE_SUBMITTED" for k i
    using other [of k] that by simp
  have "find_job t k = None" if "find_job s k = None" for k
    using other [of k] that by simp
  then show ?thesis using waited kept idle by blast
qed

text \<open>A sample in which a job was submitted, and CUPS has completed its job when it is asked.\<close>

definition printing_env :: "sample_store env" where
  "printing_env = (sample_env_with [(''printerID'', JStr ''Office''), (''description'', JStr ''d''),
     (''appName'', JStr ''a''), (''pathNames'', JArr [JStr ''a''])])
     \<lparr>cups_get_jobs := (\<lambda>w n a. [\<lparr>cj_id = 7, cj_dest = n, cj_title = None, cj_state = 9\<rparr>])\<rparr>"

lemma printing_env_ok: "env_ok printing_env"
  by (simp add: printing_env_def env_ok_def sample_env_with_def sample_env_def)

lemma printing_submits: "\<exists>v. cups_backend_submit printing_env p t [''a''] q w = (Inr 7, v)"
  by (simp add: printing_env_def sample_env_with_def cups_backend_submit_def submit_file_def
      cups_backend_detect_format_def sniff_def write_chunks.simps fread_def readable_def sample_env_def Let_def split_beta)

lemma add_paths_next: "next_job_id (svc_jobs (snd (add_paths E items job s))) = next_job_id (svc_jobs s)"
proof (induction items arbitrary: job s)
  case (Cons item items)
  show ?case
  proof (cases item)
    case (JStr buf)
    obtain r u where c: "call (check_path E (c_string buf)) s = (r, u)" by fastforce
    then show ?thesis
      using JStr Cons check_path_steady(1) [OF c] by (auto simp: Let_def steady_def put_job_def split: option.split)
  qed simp_all
qed simp

lemma submit_next: "next_job_id (svc_jobs (snd (submit_job E job s))) = next_job_id (svc_jobs s)"
proof -
  obtain r t where sub: "submit_job E job s = (r, t)" by fastforce
  then show ?thesis
    by (cases rule: submit_job_cases) (auto simp: sub steady_def ensure_polling_def put_job_def)
qed

lemma printing_reachable:
  obtains s job where "reachable printing_env s" "find_job s 1 = Some job" "phase job = JOB_PHASE_SUBMITTED"
proof -
  let ?E = printing_env
  let ?o = "JObj [(''printerID'', JStr ''Office''), (''description'', JStr ''d''),
     (''appName'', JStr ''a''), (''pathNames'', JArr [JStr ''a''])]"
  obtain s w where c: "print_service_create ?E [] = (Some s, w)"
    by (simp add: print_service_create_def legacy_setup_def setup_ports_def ports_setup_def Let_def split_beta
      job_manager_new_def printer_db_open_def cups_backend_enumerate_def printing_env_def sample_env_with_def sample_env_def)
  note inv = created_inv(1) [OF c]
  have next1: "next_job_id (svc_jobs s) = 1" "ids_left (svc_jobs s)"
    using created_inv(3) [OF c] by (simp_all add: ids_left_def)
  let ?t = "jobs_all_at_once ?E Bus_legacy sample_message s"
  have t: "?t = all_at_once_run ?E Bus_legacy sample_message ?o [JStr ''a''] ''Office'' ''d'' ''a'' s"
    by (simp add: jobs_all_at_once_def printing_env_def parse_def luna_service_message_parse_and_validate_def
        sample_env_with_def sample_env_def luna_get_string_def c_string_def path_array_def)
  obtain job0 s0 where o0: "open_job ?E ''Office'' ''d'' ''a'' s = (job0, s0)" by fastforce
  have "job_manager_open ?E (svc_jobs s) ''Office'' ''d'' ''a'' (svc_world s)
      = (job0, svc_jobs s0, svc_world s0)"
    using o0 by (auto simp: open_job_def split: prod.splits)
  note op = open_fresh_job [OF _ next1(2) this]
  have jm: "jm_inv (svc_jobs s)" using inv by (simp add: svc_inv_def)
  have files0: "files job0 = []" using op(1) [OF jm] by simp
  have "check_path ?E p v = (None, v @ [Stat p, Open_read p])" for p v
    by (simp add: check_path_def printing_env_def sample_env_with_def sample_env_def cups_backend_detect_format_def
        sniff_def fread_def readable_def)
  then obtain job1 s1 where a: "add_paths ?E [JStr ''a''] job0 (put_job job0 s0) = (Inr job1, s1)" "files job1 = [''a'']"
    using files0 by (simp add: call_def c_string_def Let_def)
  let ?j = "job1\<lparr>total_pages := int (length [JStr ''a''])\<rparr>"
  obtain r s2 where sub: "submit_job ?E ?j (put_job ?j s1) = (r, s2)" by fastforce
  have "r = Inr ()"
  proof -
    obtain caps u where u: "call (cups_backend_get_caps ?E (job_printer_id ?j)) (put_job ?j s1) = (caps, u)" by fastforce
    obtain v where "cups_backend_submit ?E (job_printer_id ?j) (Some (description ?j)) [''a'']
        (build_cups_params (oor ?E) ?j (case caps of Inl _ \<Rightarrow> 0 | Inr c \<Rightarrow> caps_max_resolution c)) (svc_world u) = (Inr 7, v)"
      using printing_submits by blast
    then show ?thesis
      using sub a(2) u by (auto simp: submit_job_def Let_def call_def split: prod.splits)
  qed
  then have reply: "?t = send_reply ?E Bus_legacy sample_message (JObj (put_ok @ [(''jobID'', JInt (job_id ?j))])) s2"
    unfolding t using o0 a(1) sub by (simp add: all_at_once_run_def Let_def luna_get_bool_def)
  have "\<not> replied Bus_legacy sample_message (err_json e) s ?t" for e
    unfolding reply by (simp add: reply_eqs [OF printing_env_ok] replied_def err_json_def put_ok_def)
  then obtain j where j: "find_job ?t = (find_job s)(1 \<mapsto> j)" "phase j = JOB_PHASE_SUBMITTED"
    using all_at_once_run_outcomes [OF printing_env_ok inv next1(2) t] next1(1) by auto
  have "next_job_id (svc_jobs s2) = 2"
    using submit_next [of ?E ?j "put_job ?j s1"] add_paths_next [of ?E "[JStr ''a'']" job0 "put_job job0 s0"]
      sub a(1) op(5) [OF jm] next1(1) by (simp add: put_job_def)
  then have left: "ids_left (svc_jobs ?t)"
    unfolding reply by (simp add: reply_eqs [OF printing_env_ok] ids_left_def)
  have "handler_of Bus_legacy ''/jobs'' ''allAtOnce'' = Some jobs_all_at_once"
    by (simp add: handler_of_def job_methods_def)
  then have "reachable ?E ?t"
    using left by (rule reachable.step [OF reachable.created [OF c] svc_step.message])
  then show ?thesis using that j by simp
qed

theorem polls_settle_witness:
  "\<exists>s i j. reachable printing_env s \<and> find_job s 1 = Some i \<and> phase i = JOB_PHASE_SUBMITTED \<and>
     find_job (snd (poll_jobs printing_env s)) 1 = Some j \<and> phase j = JOB_PHASE_DONE"
proof -
  obtain s job where s: "reachable printing_env s" "find_job s 1 = Some job" "phase job = JOB_PHASE_SUBMITTED"
    by (rule printing_reachable)
  have "settled printing_env s"
    by (auto simp: settled_def cups_backend_get_job_state_def printing_env_def sample_env_with_def sample_env_def
        Let_def split: option.split)
  from polls_settle [OF printing_env_ok s(1) this refl] s show ?thesis by blast
qed



text \<open>
  C17: In every reachable state no two scratch files of the service have the same path, neither of
  one job nor of two jobs, and every one lies in the directory of its job under the spool directory.
\<close>

theorem temp_files_apart:
  assumes "env_ok E" "reachable E s" "find_job s k = Some a" "find_job s l = Some b"
  shows "distinct (temp_files a) \<and> (k \<noteq> l \<longrightarrow> set (temp_files a) \<inter> set (temp_files b) = {}) \<and>
    (\<forall>path \<in> set (temp_files a). \<exists>n ext. path = page_path (job_dir (spool_root (svc_jobs s)) k) n ext)"
proof -
  have jm: "jm_inv (svc_jobs s)" using reachable_inv [OF assms(2,1)] by (simp add: svc_inv_def)
  have ab: "job_manager_find (svc_jobs s) k = Some a" "job_manager_find (svc_jobs s) l = Some b"
    using assms(3,4) by (simp_all add: find_job_def)
  note a = jm_invD [OF jm ab(1)]
  have "distinct (temp_files a)" using job_wf_distinct [OF a(4)] a(1,2) by simp
  moreover have "k \<noteq> l \<longrightarrow> set (temp_files a) \<inter> set (temp_files b) = {}"
    using temp_file_owner_unique [OF jm ab] by blast
  moreover have "\<exists>n ext. path = page_path (job_dir (spool_root (svc_jobs s)) k) n ext"
    if "path \<in> set (temp_files a)" for path
    using job_wf_nth [OF a(4) that] a(1) by metis
  ultimately show ?thesis by blast
qed

theorem temp_files_apart_witness:
  "\<exists>s a. reachable open_env s \<and> find_job s 1 = Some a \<and> distinct (temp_files a)"
proof -
  obtain s i where s: "reachable open_env s" "find_job s 1 = Some i" "svc_browse_source s \<noteq> 0"
    by (rule sample_reachable)
  from temp_files_apart [OF open_env_ok s(1,2,2)] show ?thesis using s by blast
qed

text \<open>
  C25: What is sent to CUPS for a job with valid parameters: after the capabilities of the printer were
  asked for, the CUPS job is created under the job's description with every parameter in its IPP form:
  the medium, the copies, the duplex and colour mode of the keyword, the quality of the keyword
  except for Auto, for MaxDpi (and only then) the highest resolution per inch that the printer reported,
  fitting exactly for autoScale, and for each side the margin of zero on a borderless job, the
  client's in hundredths of a millimetre when insets were set, and none otherwise.
\<close>

theorem submitted_options:
  assumes "params_valid (params job)" "files job \<noteq> []" "submit_job E job s = (r, t)"
    and "cups_backend_get_caps E (job_printer_id job) (svc_world s) = (caps, w)"
  shows "\<exists>opts es best. svc_world t = w @ Cups_create_job (job_printer_id job) (description job) opts # es \<and>
    (if \<exists>c. caps = Inr c then resolution_reported E (svc_world s) w best else best = 0) \<and>
    (let p = params job; opt = map_of opts in
      opt ''media'' = pm_media_webos_to_pwg (Some (media_size p))
    \<and> opt ''media-type'' = pm_mediatype_webos_to_ipp (Some (media_type p))
    \<and> opt ''media-source'' = pm_tray_webos_to_ipp (Some (tray p))
    \<and> opt ''copies'' = Some (show_int (num_copies p))
    \<and> opt ''sides'' = Some (if duplex p = ''None'' then ''one-sided''
        else if duplex p = ''Book'' then ''two-sided-long-edge'' else ''two-sided-short-edge'')
    \<and> opt ''print-color-mode'' = Some (if color p = ''Mono'' then ''monochrome'' else ''color'')
    \<and> opt ''print-quality'' = (if print_quality p = ''Auto'' then None
        else if print_quality p = ''Fast'' then Some ''3'' else if print_quality p = ''Normal'' then Some ''4''
        else Some ''5'')
    \<and> opt ''printer-resolution'' =
        (if print_quality p = ''MaxDpi'' \<and> 0 < best then Some (show_int best @ ''dpi'') else None)
    \<and> opt ''print-scaling'' = Some (if auto_scale p then ''auto'' else ''none'')
    \<and> (\<forall>(side, inset) \<in> {(''media-top-margin'', top_inset p), (''media-left-margin'', left_inset p),
          (''media-right-margin'', right_inset p), (''media-bottom-margin'', bottom_inset p)}.
        opt side = (if borderless p then Some ''0''
          else if insets_set p then Some (show_int (margin_units (oor E) inset)) else None)))"
proof -
  let ?p = "params job"
  define best where "best = (case caps of Inl _ \<Rightarrow> 0 | Inr c \<Rightarrow> caps_max_resolution c)"
  define c where "c = build_cups_params (oor E) job best"
  have best: "if \<exists>c. caps = Inr c then resolution_reported E (svc_world s) w best else best = 0"
    using assms(4) get_caps_resolution by (cases caps) (auto simp: best_def)
  have valid: "pm_duplex_is_valid (Some (duplex ?p))" "pm_color_is_valid (Some (color ?p))"
    "pm_quality_is_valid (Some (print_quality ?p))" "1 \<le> num_copies ?p"
    using assms(1) by (simp_all add: params_valid_def)
  have sides: "pm_duplex_webos_to_ipp (Some (duplex ?p)) = Some (if duplex ?p = ''None'' then ''one-sided''
        else if duplex ?p = ''Book'' then ''two-sided-long-edge'' else ''two-sided-short-edge'')"
    using valid(1) by (auto simp: table_defs duplex_table_def in_table_def lookup_fwd_def split: if_splits)
  have color: "pm_color_webos_to_ipp (Some (color ?p)) = Some (if color ?p = ''Mono'' then ''monochrome'' else ''color'')"
    using valid(2) by (auto simp: table_defs color_table_def in_table_def lookup_fwd_def split: if_splits)
  have digits: "show_int 3 = ''3''" "show_int 4 = ''4''" "show_int 5 = ''5''" by code_simp+
  have quality: "(if pm_quality_webos_to_ipp (Some (print_quality ?p)) \<noteq> 0
      then Some (show_int (pm_quality_webos_to_ipp (Some (print_quality ?p)))) else None) =
    (if print_quality ?p = ''Auto'' then None else if print_quality ?p = ''Fast'' then Some ''3''
      else if print_quality ?p = ''Normal'' then Some ''4'' else Some ''5'')"
    using valid(3) by (auto simp: pm_quality_is_valid_def in_table_def pm_quality_webos_to_ipp_def digits
        split: if_splits)
  have entries: "cp_media c = pm_media_webos_to_pwg (Some (media_size ?p))"
    "cp_media_type c = pm_mediatype_webos_to_ipp (Some (media_type ?p))"
    "cp_media_source c = pm_tray_webos_to_ipp (Some (tray ?p))"
    "cp_copies c = num_copies ?p" "cp_sides c = pm_duplex_webos_to_ipp (Some (duplex ?p))"
    "cp_color_mode c = pm_color_webos_to_ipp (Some (color ?p))"
    "cp_print_scaling c = Some (if auto_scale ?p then ''auto'' else ''none'')"
    "cp_quality c = pm_quality_webos_to_ipp (Some (print_quality ?p))"
    "cp_resolution c = (if print_quality ?p = ''MaxDpi'' then best else 0)"
    by (simp_all add: c_def build_cups_params_def Let_def)
  have margins: "map_of (add_options c) side = (if borderless ?p then Some ''0''
      else if insets_set ?p then Some (show_int (margin_units (oor E) inset)) else None)"
    if "(side, inset) \<in> {(''media-top-margin'', top_inset ?p), (''media-left-margin'', left_inset ?p),
          (''media-right-margin'', right_inset ?p), (''media-bottom-margin'', bottom_inset ?p)}" for side inset
    using that by (auto simp: margin_lookup c_def build_cups_params_def Let_def)
  obtain s1 where s1: "call (cups_backend_get_caps E (job_printer_id job)) s = (caps, s1)" "svc_world s1 = w"
    using assms(4) by (simp add: call_def)
  obtain r2 v where sub: "cups_backend_submit E (job_printer_id job) (Some (description job)) (files job) c w = (r2, v)"
    by fastforce
  then obtain es where es: "v = w @ Cups_create_job (job_printer_id job) (description job) (add_options c) # es"
    using submit_creates [OF assms(2)] by blast
  have later: "\<exists>fs. svc_world t = v @ fs"
    using assms(2,3) s1 sub unfolding c_def best_def
    by (auto simp: submit_job_def Let_def call_def post_job_state_def get_time_def on_world_def post_def
        luna_service_post_subscription_def ensure_polling_def put_job_def split: sum.splits)
  then obtain fs where world: "svc_world t = w @ Cups_create_job (job_printer_id job) (description job) (add_options c) # (es @ fs)"
    unfolding es by auto
  have quality_sent: "map_of (add_options c) ''print-quality'' = (if print_quality ?p = ''Auto'' then None
        else if print_quality ?p = ''Fast'' then Some ''3'' else if print_quality ?p = ''Normal'' then Some ''4''
        else Some ''5'')"
    unfolding option_lookup entries quality ..
  have best_sent: "map_of (add_options c) ''printer-resolution'' =
      (if print_quality ?p = ''MaxDpi'' \<and> 0 < best then Some (show_int best @ ''dpi'') else None)"
    unfolding option_lookup entries by simp
  have copies_sent: "map_of (add_options c) ''copies'' = Some (show_int (num_copies ?p))"
    using valid(4) by (simp only: option_lookup entries) simp
  have margins_sent: "\<forall>(side, inset) \<in> {(''media-top-margin'', top_inset ?p), (''media-left-margin'', left_inset ?p),
          (''media-right-margin'', right_inset ?p), (''media-bottom-margin'', bottom_inset ?p)}.
      map_of (add_options c) side = (if borderless ?p then Some ''0''
        else if insets_set ?p then Some (show_int (margin_units (oor E) inset)) else None)"
    using margins by blast
  show ?thesis
    unfolding Let_def
    by (rule exI [of _ "add_options c"], rule exI [of _ "es @ fs"], rule exI [of _ best])
      (intro conjI best world copies_sent quality_sent best_sent margins_sent;
        simp only: option_lookup entries sides color)
qed

theorem submitted_options_witness:
  "\<exists>opts es. svc_world (snd (submit_job sample_env (sample_job\<lparr>files := [''a'']\<rparr>) sample_service)) =
     snd (cups_backend_get_caps sample_env ''Office'' []) @ Cups_create_job ''Office'' ''doc'' opts # es \<and>
     map_of opts ''sides'' = Some ''one-sided''"
proof -
  let ?j = "sample_job\<lparr>files := [''a'']\<rparr>"
  have j: "params_valid (params ?j)" "files ?j \<noteq> []" "job_printer_id ?j = ''Office''" "description ?j = ''doc''"
    "duplex (params ?j) = ''None''" "svc_world sample_service = []"
    using params_valid_init by (simp_all add: sample_job_def sample_service_def) (simp_all add: print_params_init_def)
  obtain r t where sub: "submit_job sample_env ?j sample_service = (r, t)" by fastforce
  obtain caps w where caps: "cups_backend_get_caps sample_env (job_printer_id ?j) (svc_world sample_service) = (caps, w)"
    by fastforce
  from submitted_options [OF j(1,2) sub caps] obtain opts es where
    o: "svc_world t = w @ Cups_create_job ''Office'' ''doc'' opts # es" "map_of opts ''sides'' = Some ''one-sided''"
    unfolding Let_def j(3-5) by (elim exE conjE) (rule that; simp only: simp_thms if_True)
  have "snd (submit_job sample_env ?j sample_service) = t" "snd (cups_backend_get_caps sample_env ''Office'' []) = w"
    using sub caps unfolding j(3,6) by (simp_all only: snd_conv)
  with o show ?thesis by (simp only:) blast
qed

text \<open>
  C39: Every media size the validation accepts has dimensions, with the one exception of the keyword
  \<open>None\<close>, for which every request for an area is refused as a bad media size.
\<close>

theorem valid_media_have_dimensions:
  "(pm_media_is_valid (Some m) \<longleftrightarrow> (\<exists>size. media_lookup (Some m) = Some size) \<or> m = ''None'')
   \<and> job_compute_area conv (Some ''None'') p u = Inl PM_ERR_BAD_MEDIA_SIZE"
proof -
  have "media_lookup (Some ''None'') = None"
    by (simp add: media_lookup_def media_dims_def)
  moreover have "in_table t (Some m) \<longleftrightarrow> m \<in> set (map kv_webos t)" for t
    by (induction t) (auto simp: in_table_def)
  then have "pm_media_is_valid (Some m) \<longleftrightarrow> m \<in> set (map kv_webos media_table)"
    by (simp only: table_defs)
  moreover have "map kv_webos media_table = map fst media_dims @ [''None'']"
    by (simp add: media_table_def media_dims_def)
  ultimately have "pm_media_is_valid (Some m) \<longleftrightarrow> m \<in> set (map fst media_dims) \<or> m = ''None''"
    by (simp only: set_append) auto
  moreover have "(\<exists>size. media_lookup (Some m) = Some size) \<longleftrightarrow> m \<in> set (map fst media_dims)"
    unfolding media_lookup_def option.case not_None_eq [symmetric]
    by (simp only: map_of_eq_None_iff set_map not_not)
  moreover have "job_compute_area conv (Some ''None'') p u = Inl PM_ERR_BAD_MEDIA_SIZE"
    by (simp add: job_compute_area_def media_lookup_def media_dims_def)
  ultimately show ?thesis by blast
qed

text \<open>
  C38: The service never learns the name of the wireless network it is on: in every reachable state
  \<open>listAddedPrinters\<close> answers with all the printers, whether or not \<open>ssidAll\<close> was asked for.
\<close>

theorem network_scope_void:
  assumes "env_ok E" "reachable E s" "parse E m = Some parsed"
  shows "printers_list_added E h m s = send_reply E h m
    (JObj (put_ok @ [(''addList'', JArr (map added_json (printer_db_list E (svc_db s) None)))])) s"
  using reachable_inv [OF assms(2,1)] by (simp add: printers_list_added_def assms(3) Let_def)

theorem network_scope_void_witness:
  "\<exists>s. reachable open_env s \<and> printers_list_added open_env Bus_legacy sample_message s =
     send_reply open_env Bus_legacy sample_message
       (JObj (put_ok @ [(''addList'', JArr (map added_json (printer_db_list open_env (svc_db s) None)))])) s"
proof -
  obtain s i where s: "reachable open_env s" "find_job s 1 = Some i" "svc_browse_source s \<noteq> 0"
    by (rule sample_reachable)
  have "\<exists>p. parse open_env sample_message = Some p"
    by (simp add: open_env_def parse_def luna_service_message_parse_and_validate_def sample_env_with_def sample_env_def)
  then show ?thesis using network_scope_void [OF open_env_ok s(1)] s(1) by blast
qed

text \<open>
  C37: When the store cannot be written, \<open>delete\<close> tells the client that the printer is unknown, and yet
  the printer is gone from the list until the service is started again.
\<close>

theorem unsaved_delete_takes_effect:
  assumes "env_ok E" "keyfile_ok E good" "parse E m = Some parsed" "luna_get_string parsed ''printerID'' = Some pid"
    and "luna_get_string parsed ''ssid'' = None" "pid \<noteq> GROUP_SETTINGS" "store_has E (svc_db s) pid"
    and "\<And>w kf p. \<not> kf_save E w kf p"
  shows "replied h m (err_json PM_ERR_PRINTER_UNKNOWN_ID) s (printers_delete E h m s) \<and>
    pid \<notin> rec_printer_id ` set (printer_db_list E (svc_db (printers_delete E h m s)) None)"
proof -
  let ?db = "svc_db s"
  have has: "kf_has_group E (db_keyfile ?db) pid" using assms(7) by (simp add: store_has_def)
  obtain kf1 where rm: "kf_remove_group E (db_keyfile ?db) pid = Some kf1"
    and left: "\<And>g. kf_has_group E kf1 g \<longleftrightarrow> g \<noteq> pid \<and> kf_has_group E (db_keyfile ?db) g"
    by (rule keyfile_ok_remove [OF assms(2) has]) (rule that; assumption)
  obtain b db' w' where del: "printer_db_delete E ?db pid None (svc_world s) = (b, db', w')"
    by (rule fst3E [OF refl])
  have out: "\<not> b" "db' = ?db\<lparr>db_keyfile := cleared_keyfile E kf1 pid\<rparr>"
    "w' = svc_world s @ [Keyfile_save (db_path ?db)]"
    using del has rm assms(8) by (auto simp: printer_db_delete_def Let_def db_flush_def cleared_keyfile_def)
  have gone: "printers_of E db' pid = None"
    by (simp add: out(2) printers_of_def store_has_def cleared_keyfile_def left keyfile_okD(8) [OF assms(2)])
  have t: "printers_delete E h m s = reply_err E h m PM_ERR_PRINTER_UNKNOWN_ID (s\<lparr>svc_db := db', svc_world := w'\<rparr>)"
    using assms(3-5) del out(1) by (simp add: printers_delete_def db_delete_def Let_def)
  have "rec_printer_id r = g" if "printers_of E db' g = Some r" for g r
    using that by (auto simp: printers_of_def record_of_def split: if_splits)
  then have "pid \<notin> rec_printer_id ` set (printer_db_list E db' None)"
    using gone unfolding list_all_ran [OF assms(2)] by (auto simp: ran_def)
  then show ?thesis
    unfolding t by (simp add: reply_eqs [OF assms(1)] replied_def out(3) is_reply_def replies_def)
qed

definition unsaved_env :: "sample_store env" where
  "unsaved_env = (sample_env_with [(''printerID'', JStr ''A'')])\<lparr>kf_save := (\<lambda>w kf p. False)\<rparr>"

theorem unsaved_delete_takes_effect_witness:
  "let s = sample_service\<lparr>svc_db := sample_db\<lparr>db_keyfile := [(''A'', [])]\<rparr>\<rparr>
   in store_has unsaved_env (svc_db s) ''A'' \<and>
      replied Bus_legacy sample_message (err_json PM_ERR_PRINTER_UNKNOWN_ID) s (printers_delete unsaved_env Bus_legacy sample_message s)"
proof -
  let ?s = "sample_service\<lparr>svc_db := sample_db\<lparr>db_keyfile := [(''A'', [])]\<rparr>\<rparr>"
  have ok: "env_ok unsaved_env"
    by (simp add: unsaved_env_def env_ok_def sample_env_with_def sample_env_def)
  have kf: "keyfile_ok unsaved_env (\<lambda>g. True)"
    using sample_keyfile_ok by (simp add: unsaved_env_def sample_env_with_def)
  have parse: "parse unsaved_env sample_message = Some (JObj [(''printerID'', JStr ''A'')])"
    by (simp add: unsaved_env_def parse_def luna_service_message_parse_and_validate_def sample_env_with_def sample_env_def)
  have str: "luna_get_string (JObj [(''printerID'', JStr ''A'')]) ''printerID'' = Some ''A''"
    "luna_get_string (JObj [(''printerID'', JStr ''A'')]) ''ssid'' = None"
    by (simp_all add: luna_get_string_def c_string_def)
  have has: "store_has unsaved_env (svc_db ?s) ''A''"
    by (simp add: store_has_def unsaved_env_def sample_env_with_def sample_env_def)
  have save: "\<not> kf_save unsaved_env w k p" for w k p
    by (simp add: unsaved_env_def)
  have ne: "''A'' \<noteq> GROUP_SETTINGS" by simp
  show ?thesis
    unfolding Let_def
    by (intro conjI has conjunct1 [OF unsaved_delete_takes_effect [OF ok kf parse str ne has save]])
qed

text \<open>
  C15: The two surfaces agree on the default printer: what either one sets (a name in UTF-8), both report, the webOS one
  as the current printer and the Settings one as the default. That holds even when the choice could
  not be saved, although the client that made it was then told that it failed.
\<close>

theorem default_shared:
  assumes "env_ok E" "keyfile_ok E good" "g_utf8_validate E pid" "parse E m = Some parsed" "t = f E h m s"
    and "(f, key) \<in> {(printers_set_current, ''printerID''), (ports_set_default_printer, ''printerId'')}"
    and "luna_get_string parsed key = Some pid"
  shows "(\<exists>fs. replies (svc_world (printers_get_current E h' m' t)) = replies (svc_world t) @ [Reply h' m' (JObj fs)] \<and>
      map_of fs ''printerID'' = Some (JStr pid)) \<and>
    (\<exists>fs. replies (svc_world (ports_list_printers E h' m' t)) = replies (svc_world t) @ [Reply h' m' (JObj fs)] \<and>
      map_of fs ''defaultPrinterId'' = Some (JStr pid))"
proof -
  obtain b s1 where set: "set_current E pid s = (b, s1)" by fastforce
  obtain db1 w1 where db: "printer_db_set_current E (svc_db s) (Some pid) (svc_world s) = (b, db1, w1)" "svc_db s1 = db1"
    using set by (auto simp: set_current_def split: prod.splits)
  have same: "current_of E db' = Some pid" if "db_keyfile db' = db_keyfile db1" for db'
    using set_current_view [OF assms(2,3) db(1)] that by (simp add: current_of_def store_strings_def)
  have "db_keyfile (svc_db t) = db_keyfile db1"
    using assms(4,6,7) set db(2) by (auto simp: assms(5) printers_set_current_def ports_set_default_printer_def
        reply_err_def reply_success_def on_world_def ports_post_printers_def ports_printers_payload_def post_def
        printer_db_get_current_def Let_def)
  then have cur: "fst (printer_db_get_current E (svc_db t)) = pid"
    using same by (simp add: get_current_view)
  obtain db2 where get: "printer_db_get_current E (svc_db t) = (pid, db2)"
    using cur by (metis prod.collapse)
  have known: "prn_id p = pid" if "find_known u pid = Some p" for u :: "'a print_service" and p
    using that by (auto simp: find_known_def find_Some_iff)
  obtain sub t1 where sub: "check_subscription E h' m' t = (sub, t1)" by fastforce
  have t1: "svc_db t1 = svc_db t" "replies (svc_world t1) = replies (svc_world t)"
    using sub subscription_steady [OF sub] by (auto simp: check_subscription_def call_def steady_def split: prod.splits)
  show ?thesis
    using get sub t1 assms(1) known
    by (auto simp: printers_get_current_def ports_list_printers_def ports_printers_payload_def send_reply_def
        on_world_def luna_service_message_validate_and_send_def put_ok_def put_subscribed_def printer_to_json_def
        Let_def env_ok_def is_reply_def split: option.split)
qed

definition choice_env :: "sample_store env" where
  "choice_env = sample_env_with [(''printerId'', JStr ''Office'')]"

theorem default_shared_witness:
  "let t = ports_set_default_printer choice_env Bus_ports sample_message sample_service
   in \<exists>fs. replies (svc_world (printers_get_current choice_env Bus_legacy sample_message t))
       = replies (svc_world t) @ [Reply Bus_legacy sample_message (JObj fs)]
     \<and> map_of fs ''printerID'' = Some (JStr ''Office'')"
proof -
  have ok: "env_ok choice_env" "keyfile_ok choice_env (\<lambda>g. True)" "g_utf8_validate choice_env ''Office''"
    using sample_keyfile_ok by (simp_all add: choice_env_def sample_env_with_def)
      (simp_all add: env_ok_def sample_env_def)
  have parse: "parse choice_env sample_message = Some (JObj [(''printerId'', JStr ''Office'')])"
    by (simp add: choice_env_def parse_def luna_service_message_parse_and_validate_def sample_env_with_def sample_env_def)
  have str: "luna_get_string (JObj [(''printerId'', JStr ''Office'')]) ''printerId'' = Some ''Office''"
    by (simp add: luna_get_string_def c_string_def)
  have "(ports_set_default_printer, ''printerId'') \<in>
      {(printers_set_current, ''printerID''), (ports_set_default_printer, ''printerId'')}" by simp
  from default_shared [OF ok parse refl this str] show ?thesis
    unfolding Let_def by (rule conjunct1)
qed

end
